theory Spec2Isabelle
  imports Complex_Main
begin

section \<open>Data model of \<^verbatim>\<open>src/lib/ffm.cpp\<close>\<close>

text \<open>
  The header \<^verbatim>\<open>ffm.h\<close> with the declarations of \<^verbatim>\<open>ffm_int\<close>, \<^verbatim>\<open>ffm_long\<close>,
  \<^verbatim>\<open>ffm_float\<close>, \<^verbatim>\<open>ffm_node\<close>, \<^verbatim>\<open>ffm_model\<close> and \<^verbatim>\<open>ffm_parameter\<close> is not among the
  sources; the records below have the fields that \<^verbatim>\<open>ffm.cpp\<close> reads and writes.

  \<^item> \<^verbatim>\<open>ffm_int\<close> and \<^verbatim>\<open>ffm_long\<close> are signed integers, modelled by \<open>int\<close>. Offsets into
    the buffer are computed in the 64-bit \<^verbatim>\<open>ffm_long\<close> everywhere but in \<^verbatim>\<open>shrink_model\<close>,
    whose 32-bit products are modelled with their wrap-around (\<open>ffm_int_wrap\<close>). The
    64-bit products are not wrapped: a buffer of \<open>2\<^sup>6\<^sup>3\<close> floats cannot be allocated.
  \<^item> \<^verbatim>\<open>ffm_float\<close> and \<^verbatim>\<open>ffm_double\<close> are modelled by \<open>real\<close>: arithmetic is exact, there
    is no rounding, no infinity and no NaN, and \<^verbatim>\<open>_mm_rsqrt_ps\<close> is the exact reciprocal
    square root. The kernel is modelled a second time over the floats with their
    infinities and NaN (section \<open>The kernel over floats with infinities and NaN\<close>),
    for the statements that depend on them.
  \<^item> The buffer \<^verbatim>\<open>model.W\<close> is a store from offsets (in floats, relative to \<^verbatim>\<open>model.W\<close>)
    to values. The C++ code does pointer arithmetic without any bounds check, so the store
    is total: an access at any offset reads or writes the store at that offset.
  \<^item> The record fields carry a prefix (\<open>node_j\<close> for \<^verbatim>\<open>N->j\<close>, \<open>model_k\<close> for \<^verbatim>\<open>model.k\<close>,
    \<open>param_eta\<close> for \<^verbatim>\<open>param.eta\<close>), because one-letter constants would capture the
    variables of every later statement.
  \<^item> \<^verbatim>\<open>ffm_destroy_model\<close> is not modelled: it is deallocation.
\<close>

type_synonym ffm_int = int
type_synonym ffm_long = int
type_synonym ffm_float = real
type_synonym ffm_double = real
type_synonym mem = "int \<Rightarrow> real"

record ffm_node =
  node_f :: ffm_int
  node_j :: ffm_int
  node_v :: ffm_float

record ffm_model =
  model_n :: ffm_int
  model_m :: ffm_int
  model_k :: ffm_int
  model_W :: mem
  model_normalization :: bool

record ffm_parameter =
  param_eta :: ffm_float
  param_lambda :: ffm_float
  param_nr_iters :: ffm_int
  param_k :: ffm_int
  param_nr_threads :: ffm_int
  param_quiet :: bool
  param_normalization :: bool
  param_random :: bool

section \<open>The SSE intrinsics used by the kernel\<close>

text \<open>A \<^verbatim>\<open>__m128\<close> register holds four floats; lane 0 is the first component.\<close>

type_synonym m128 = "real \<times> real \<times> real \<times> real"

definition mm_set1_ps :: "real \<Rightarrow> m128" where
  "mm_set1_ps a = (a, a, a, a)"

definition mm_setzero_ps :: m128 where
  "mm_setzero_ps = (0, 0, 0, 0)"

fun mm_add_ps :: "m128 \<Rightarrow> m128 \<Rightarrow> m128" where
  "mm_add_ps (a0, a1, a2, a3) (b0, b1, b2, b3) = (a0 + b0, a1 + b1, a2 + b2, a3 + b3)"

fun mm_sub_ps :: "m128 \<Rightarrow> m128 \<Rightarrow> m128" where
  "mm_sub_ps (a0, a1, a2, a3) (b0, b1, b2, b3) = (a0 - b0, a1 - b1, a2 - b2, a3 - b3)"

fun mm_mul_ps :: "m128 \<Rightarrow> m128 \<Rightarrow> m128" where
  "mm_mul_ps (a0, a1, a2, a3) (b0, b1, b2, b3) = (a0 * b0, a1 * b1, a2 * b2, a3 * b3)"

fun mm_rsqrt_ps :: "m128 \<Rightarrow> m128" where
  "mm_rsqrt_ps (a0, a1, a2, a3) = (1 / sqrt a0, 1 / sqrt a1, 1 / sqrt a2, 1 / sqrt a3)"

fun mm_hadd_ps :: "m128 \<Rightarrow> m128 \<Rightarrow> m128" where
  "mm_hadd_ps (a0, a1, a2, a3) (b0, b1, b2, b3) = (a0 + a1, a2 + a3, b0 + b1, b2 + b3)"

definition mm_load_ps :: "mem \<Rightarrow> int \<Rightarrow> m128" where
  "mm_load_ps W p = (W p, W (p + 1), W (p + 2), W (p + 3))"

fun mm_store_ps :: "mem \<Rightarrow> int \<Rightarrow> m128 \<Rightarrow> mem" where
  "mm_store_ps W p (a0, a1, a2, a3) = W(p := a0, p + 1 := a1, p + 2 := a2, p + 3 := a3)"

fun mm_store_ss :: "m128 \<Rightarrow> real" where
  "mm_store_ss (a0, a1, a2, a3) = a0"

section \<open>The interaction kernel \<^verbatim>\<open>wTx\<close>\<close>

text \<open>
  The body of the update loop (source lines 93 to 118) for the coordinate group at \<open>d\<close>:
  four loads, the two gradients, the two accumulators, the two weights, four stores.
  \<open>w1\<close> and \<open>w2\<close> are the offsets of the two blocks, \<open>wg1 = w1 + k\<close> and \<open>wg2 = w2 + k\<close>.
  Over the real numbers a product with 0 is 0; what the body does with an infinite or NaN
  operand is the subject of \<open>wTx_update_body_f\<close> below.
\<close>

definition wTx_update_body ::
  "int \<Rightarrow> int \<Rightarrow> int \<Rightarrow> m128 \<Rightarrow> m128 \<Rightarrow> m128 \<Rightarrow> int \<Rightarrow> mem \<Rightarrow> mem" where
  "wTx_update_body k w1 w2 XMMeta XMMlambda XMMkappav d W =
     (let wg1 = w1 + k;
          wg2 = w2 + k;
          XMMw1 = mm_load_ps W (w1 + d);
          XMMw2 = mm_load_ps W (w2 + d);
          XMMwg1 = mm_load_ps W (wg1 + d);
          XMMwg2 = mm_load_ps W (wg2 + d);
          XMMg1 = mm_add_ps (mm_mul_ps XMMlambda XMMw1) (mm_mul_ps XMMkappav XMMw2);
          XMMg2 = mm_add_ps (mm_mul_ps XMMlambda XMMw2) (mm_mul_ps XMMkappav XMMw1);
          XMMwg1' = mm_add_ps XMMwg1 (mm_mul_ps XMMg1 XMMg1);
          XMMwg2' = mm_add_ps XMMwg2 (mm_mul_ps XMMg2 XMMg2);
          XMMw1' = mm_sub_ps XMMw1 (mm_mul_ps XMMeta (mm_mul_ps (mm_rsqrt_ps XMMwg1') XMMg1));
          XMMw2' = mm_sub_ps XMMw2 (mm_mul_ps XMMeta (mm_mul_ps (mm_rsqrt_ps XMMwg2') XMMg2));
          W1 = mm_store_ps W (w1 + d) XMMw1';
          W2 = mm_store_ps W1 (w2 + d) XMMw2';
          W3 = mm_store_ps W2 (wg1 + d) XMMwg1';
          W4 = mm_store_ps W3 (wg2 + d) XMMwg2'
      in W4)"

text \<open>\<^verbatim>\<open>for(ffm_int d = 0; d < model.k; d += 4)\<close> in update mode.\<close>

function wTx_update_loop ::
  "int \<Rightarrow> int \<Rightarrow> int \<Rightarrow> m128 \<Rightarrow> m128 \<Rightarrow> m128 \<Rightarrow> int \<Rightarrow> mem \<Rightarrow> mem" where
  "wTx_update_loop k w1 w2 XMMeta XMMlambda XMMkappav d W =
     (if d < k
      then wTx_update_loop k w1 w2 XMMeta XMMlambda XMMkappav (d + 4)
             (wTx_update_body k w1 w2 XMMeta XMMlambda XMMkappav d W)
      else W)"
  by pat_completeness auto
termination
  by (relation "measure (\<lambda>(k, w1, w2, XMMeta, XMMlambda, XMMkappav, d, W). nat (k - d))") auto

declare wTx_update_loop.simps [simp del]

text \<open>\<^verbatim>\<open>for(ffm_int d = 0; d < model.k; d += 4)\<close> in score mode (source lines 123 to 130).\<close>

function wTx_score_loop :: "int \<Rightarrow> int \<Rightarrow> int \<Rightarrow> m128 \<Rightarrow> int \<Rightarrow> mem \<Rightarrow> m128 \<Rightarrow> m128" where
  "wTx_score_loop k w1 w2 XMMv d W XMMt =
     (if d < k
      then (let XMMw1 = mm_load_ps W (w1 + d);
                XMMw2 = mm_load_ps W (w2 + d)
            in wTx_score_loop k w1 w2 XMMv (d + 4) W
                 (mm_add_ps XMMt (mm_mul_ps (mm_mul_ps XMMw1 XMMw2) XMMv)))
      else XMMt)"
  by pat_completeness auto
termination
  by (relation "measure (\<lambda>(k, w1, w2, XMMv, d, W, XMMt). nat (k - d))") auto

declare wTx_score_loop.simps [simp del]

text \<open>
  The body of the inner loop for a pair that passed both \<^verbatim>\<open>continue\<close> tests (source lines
  80 to 131). The state is the model, whose buffer the update mode writes, and the
  register \<^verbatim>\<open>XMMt\<close>, which the score mode accumulates.
\<close>

definition wTx_pair ::
  "int \<Rightarrow> int \<Rightarrow> real \<Rightarrow> m128 \<Rightarrow> m128 \<Rightarrow> m128 \<Rightarrow> bool \<Rightarrow> ffm_node \<Rightarrow> ffm_node \<Rightarrow>
   ffm_model \<times> m128 \<Rightarrow> ffm_model \<times> m128" where
  "wTx_pair align0 align1 r XMMkappa XMMeta XMMlambda do_update N1 N2 s =
     (case s of (model, XMMt) \<Rightarrow>
      let j1 = node_j N1; f1 = node_f N1; v1 = node_v N1;
          j2 = node_j N2; f2 = node_f N2; v2 = node_v N2;
          w1 = j1 * align1 + f2 * align0;
          w2 = j2 * align1 + f1 * align0;
          XMMv = mm_set1_ps (2 * v1 * v2 * r)
      in if do_update
         then (let XMMkappav = mm_mul_ps XMMkappa XMMv
               in (model\<lparr>model_W :=
                     wTx_update_loop (model_k model) w1 w2 XMMeta XMMlambda XMMkappav 0
                       (model_W model)\<rparr>, XMMt))
         else (model, wTx_score_loop (model_k model) w1 w2 XMMv 0 (model_W model) XMMt))"

text \<open>\<^verbatim>\<open>for(ffm_node *N2 = N1+1; N2 != end; N2++)\<close>: the list holds the nodes after \<open>N1\<close>.\<close>

fun wTx_inner ::
  "int \<Rightarrow> int \<Rightarrow> real \<Rightarrow> m128 \<Rightarrow> m128 \<Rightarrow> m128 \<Rightarrow> bool \<Rightarrow> ffm_node \<Rightarrow> ffm_node list \<Rightarrow>
   ffm_model \<times> m128 \<Rightarrow> ffm_model \<times> m128" where
  "wTx_inner align0 align1 r XMMkappa XMMeta XMMlambda do_update N1 [] s = s"
| "wTx_inner align0 align1 r XMMkappa XMMeta XMMlambda do_update N1 (N2 # rest) s =
     (if node_j N2 \<ge> model_n (fst s) \<or> node_f N2 \<ge> model_m (fst s) \<or> node_f N1 = node_f N2
      then wTx_inner align0 align1 r XMMkappa XMMeta XMMlambda do_update N1 rest s
      else wTx_inner align0 align1 r XMMkappa XMMeta XMMlambda do_update N1 rest
             (wTx_pair align0 align1 r XMMkappa XMMeta XMMlambda do_update N1 N2 s))"

text \<open>\<^verbatim>\<open>for(ffm_node *N1 = begin; N1 != end; N1++)\<close>: the list holds the nodes from \<open>N1\<close> on.\<close>

fun wTx_outer ::
  "int \<Rightarrow> int \<Rightarrow> real \<Rightarrow> m128 \<Rightarrow> m128 \<Rightarrow> m128 \<Rightarrow> bool \<Rightarrow> ffm_node list \<Rightarrow>
   ffm_model \<times> m128 \<Rightarrow> ffm_model \<times> m128" where
  "wTx_outer align0 align1 r XMMkappa XMMeta XMMlambda do_update [] s = s"
| "wTx_outer align0 align1 r XMMkappa XMMeta XMMlambda do_update (N1 # rest) s =
     (if node_j N1 \<ge> model_n (fst s) \<or> node_f N1 \<ge> model_m (fst s)
      then wTx_outer align0 align1 r XMMkappa XMMeta XMMlambda do_update rest s
      else wTx_outer align0 align1 r XMMkappa XMMeta XMMlambda do_update rest
             (wTx_inner align0 align1 r XMMkappa XMMeta XMMlambda do_update N1 rest s))"

text \<open>
  \<^verbatim>\<open>wTx(begin, end, r, model, kappa, eta, lambda, do_update)\<close>. The list is the range
  from \<^verbatim>\<open>begin\<close> up to, not including, \<^verbatim>\<open>end\<close>. The result is the returned float and the
  model after the call.
\<close>

definition wTx ::
  "ffm_node list \<Rightarrow> real \<Rightarrow> ffm_model \<Rightarrow> real \<Rightarrow> real \<Rightarrow> real \<Rightarrow> bool \<Rightarrow> real \<times> ffm_model" where
  "wTx nodes r model kappa eta lambda do_update =
     (let align0 = model_k model * 2;
          align1 = model_m model * align0;
          XMMkappa = mm_set1_ps kappa;
          XMMeta = mm_set1_ps eta;
          XMMlambda = mm_set1_ps lambda;
          XMMt = mm_setzero_ps;
          s = wTx_outer align0 align1 r XMMkappa XMMeta XMMlambda do_update nodes (model, XMMt)
      in if do_update
         then (0, fst s)
         else (let XMMt1 = mm_hadd_ps (snd s) (snd s);
                   XMMt2 = mm_hadd_ps XMMt1 XMMt1
               in (mm_store_ss XMMt2, fst s)))"

section \<open>Inference: \<^verbatim>\<open>ffm_predict\<close>\<close>

text \<open>\<^verbatim>\<open>for(ffm_node *N = begin; N != end; N++) r += N->v*N->v;\<close>\<close>

fun predict_sumsq :: "ffm_node list \<Rightarrow> real \<Rightarrow> real" where
  "predict_sumsq [] r = r"
| "predict_sumsq (N # rest) r = predict_sumsq rest (r + node_v N * node_v N)"

text \<open>\<^verbatim>\<open>for(ffm_int d = 0; d < model->k; d++) t += w1[d]*w2[d]*v;\<close>\<close>

function predict_dot :: "int \<Rightarrow> int \<Rightarrow> int \<Rightarrow> real \<Rightarrow> int \<Rightarrow> mem \<Rightarrow> real \<Rightarrow> real" where
  "predict_dot k w1 w2 v0 d W t =
     (if d < k then predict_dot k w1 w2 v0 (d + 1) W (t + W (w1 + d) * W (w2 + d) * v0) else t)"
  by pat_completeness auto
termination
  by (relation "measure (\<lambda>(k, w1, w2, v0, d, W, t). nat (k - d))") auto

declare predict_dot.simps [simp del]

fun predict_inner ::
  "int \<Rightarrow> int \<Rightarrow> real \<Rightarrow> ffm_model \<Rightarrow> ffm_node \<Rightarrow> ffm_node list \<Rightarrow> real \<Rightarrow> real" where
  "predict_inner align0 align1 r model N1 [] t = t"
| "predict_inner align0 align1 r model N1 (N2 # rest) t =
     (if node_j N2 \<ge> model_n model \<or> node_f N2 \<ge> model_m model \<or> node_f N1 = node_f N2
      then predict_inner align0 align1 r model N1 rest t
      else (let w1 = node_j N1 * align1 + node_f N2 * align0;
                w2 = node_j N2 * align1 + node_f N1 * align0;
                v0 = 2 * node_v N1 * node_v N2 * r
            in predict_inner align0 align1 r model N1 rest
                 (predict_dot (model_k model) w1 w2 v0 0 (model_W model) t)))"

fun predict_outer ::
  "int \<Rightarrow> int \<Rightarrow> real \<Rightarrow> ffm_model \<Rightarrow> ffm_node list \<Rightarrow> real \<Rightarrow> real" where
  "predict_outer align0 align1 r model [] t = t"
| "predict_outer align0 align1 r model (N1 # rest) t =
     (if node_j N1 \<ge> model_n model \<or> node_f N1 \<ge> model_m model
      then predict_outer align0 align1 r model rest t
      else predict_outer align0 align1 r model rest
             (predict_inner align0 align1 r model N1 rest t))"

text \<open>The row scale of \<^verbatim>\<open>ffm_predict\<close> (source lines 521 to 528).\<close>

definition predict_scale :: "ffm_node list \<Rightarrow> ffm_model \<Rightarrow> real" where
  "predict_scale nodes model =
     (if model_normalization model then 1 / sqrt (predict_sumsq nodes 0) else 1)"

text \<open>The decision value \<open>t\<close> of \<^verbatim>\<open>ffm_predict\<close> (source lines 530 to 558).\<close>

definition predict_t :: "ffm_node list \<Rightarrow> ffm_model \<Rightarrow> real" where
  "predict_t nodes model =
     (let r = predict_scale nodes model;
          align0 = model_k model;
          align1 = model_m model * align0
      in predict_outer align0 align1 r model nodes 0)"

text \<open>
  \<^verbatim>\<open>return 1/(1+exp(-t));\<close> Over the real numbers the result determines \<open>t\<close>; in single
  precision it is exactly 1 for every \<open>t\<close> from about 17 on. The theorems below conclude
  that two probabilities differ only at concrete decision values far below that (at most
  48 / 5), and otherwise only that equal decision values give equal probabilities.
\<close>

definition ffm_predict :: "ffm_node list \<Rightarrow> ffm_model \<Rightarrow> real" where
  "ffm_predict nodes model = 1 / (1 + exp (- predict_t nodes model))"

section \<open>Model life cycle: \<^verbatim>\<open>init_model\<close> and \<^verbatim>\<open>shrink_model\<close>\<close>

datatype error =
    Bad_alloc
  | Response_must_be_integer
  | Feature_columns_must_be_dict
  | Flex_type_mismatch
  | Row_index_out_of_range

text \<open>
  \<^verbatim>\<open>posix_memalign\<close> belongs to the environment: \<open>heap sz\<close> is the content of the fresh
  buffer, or \<open>None\<close> when the request fails.
\<close>

definition malloc_aligned_float :: "(int \<Rightarrow> mem option) \<Rightarrow> ffm_long \<Rightarrow> error + mem" where
  "malloc_aligned_float heap sz =
     (case heap sz of None \<Rightarrow> Inl Bad_alloc | Some W \<Rightarrow> Inr W)"

text \<open>\<^verbatim>\<open>kALIGN = kALIGNByte/sizeof(ffm_float)\<close>, with four-byte floats.\<close>

definition kALIGNByte :: int where
  "kALIGNByte = 16"

definition kALIGN :: int where
  "kALIGN = kALIGNByte div 4"

text \<open>
  The state of the fill loops of \<^verbatim>\<open>init_model\<close>: the buffer, the cursor \<^verbatim>\<open>w\<close> and the
  number of calls of \<^verbatim>\<open>drand48\<close> made so far. The generator is a sequence \<open>drand48\<close> of
  draws; the \<open>i\<close>-th call returns \<open>drand48 i\<close>.
\<close>

type_synonym init_state = "mem \<times> int \<times> nat"

text \<open>\<^verbatim>\<open>for(ffm_int d = 0; d < param.k; d++, w++) *w = coef*drand48();\<close>\<close>

function init_rand_loop :: "(nat \<Rightarrow> real) \<Rightarrow> real \<Rightarrow> int \<Rightarrow> int \<Rightarrow> init_state \<Rightarrow> init_state" where
  "init_rand_loop drand48 coef d hi s =
     (case s of (W, w, c) \<Rightarrow>
        if d < hi
        then init_rand_loop drand48 coef (d + 1) hi (W(w := coef * drand48 c), w + 1, Suc c)
        else s)"
  by pat_completeness auto
termination
  by (relation "measure (\<lambda>(drand48, coef, d, hi, s). nat (hi - d))") auto

declare init_rand_loop.simps [simp del]

text \<open>\<^verbatim>\<open>for(ffm_int d = lo; d < hi; d++, w++) *w = c;\<close> for the constants 0 and 1.\<close>

function init_const_loop :: "real \<Rightarrow> int \<Rightarrow> int \<Rightarrow> init_state \<Rightarrow> init_state" where
  "init_const_loop c0 d hi s =
     (case s of (W, w, c) \<Rightarrow>
        if d < hi
        then init_const_loop c0 (d + 1) hi (W(w := c0), w + 1, c)
        else s)"
  by pat_completeness auto
termination
  by (relation "measure (\<lambda>(c0, d, hi, s). nat (hi - d))") auto

declare init_const_loop.simps [simp del]

definition init_block :: "(nat \<Rightarrow> real) \<Rightarrow> real \<Rightarrow> int \<Rightarrow> int \<Rightarrow> init_state \<Rightarrow> init_state" where
  "init_block drand48 coef k k_aligned s =
     init_const_loop 1 k_aligned (2 * k_aligned)
       (init_const_loop 0 k k_aligned
          (init_rand_loop drand48 coef 0 k s))"

text \<open>\<^verbatim>\<open>for(ffm_int f = 0; f < model->m; f++)\<close>\<close>

function init_f_loop ::
  "(nat \<Rightarrow> real) \<Rightarrow> real \<Rightarrow> int \<Rightarrow> int \<Rightarrow> int \<Rightarrow> int \<Rightarrow> init_state \<Rightarrow> init_state" where
  "init_f_loop drand48 coef k k_aligned m f0 s =
     (if f0 < m
      then init_f_loop drand48 coef k k_aligned m (f0 + 1) (init_block drand48 coef k k_aligned s)
      else s)"
  by pat_completeness auto
termination
  by (relation "measure (\<lambda>(drand48, coef, k, k_aligned, m, f0, s). nat (m - f0))") auto

declare init_f_loop.simps [simp del]

text \<open>\<^verbatim>\<open>for(ffm_int j = 0; j < model->n; j++)\<close>\<close>

function init_j_loop ::
  "(nat \<Rightarrow> real) \<Rightarrow> real \<Rightarrow> int \<Rightarrow> int \<Rightarrow> int \<Rightarrow> int \<Rightarrow> int \<Rightarrow> init_state \<Rightarrow> init_state" where
  "init_j_loop drand48 coef k k_aligned n m j0 s =
     (if j0 < n
      then init_j_loop drand48 coef k k_aligned n m (j0 + 1)
             (init_f_loop drand48 coef k k_aligned m 0 s)
      else s)"
  by pat_completeness auto
termination
  by (relation "measure (\<lambda>(drand48, coef, k, k_aligned, n, m, j0, s). nat (n - j0))") auto

declare init_j_loop.simps [simp del]

text \<open>
  \<^verbatim>\<open>init_model(n, m, param)\<close>. On \<^verbatim>\<open>bad_alloc\<close> the partially built model is destroyed and
  the exception is thrown again.
\<close>

definition init_model ::
  "(int \<Rightarrow> mem option) \<Rightarrow> (nat \<Rightarrow> real) \<Rightarrow> ffm_int \<Rightarrow> ffm_int \<Rightarrow> ffm_parameter \<Rightarrow>
   error + ffm_model" where
  "init_model heap drand48 n m param =
     (let k_aligned = \<lceil>real_of_int (param_k param) / real_of_int kALIGN\<rceil> * kALIGN
      in case malloc_aligned_float heap (n * m * k_aligned * 2) of
           Inl e \<Rightarrow> Inl e
         | Inr W0 \<Rightarrow>
             (let coef = 0.5 / sqrt (real_of_int (param_k param));
                  s = init_j_loop drand48 coef (param_k param) k_aligned n m 0 (W0, 0, 0)
              in Inr \<lparr>model_n = n, model_m = m, model_k = k_aligned, model_W = fst s,
                      model_normalization = param_normalization param\<rparr>))"

text \<open>
  \<^verbatim>\<open>std::copy(first, last, d_first)\<close>: one element after the other, from the front. (For
  \<^verbatim>\<open>last\<close> before \<^verbatim>\<open>first\<close>, which C++ leaves undefined, nothing is copied.)
\<close>

function std_copy :: "int \<Rightarrow> int \<Rightarrow> int \<Rightarrow> mem \<Rightarrow> mem" where
  "std_copy first0 last0 d_first W =
     (if first0 < last0
      then std_copy (first0 + 1) last0 (d_first + 1) (W(d_first := W first0))
      else W)"
  by pat_completeness auto
termination
  by (relation "measure (\<lambda>(first0, last0, d_first, W). nat (last0 - first0))") auto

declare std_copy.simps [simp del]

text \<open>
  Modelled from the spec: \<^verbatim>\<open>ffm.h\<close>, which declares \<^verbatim>\<open>ffm_int\<close>, is not among the sources;
  the specification gives the field and the index of a node, which the source reads into
  \<^verbatim>\<open>ffm_int\<close> variables, as \<^verbatim>\<open>int\<close>, which has 32 bits on the platforms of the SSE
  kernel. \<open>ffm_int_wrap x\<close> is the value of an \<^verbatim>\<open>ffm_int\<close> expression whose mathematical
  value is \<open>x\<close>: the two's complement result, which is \<open>x\<close> itself when \<open>x\<close> fits. (C++
  leaves signed overflow undefined; the wrapped value is what the multiplication
  instruction delivers.)
\<close>

definition ffm_int_wrap :: "int \<Rightarrow> ffm_int" where
  "ffm_int_wrap x = (x + 2 ^ 31) mod 2 ^ 32 - 2 ^ 31"

text \<open>
  \<^verbatim>\<open>for(ffm_int f = 0; f < model.m; f++)\<close> of \<^verbatim>\<open>shrink_model\<close>, for the index \<open>j0\<close>.
  The source computes both offsets \<^verbatim>\<open>(j*model.m+f)*model.k*2\<close> and
  \<^verbatim>\<open>(j*model.m+f)*k_new\<close> in \<^verbatim>\<open>ffm_int\<close>, without the cast to \<^verbatim>\<open>ffm_long\<close> that \<^verbatim>\<open>wTx\<close>,
  \<^verbatim>\<open>init_model\<close>, \<^verbatim>\<open>ffm_load_model\<close> and \<^verbatim>\<open>ffm_predict\<close> apply, so every product and sum
  of them is wrapped; the result is then added to the pointer \<^verbatim>\<open>model.W\<close>.
\<close>

function shrink_f_loop :: "int \<Rightarrow> int \<Rightarrow> int \<Rightarrow> int \<Rightarrow> int \<Rightarrow> mem \<Rightarrow> mem" where
  "shrink_f_loop m k k_new j0 f0 W =
     (if f0 < m
      then (let b = ffm_int_wrap (ffm_int_wrap (j0 * m) + f0);
                src = ffm_int_wrap (ffm_int_wrap (b * k) * 2);
                dst = ffm_int_wrap (b * k_new)
            in shrink_f_loop m k k_new j0 (f0 + 1) (std_copy src (src + k_new) dst W))
      else W)"
  by pat_completeness auto
termination
  by (relation "measure (\<lambda>(m, k, k_new, j0, f0, W). nat (m - f0))") auto

declare shrink_f_loop.simps [simp del]

text \<open>\<^verbatim>\<open>for(ffm_int j = 0; j < model.n; j++)\<close> of \<^verbatim>\<open>shrink_model\<close>.\<close>

function shrink_j_loop :: "int \<Rightarrow> int \<Rightarrow> int \<Rightarrow> int \<Rightarrow> int \<Rightarrow> mem \<Rightarrow> mem" where
  "shrink_j_loop n m k k_new j0 W =
     (if j0 < n
      then shrink_j_loop n m k k_new (j0 + 1) (shrink_f_loop m k k_new j0 0 W)
      else W)"
  by pat_completeness auto
termination
  by (relation "measure (\<lambda>(n, m, k, k_new, j0, W). nat (n - j0))") auto

declare shrink_j_loop.simps [simp del]

definition shrink_model :: "ffm_model \<Rightarrow> ffm_int \<Rightarrow> ffm_model" where
  "shrink_model model k_new =
     model\<lparr>model_W :=
             shrink_j_loop (model_n model) (model_m model) (model_k model) k_new 0 (model_W model),
           model_k := k_new\<rparr>"

section \<open>Training\<close>

text \<open>
  The rows come from a GraphLab \<^verbatim>\<open>gl_sframe\<close>, which is not part of the sources. A frame
  is modelled by its column names and its rows in iteration order; a cell is a
  \<^verbatim>\<open>flexible_type\<close>. The keys and values of a dictionary cell are given as the integers
  and floats that \<^verbatim>\<open>kvp.first.get<flex_int>()\<close> and \<^verbatim>\<open>(float) kvp.second\<close> produce.
\<close>

datatype flexible_type =
    FLEX_UNDEFINED
  | FLEX_INTEGER int
  | FLEX_FLOAT real
  | FLEX_STRING string
  | FLEX_DICT "(int \<times> real) list"

record gl_sframe =
  sf_column_names :: "string list"
  sf_rows :: "flexible_type list list"

record ffm_problem =
  prob_n :: ffm_int
  prob_m :: ffm_int
  prob_l :: ffm_int
  prob_sf :: gl_sframe
  prob_target_column :: string
  prob_feature_columns :: "string list"

text \<open>
  \<^verbatim>\<open>get_column_index\<close>: the position of the first column of that name; \<^verbatim>\<open>-1\<close>, converted
  to a 64-bit \<^verbatim>\<open>size_t\<close>, when there is none.
\<close>

fun get_column_index_from :: "string list \<Rightarrow> string \<Rightarrow> nat \<Rightarrow> nat" where
  "get_column_index_from [] colname i = 2 ^ 64 - 1"
| "get_column_index_from (c # cs) colname i =
     (if c = colname then i else get_column_index_from cs colname (Suc i))"

definition get_column_index :: "gl_sframe \<Rightarrow> string \<Rightarrow> nat" where
  "get_column_index sf colname = get_column_index_from (sf_column_names sf) colname 0"

text \<open>
  \<^verbatim>\<open>row[col]\<close>. Indexing a vector out of range is undefined in C++; the model stops with
  \<open>Row_index_out_of_range\<close> there.
\<close>

definition row_at :: "flexible_type list \<Rightarrow> nat \<Rightarrow> error + flexible_type" where
  "row_at row col = (if col < length row then Inr (row ! col) else Inl Row_index_out_of_range)"

text \<open>The nodes pushed for one dictionary cell of column \<open>col\<close> (source lines 287 to 298).\<close>

definition dict_nodes :: "nat \<Rightarrow> (int \<times> real) list \<Rightarrow> ffm_node list" where
  "dict_nodes col dv =
     map (\<lambda>kvp. \<lparr>node_f = int col, node_j = fst kvp, node_v = snd kvp\<rparr>) dv"

text \<open>\<^verbatim>\<open>for (size_t col : feature_col_idxs)\<close>, pushing onto \<^verbatim>\<open>row_nodes\<close>.\<close>

fun feature_nodes ::
  "nat list \<Rightarrow> flexible_type list \<Rightarrow> ffm_node list \<Rightarrow> error + ffm_node list" where
  "feature_nodes [] row row_nodes = Inr row_nodes"
| "feature_nodes (col # cols) row row_nodes =
     (case row_at row col of
        Inl e \<Rightarrow> Inl e
      | Inr c \<Rightarrow>
          (if c \<noteq> FLEX_UNDEFINED
           then (case c of
                   FLEX_DICT dv \<Rightarrow> feature_nodes cols row (row_nodes @ dict_nodes col dv)
                 | _ \<Rightarrow> Inl Feature_columns_must_be_dict)
           else feature_nodes cols row row_nodes))"

text \<open>
  The body of the row loop of \<^verbatim>\<open>train\<close> (source lines 267 to 324). The sentinel node
  \<^verbatim>\<open>blank\<close> is pushed last and \<^verbatim>\<open>end\<close> points at it, so the range given to \<^verbatim>\<open>wTx\<close> is
  the list of the row's nodes. The state is \<^verbatim>\<open>tr_loss\<close> and the model.
\<close>

definition train_row ::
  "ffm_parameter \<Rightarrow> nat \<Rightarrow> nat list \<Rightarrow> flexible_type list \<Rightarrow> ffm_double \<times> ffm_model \<Rightarrow>
   error + (ffm_double \<times> ffm_model)" where
  "train_row param target_col_idx feature_col_idxs row s =
     (case s of (tr_loss, model) \<Rightarrow>
      (case row_at row target_col_idx of
         Inl e \<Rightarrow> Inl e
       | Inr yval \<Rightarrow>
          (case yval of
             FLEX_INTEGER yi \<Rightarrow>
               (let y = (if yi > 0 then 1 else - 1 :: real)
                in case feature_nodes feature_col_idxs row [] of
                     Inl e \<Rightarrow> Inl e
                   | Inr row_nodes \<Rightarrow>
                       (let r = 1;
                            res = wTx row_nodes r model 0 0 0 False;
                            t = fst res;
                            expnyt = exp (- y * t);
                            tr_loss' = tr_loss + ln (1 + expnyt);
                            kappa = - y * expnyt / (1 + expnyt);
                            res' = wTx row_nodes r (snd res) kappa (param_eta param)
                                     (param_lambda param) True
                        in Inr (tr_loss', snd res')))
           | _ \<Rightarrow> Inl Response_must_be_integer)))"

text \<open>\<^verbatim>\<open>for (; it != rsf.end(); ++it, ++i)\<close> over the training rows.\<close>

fun train_rows ::
  "ffm_parameter \<Rightarrow> nat \<Rightarrow> nat list \<Rightarrow> flexible_type list list \<Rightarrow> ffm_double \<times> ffm_model \<Rightarrow>
   error + (ffm_double \<times> ffm_model)" where
  "train_rows param target_col_idx feature_col_idxs [] s = Inr s"
| "train_rows param target_col_idx feature_col_idxs (row # rows) s =
     (case train_row param target_col_idx feature_col_idxs row s of
        Inl e \<Rightarrow> Inl e
      | Inr s' \<Rightarrow> train_rows param target_col_idx feature_col_idxs rows s')"

text \<open>
  The body of the row loop over the validation frame (source lines 347 to 385). The
  label is read with \<^verbatim>\<open>get<flex_int>()\<close> without a test of its type; the model stops with
  \<open>Flex_type_mismatch\<close> when the cell is not an integer.
\<close>

definition va_row ::
  "nat \<Rightarrow> nat list \<Rightarrow> ffm_model \<Rightarrow> flexible_type list \<Rightarrow> ffm_double \<Rightarrow> error + ffm_double" where
  "va_row target_col_idx feature_col_idxs model row va_loss =
     (case row_at row target_col_idx of
        Inl e \<Rightarrow> Inl e
      | Inr yval \<Rightarrow>
         (case yval of
            FLEX_INTEGER yi \<Rightarrow>
              (let y = (if yi > 0 then 1 else - 1 :: real)
               in case feature_nodes feature_col_idxs row [] of
                    Inl e \<Rightarrow> Inl e
                  | Inr row_nodes \<Rightarrow>
                      (let r = 1;
                           t = fst (wTx row_nodes r model 0 0 0 False);
                           expnyt = exp (- y * t)
                       in Inr (va_loss + ln (1 + expnyt))))
          | _ \<Rightarrow> Inl Flex_type_mismatch))"

fun va_rows ::
  "nat \<Rightarrow> nat list \<Rightarrow> ffm_model \<Rightarrow> flexible_type list list \<Rightarrow> ffm_double \<Rightarrow>
   error + ffm_double" where
  "va_rows target_col_idx feature_col_idxs model [] va_loss = Inr va_loss"
| "va_rows target_col_idx feature_col_idxs model (row # rows) va_loss =
     (case va_row target_col_idx feature_col_idxs model row va_loss of
        Inl e \<Rightarrow> Inl e
      | Inr va_loss' \<Rightarrow> va_rows target_col_idx feature_col_idxs model rows va_loss')"

text \<open>
  What \<^verbatim>\<open>train\<close> sends to \<^verbatim>\<open>logprogress_stream\<close>: the header (with or without the
  validation column) and one line for each iteration.
\<close>

datatype log_line =
    Log_header bool
  | Log_iter int real "real option"

text \<open>
  The body of the iteration loop (source lines 258 to 394). The state is the log and the
  model.
\<close>

definition train_iter ::
  "ffm_parameter \<Rightarrow> ffm_problem \<Rightarrow> ffm_problem option \<Rightarrow> nat \<Rightarrow> nat list \<Rightarrow> int \<Rightarrow>
   log_line list \<times> ffm_model \<Rightarrow> error + (log_line list \<times> ffm_model)" where
  "train_iter param tr va target_col_idx feature_col_idxs iter s =
     (case s of (lg, model) \<Rightarrow>
      (case train_rows param target_col_idx feature_col_idxs (sf_rows (prob_sf tr)) (0, model) of
        Inl e \<Rightarrow> Inl e
      | Inr (tr_loss, model') \<Rightarrow>
          (if \<not> param_quiet param
           then (let tr_loss' = tr_loss / real_of_int (prob_l tr)
                 in case va of
                      None \<Rightarrow> Inr (lg @ [Log_iter iter tr_loss' None], model')
                    | Some vap \<Rightarrow>
                        (if prob_l vap \<noteq> 0
                         then (case va_rows target_col_idx feature_col_idxs model'
                                      (sf_rows (prob_sf vap)) 0 of
                                 Inl e \<Rightarrow> Inl e
                               | Inr va_loss \<Rightarrow>
                                   Inr (lg @ [Log_iter iter tr_loss'
                                                (Some (va_loss / real_of_int (prob_l vap)))],
                                        model'))
                         else Inr (lg @ [Log_iter iter tr_loss' None], model')))
           else Inr (lg, model'))))"

text \<open>\<^verbatim>\<open>for(ffm_int iter = 0; iter < param.nr_iters; iter++)\<close>\<close>

function train_iters ::
  "ffm_parameter \<Rightarrow> ffm_problem \<Rightarrow> ffm_problem option \<Rightarrow> nat \<Rightarrow> nat list \<Rightarrow> int \<Rightarrow>
   log_line list \<times> ffm_model \<Rightarrow> error + (log_line list \<times> ffm_model)" where
  "train_iters param tr va target_col_idx feature_col_idxs iter s =
     (if iter < param_nr_iters param
      then (case train_iter param tr va target_col_idx feature_col_idxs iter s of
              Inl e \<Rightarrow> Inl e
            | Inr s' \<Rightarrow> train_iters param tr va target_col_idx feature_col_idxs (iter + 1) s')
      else Inr s)"
  by pat_completeness auto
termination
  by (relation "measure (\<lambda>(param, tr, va, target_col_idx, feature_col_idxs, iter, s).
                  nat (param_nr_iters param - iter))") auto

declare train_iters.simps [simp del]

text \<open>
  \<^verbatim>\<open>train(tr, order, param, va)\<close>. The calls that set the number of OpenMP threads have no
  effect on the result and are left out. The result is the log and the shrunk model.
\<close>

definition train ::
  "(int \<Rightarrow> mem option) \<Rightarrow> (nat \<Rightarrow> real) \<Rightarrow> ffm_problem \<Rightarrow> ffm_int list \<Rightarrow> ffm_parameter \<Rightarrow>
   ffm_problem option \<Rightarrow> error + (log_line list \<times> ffm_model)" where
  "train heap drand48 tr order param va =
     (case init_model heap drand48 (prob_n tr) (prob_m tr) param of
        Inl e \<Rightarrow> Inl e
      | Inr model \<Rightarrow>
          (let lg = (if \<not> param_quiet param
                     then [Log_header (case va of None \<Rightarrow> False | Some vap \<Rightarrow> prob_l vap \<noteq> 0)]
                     else []);
               target_col_idx = get_column_index (prob_sf tr) (prob_target_column tr);
               feature_col_idxs = map (get_column_index (prob_sf tr)) (prob_feature_columns tr)
           in case train_iters param tr va target_col_idx feature_col_idxs 0 (lg, model) of
                Inl e \<Rightarrow> Inl e
              | Inr (lg', model') \<Rightarrow> Inr (lg', shrink_model model' (param_k param))))"

definition ffm_get_default_param :: ffm_parameter where
  "ffm_get_default_param =
     \<lparr>param_eta = 0.1, param_lambda = 0, param_nr_iters = 15, param_k = 4,
      param_nr_threads = 1, param_quiet = False, param_normalization = False,
      param_random = True\<rparr>"

definition train_with_validation ::
  "(int \<Rightarrow> mem option) \<Rightarrow> (nat \<Rightarrow> real) \<Rightarrow> ffm_problem \<Rightarrow> ffm_problem option \<Rightarrow>
   ffm_parameter \<Rightarrow> error + (log_line list \<times> ffm_model)" where
  "train_with_validation heap drand48 tr va param =
     (let order = map int [0..<nat (prob_l tr)]
      in case train heap drand48 tr order param va of
           Inl e \<Rightarrow> Inl e
         | Inr (lg, model) \<Rightarrow>
             Inr (lg, \<lparr>model_n = model_n model, model_m = model_m model,
                       model_k = model_k model, model_W = model_W model,
                       model_normalization = model_normalization model\<rparr>))"

definition ffm_train ::
  "(int \<Rightarrow> mem option) \<Rightarrow> (nat \<Rightarrow> real) \<Rightarrow> ffm_problem \<Rightarrow> ffm_parameter \<Rightarrow>
   error + (log_line list \<times> ffm_model)" where
  "ffm_train heap drand48 prob param = train_with_validation heap drand48 prob None param"

section \<open>Saving and loading a model: \<^verbatim>\<open>ffm_save_model\<close> and \<^verbatim>\<open>ffm_load_model\<close>\<close>























section \<open>The kernel over floats with infinities and NaN\<close>

text \<open>
  The real numbers above have no infinity and no NaN, which a \<^verbatim>\<open>float\<close> has and which
  \<^verbatim>\<open>train\<close> hands to the kernel: \<^verbatim>\<open>exp(-y*t)\<close> is infinite from \<open>- y * t\<close> of about 88.7
  on, and \<^verbatim>\<open>kappa = -y*expnyt/(1+expnyt)\<close> is then the quotient of two infinities, NaN.
  For the statements that depend on it the kernel is modelled a second time, line by line
  as above, over the values of a \<^verbatim>\<open>float\<close>: the finite ones (as real numbers), the two
  infinities and NaN. An operation on finite values gives the real result when it lies
  in the range of a \<^verbatim>\<open>float\<close> and the infinity of its sign beyond (there is still no
  rounding inside the range, and the two zeros are one); the other cases are those of
  IEEE 754: NaN is absorbing, the difference of two equal infinities and the product of
  an infinity with zero are NaN. \<^verbatim>\<open>_mm_rsqrt_ps\<close> is the reciprocal square root: infinite
  at zero, zero at the positive infinity, NaN below zero.
\<close>

datatype ieee_float =
    Float real
  | PInf
  | NInf
  | NaN

definition FLT_MAX :: real where
  "FLT_MAX = (2 - 1 / 2 ^ 23) * 2 ^ 127"

definition f_round :: "real \<Rightarrow> ieee_float" where
  "f_round x = (if FLT_MAX < x then PInf else if x < - FLT_MAX then NInf else Float x)"

fun f_neg :: "ieee_float \<Rightarrow> ieee_float" where
  "f_neg (Float a) = Float (- a)"
| "f_neg PInf = NInf"
| "f_neg NInf = PInf"
| "f_neg NaN = NaN"

fun f_add :: "ieee_float \<Rightarrow> ieee_float \<Rightarrow> ieee_float" where
  "f_add (Float a) (Float b) = f_round (a + b)"
| "f_add (Float a) PInf = PInf"
| "f_add (Float a) NInf = NInf"
| "f_add (Float a) NaN = NaN"
| "f_add PInf (Float b) = PInf"
| "f_add PInf PInf = PInf"
| "f_add PInf NInf = NaN"
| "f_add PInf NaN = NaN"
| "f_add NInf (Float b) = NInf"
| "f_add NInf PInf = NaN"
| "f_add NInf NInf = NInf"
| "f_add NInf NaN = NaN"
| "f_add NaN y = NaN"

definition f_sub :: "ieee_float \<Rightarrow> ieee_float \<Rightarrow> ieee_float" where
  "f_sub x y = f_add x (f_neg y)"

fun f_mul :: "ieee_float \<Rightarrow> ieee_float \<Rightarrow> ieee_float" where
  "f_mul (Float a) (Float b) = f_round (a * b)"
| "f_mul (Float a) PInf = (if a = 0 then NaN else if 0 < a then PInf else NInf)"
| "f_mul (Float a) NInf = (if a = 0 then NaN else if 0 < a then NInf else PInf)"
| "f_mul (Float a) NaN = NaN"
| "f_mul PInf (Float b) = (if b = 0 then NaN else if 0 < b then PInf else NInf)"
| "f_mul PInf PInf = PInf"
| "f_mul PInf NInf = NInf"
| "f_mul PInf NaN = NaN"
| "f_mul NInf (Float b) = (if b = 0 then NaN else if 0 < b then NInf else PInf)"
| "f_mul NInf PInf = NInf"
| "f_mul NInf NInf = PInf"
| "f_mul NInf NaN = NaN"
| "f_mul NaN y = NaN"

fun f_rsqrt :: "ieee_float \<Rightarrow> ieee_float" where
  "f_rsqrt (Float a) = (if a < 0 then NaN else if a = 0 then PInf else f_round (1 / sqrt a))"
| "f_rsqrt PInf = Float 0"
| "f_rsqrt NInf = NaN"
| "f_rsqrt NaN = NaN"

type_synonym memf = "int \<Rightarrow> ieee_float"
type_synonym m128f = "ieee_float \<times> ieee_float \<times> ieee_float \<times> ieee_float"

record ffm_node_f =
  nodef_f :: ffm_int
  nodef_j :: ffm_int
  nodef_v :: ieee_float

record ffm_model_f =
  modelf_n :: ffm_int
  modelf_m :: ffm_int
  modelf_k :: ffm_int
  modelf_W :: memf
  modelf_normalization :: bool

definition mmf_set1_ps :: "ieee_float \<Rightarrow> m128f" where
  "mmf_set1_ps a = (a, a, a, a)"

definition mmf_setzero_ps :: m128f where
  "mmf_setzero_ps = (Float 0, Float 0, Float 0, Float 0)"

fun mmf_add_ps :: "m128f \<Rightarrow> m128f \<Rightarrow> m128f" where
  "mmf_add_ps (a0, a1, a2, a3) (b0, b1, b2, b3) =
     (f_add a0 b0, f_add a1 b1, f_add a2 b2, f_add a3 b3)"

fun mmf_sub_ps :: "m128f \<Rightarrow> m128f \<Rightarrow> m128f" where
  "mmf_sub_ps (a0, a1, a2, a3) (b0, b1, b2, b3) =
     (f_sub a0 b0, f_sub a1 b1, f_sub a2 b2, f_sub a3 b3)"

fun mmf_mul_ps :: "m128f \<Rightarrow> m128f \<Rightarrow> m128f" where
  "mmf_mul_ps (a0, a1, a2, a3) (b0, b1, b2, b3) =
     (f_mul a0 b0, f_mul a1 b1, f_mul a2 b2, f_mul a3 b3)"

fun mmf_rsqrt_ps :: "m128f \<Rightarrow> m128f" where
  "mmf_rsqrt_ps (a0, a1, a2, a3) = (f_rsqrt a0, f_rsqrt a1, f_rsqrt a2, f_rsqrt a3)"

fun mmf_hadd_ps :: "m128f \<Rightarrow> m128f \<Rightarrow> m128f" where
  "mmf_hadd_ps (a0, a1, a2, a3) (b0, b1, b2, b3) =
     (f_add a0 a1, f_add a2 a3, f_add b0 b1, f_add b2 b3)"

definition mmf_load_ps :: "memf \<Rightarrow> int \<Rightarrow> m128f" where
  "mmf_load_ps W p = (W p, W (p + 1), W (p + 2), W (p + 3))"

fun mmf_store_ps :: "memf \<Rightarrow> int \<Rightarrow> m128f \<Rightarrow> memf" where
  "mmf_store_ps W p (a0, a1, a2, a3) = W(p := a0, p + 1 := a1, p + 2 := a2, p + 3 := a3)"

fun mmf_store_ss :: "m128f \<Rightarrow> ieee_float" where
  "mmf_store_ss (a0, a1, a2, a3) = a0"

text \<open>The body of the update loop (source lines 93 to 118), as \<open>wTx_update_body\<close>.\<close>

definition wTx_update_body_f ::
  "int \<Rightarrow> int \<Rightarrow> int \<Rightarrow> m128f \<Rightarrow> m128f \<Rightarrow> m128f \<Rightarrow> int \<Rightarrow> memf \<Rightarrow> memf" where
  "wTx_update_body_f k w1 w2 XMMeta XMMlambda XMMkappav d W =
     (let wg1 = w1 + k;
          wg2 = w2 + k;
          XMMw1 = mmf_load_ps W (w1 + d);
          XMMw2 = mmf_load_ps W (w2 + d);
          XMMwg1 = mmf_load_ps W (wg1 + d);
          XMMwg2 = mmf_load_ps W (wg2 + d);
          XMMg1 = mmf_add_ps (mmf_mul_ps XMMlambda XMMw1) (mmf_mul_ps XMMkappav XMMw2);
          XMMg2 = mmf_add_ps (mmf_mul_ps XMMlambda XMMw2) (mmf_mul_ps XMMkappav XMMw1);
          XMMwg1' = mmf_add_ps XMMwg1 (mmf_mul_ps XMMg1 XMMg1);
          XMMwg2' = mmf_add_ps XMMwg2 (mmf_mul_ps XMMg2 XMMg2);
          XMMw1' = mmf_sub_ps XMMw1 (mmf_mul_ps XMMeta (mmf_mul_ps (mmf_rsqrt_ps XMMwg1') XMMg1));
          XMMw2' = mmf_sub_ps XMMw2 (mmf_mul_ps XMMeta (mmf_mul_ps (mmf_rsqrt_ps XMMwg2') XMMg2));
          W1 = mmf_store_ps W (w1 + d) XMMw1';
          W2 = mmf_store_ps W1 (w2 + d) XMMw2';
          W3 = mmf_store_ps W2 (wg1 + d) XMMwg1';
          W4 = mmf_store_ps W3 (wg2 + d) XMMwg2'
      in W4)"

function wTx_update_loop_f ::
  "int \<Rightarrow> int \<Rightarrow> int \<Rightarrow> m128f \<Rightarrow> m128f \<Rightarrow> m128f \<Rightarrow> int \<Rightarrow> memf \<Rightarrow> memf" where
  "wTx_update_loop_f k w1 w2 XMMeta XMMlambda XMMkappav d W =
     (if d < k
      then wTx_update_loop_f k w1 w2 XMMeta XMMlambda XMMkappav (d + 4)
             (wTx_update_body_f k w1 w2 XMMeta XMMlambda XMMkappav d W)
      else W)"
  by pat_completeness auto
termination
  by (relation "measure (\<lambda>(k, w1, w2, XMMeta, XMMlambda, XMMkappav, d, W). nat (k - d))") auto

declare wTx_update_loop_f.simps [simp del]

text \<open>The body of the score loop (source lines 125 to 129).\<close>

definition wTx_score_body_f :: "int \<Rightarrow> int \<Rightarrow> m128f \<Rightarrow> int \<Rightarrow> memf \<Rightarrow> m128f \<Rightarrow> m128f" where
  "wTx_score_body_f w1 w2 XMMv d W XMMt =
     (let XMMw1 = mmf_load_ps W (w1 + d);
          XMMw2 = mmf_load_ps W (w2 + d)
      in mmf_add_ps XMMt (mmf_mul_ps (mmf_mul_ps XMMw1 XMMw2) XMMv))"

function wTx_score_loop_f ::
  "int \<Rightarrow> int \<Rightarrow> int \<Rightarrow> m128f \<Rightarrow> int \<Rightarrow> memf \<Rightarrow> m128f \<Rightarrow> m128f" where
  "wTx_score_loop_f k w1 w2 XMMv d W XMMt =
     (if d < k
      then wTx_score_loop_f k w1 w2 XMMv (d + 4) W (wTx_score_body_f w1 w2 XMMv d W XMMt)
      else XMMt)"
  by pat_completeness auto
termination
  by (relation "measure (\<lambda>(k, w1, w2, XMMv, d, W, XMMt). nat (k - d))") auto

declare wTx_score_loop_f.simps [simp del]

definition wTx_pair_f ::
  "int \<Rightarrow> int \<Rightarrow> ieee_float \<Rightarrow> m128f \<Rightarrow> m128f \<Rightarrow> m128f \<Rightarrow> bool \<Rightarrow> ffm_node_f \<Rightarrow> ffm_node_f \<Rightarrow>
   ffm_model_f \<times> m128f \<Rightarrow> ffm_model_f \<times> m128f" where
  "wTx_pair_f align0 align1 r XMMkappa XMMeta XMMlambda do_update N1 N2 s =
     (case s of (model, XMMt) \<Rightarrow>
      let j1 = nodef_j N1; f1 = nodef_f N1; v1 = nodef_v N1;
          j2 = nodef_j N2; f2 = nodef_f N2; v2 = nodef_v N2;
          w1 = j1 * align1 + f2 * align0;
          w2 = j2 * align1 + f1 * align0;
          XMMv = mmf_set1_ps (f_mul (f_mul (f_mul (Float 2) v1) v2) r)
      in if do_update
         then (let XMMkappav = mmf_mul_ps XMMkappa XMMv
               in (model\<lparr>modelf_W :=
                     wTx_update_loop_f (modelf_k model) w1 w2 XMMeta XMMlambda XMMkappav 0
                       (modelf_W model)\<rparr>, XMMt))
         else (model, wTx_score_loop_f (modelf_k model) w1 w2 XMMv 0 (modelf_W model) XMMt))"

fun wTx_inner_f ::
  "int \<Rightarrow> int \<Rightarrow> ieee_float \<Rightarrow> m128f \<Rightarrow> m128f \<Rightarrow> m128f \<Rightarrow> bool \<Rightarrow> ffm_node_f \<Rightarrow>
   ffm_node_f list \<Rightarrow> ffm_model_f \<times> m128f \<Rightarrow> ffm_model_f \<times> m128f" where
  "wTx_inner_f align0 align1 r XMMkappa XMMeta XMMlambda do_update N1 [] s = s"
| "wTx_inner_f align0 align1 r XMMkappa XMMeta XMMlambda do_update N1 (N2 # rest) s =
     (if nodef_j N2 \<ge> modelf_n (fst s) \<or> nodef_f N2 \<ge> modelf_m (fst s) \<or> nodef_f N1 = nodef_f N2
      then wTx_inner_f align0 align1 r XMMkappa XMMeta XMMlambda do_update N1 rest s
      else wTx_inner_f align0 align1 r XMMkappa XMMeta XMMlambda do_update N1 rest
             (wTx_pair_f align0 align1 r XMMkappa XMMeta XMMlambda do_update N1 N2 s))"

fun wTx_outer_f ::
  "int \<Rightarrow> int \<Rightarrow> ieee_float \<Rightarrow> m128f \<Rightarrow> m128f \<Rightarrow> m128f \<Rightarrow> bool \<Rightarrow> ffm_node_f list \<Rightarrow>
   ffm_model_f \<times> m128f \<Rightarrow> ffm_model_f \<times> m128f" where
  "wTx_outer_f align0 align1 r XMMkappa XMMeta XMMlambda do_update [] s = s"
| "wTx_outer_f align0 align1 r XMMkappa XMMeta XMMlambda do_update (N1 # rest) s =
     (if nodef_j N1 \<ge> modelf_n (fst s) \<or> nodef_f N1 \<ge> modelf_m (fst s)
      then wTx_outer_f align0 align1 r XMMkappa XMMeta XMMlambda do_update rest s
      else wTx_outer_f align0 align1 r XMMkappa XMMeta XMMlambda do_update rest
             (wTx_inner_f align0 align1 r XMMkappa XMMeta XMMlambda do_update N1 rest s))"

text \<open>\<^verbatim>\<open>wTx(begin, end, r, model, kappa, eta, lambda, do_update)\<close> over these floats.\<close>

definition wTx_f ::
  "ffm_node_f list \<Rightarrow> ieee_float \<Rightarrow> ffm_model_f \<Rightarrow> ieee_float \<Rightarrow> ieee_float \<Rightarrow> ieee_float \<Rightarrow>
   bool \<Rightarrow> ieee_float \<times> ffm_model_f" where
  "wTx_f nodes r model kappa eta lambda do_update =
     (let align0 = modelf_k model * 2;
          align1 = modelf_m model * align0;
          XMMkappa = mmf_set1_ps kappa;
          XMMeta = mmf_set1_ps eta;
          XMMlambda = mmf_set1_ps lambda;
          XMMt = mmf_setzero_ps;
          s = wTx_outer_f align0 align1 r XMMkappa XMMeta XMMlambda do_update nodes (model, XMMt)
      in if do_update
         then (Float 0, fst s)
         else (let XMMt1 = mmf_hadd_ps (snd s) (snd s);
                   XMMt2 = mmf_hadd_ps XMMt1 XMMt1
               in (mmf_store_ss XMMt2, fst s)))"

text \<open>
  The model that \<^verbatim>\<open>init_model\<close> builds, as floats: every slot it fills holds a finite
  value.
\<close>

definition float_model :: "ffm_model \<Rightarrow> ffm_model_f" where
  "float_model model =
     \<lparr>modelf_n = model_n model, modelf_m = model_m model, modelf_k = model_k model,
      modelf_W = (\<lambda>x. Float (model_W model x)),
      modelf_normalization = model_normalization model\<rparr>"

section \<open>Notions of the specification\<close>

text \<open>
  The definitions of this section are not translations of source code. They state, in the
  words of the specification, what the theorems below compare the code with.
\<close>

text \<open>The lane \<open>i\<close> of a register, and the sum of its four lanes.\<close>

definition lane :: "m128 \<Rightarrow> int \<Rightarrow> real" where
  "lane X i = (case X of (a0, a1, a2, a3) \<Rightarrow>
                 if i = 0 then a0 else if i = 1 then a1 else if i = 2 then a2 else a3)"

definition hsum :: "m128 \<Rightarrow> real" where
  "hsum X = (case X of (a0, a1, a2, a3) \<Rightarrow> a0 + a1 + a2 + a3)"

text \<open>
  The unshrunk layout: the block of \<open>(index, field)\<close> starts at
  \<open>index * m * 2k + field * 2k\<close>; its first \<open>k\<close> slots are the embedding, the next \<open>k\<close>
  slots the accumulators.
\<close>

definition embedding_offset :: "ffm_model \<Rightarrow> int \<Rightarrow> int \<Rightarrow> int" where
  "embedding_offset model index field =
     index * model_m model * (2 * model_k model) + field * (2 * model_k model)"

text \<open>A node is in bounds when its index is below \<open>n\<close> and its field is below \<open>m\<close>.\<close>

definition in_bounds :: "ffm_model \<Rightarrow> ffm_node \<Rightarrow> bool" where
  "in_bounds model N \<longleftrightarrow> node_j N < model_n model \<and> node_f N < model_m model"

text \<open>All pairs of a row with the first node preceding the second, in the order of the loops.\<close>

fun ordered_pairs :: "'a list \<Rightarrow> ('a \<times> 'a) list" where
  "ordered_pairs [] = []"
| "ordered_pairs (x # xs) = map (Pair x) xs @ ordered_pairs xs"

definition valid_pair :: "ffm_model \<Rightarrow> ffm_node \<times> ffm_node \<Rightarrow> bool" where
  "valid_pair model p \<longleftrightarrow>
     in_bounds model (fst p) \<and> in_bounds model (snd p) \<and> node_f (fst p) \<noteq> node_f (snd p)"

definition valid_pairs :: "ffm_model \<Rightarrow> ffm_node list \<Rightarrow> (ffm_node \<times> ffm_node) list" where
  "valid_pairs model nodes = filter (valid_pair model) (ordered_pairs nodes)"

text \<open>The dot product over the coordinates \<open>0 \<le> d < c\<close> of the blocks at \<open>w1\<close> and \<open>w2\<close>.\<close>

definition dot_product :: "mem \<Rightarrow> int \<Rightarrow> int \<Rightarrow> int \<Rightarrow> real" where
  "dot_product W c w1 w2 = (\<Sum>d = 0..<c. W (w1 + d) * W (w2 + d))"

text \<open>
  The term of the pair \<open>(N1, N2)\<close>: \<open>2 * v1 * v2 * row_scale\<close> times the dot product of
  the embedding stored at \<open>(j1, f2)\<close> and the embedding stored at \<open>(j2, f1)\<close>.
\<close>

definition pair_score :: "ffm_model \<Rightarrow> real \<Rightarrow> ffm_node \<times> ffm_node \<Rightarrow> real" where
  "pair_score model r p =
     2 * node_v (fst p) * node_v (snd p) * r *
       dot_product (model_W model) (model_k model)
         (embedding_offset model (node_j (fst p)) (node_f (snd p)))
         (embedding_offset model (node_j (snd p)) (node_f (fst p)))"

definition score_spec :: "ffm_model \<Rightarrow> real \<Rightarrow> ffm_node list \<Rightarrow> real" where
  "score_spec model r nodes = sum_list (map (pair_score model r) (valid_pairs model nodes))"

text \<open>
  The gradient of the coordinate \<open>d\<close> of the block at \<open>w\<close> against the block at \<open>w'\<close>:
  \<open>g = lambda * w[d] + kappa_v * w'[d]\<close>.
\<close>

definition grad :: "mem \<Rightarrow> real \<Rightarrow> real \<Rightarrow> int \<Rightarrow> int \<Rightarrow> int \<Rightarrow> real" where
  "grad W lambda kappav w w' d = lambda * W (w + d) + kappav * W (w' + d)"

text \<open>
  The AdaGrad step of one pair on the coordinates \<open>0 \<le> d < c\<close> of the blocks at \<open>w1\<close>
  and \<open>w2\<close>, as the specification words it: the accumulator at \<open>w + k + d\<close> grows by
  \<open>g\<^sup>2\<close>, the weight at \<open>w + d\<close> loses \<open>eta * g / sqrt\<close> of the accumulator after
  that growth, and no other slot changes. All values on the right are those before the step.
\<close>

definition pair_update_spec ::
  "int \<Rightarrow> int \<Rightarrow> int \<Rightarrow> real \<Rightarrow> real \<Rightarrow> real \<Rightarrow> int \<Rightarrow> mem \<Rightarrow> mem" where
  "pair_update_spec k w1 w2 eta lambda kappav c W =
     (\<lambda>x. if w2 + k \<le> x \<and> x < w2 + k + c
          then W x + (grad W lambda kappav w2 w1 (x - (w2 + k)))\<^sup>2
          else if w1 + k \<le> x \<and> x < w1 + k + c
          then W x + (grad W lambda kappav w1 w2 (x - (w1 + k)))\<^sup>2
          else if w2 \<le> x \<and> x < w2 + c
          then W x - eta * grad W lambda kappav w2 w1 (x - w2) /
                       sqrt (W (x + k) + (grad W lambda kappav w2 w1 (x - w2))\<^sup>2)
          else if w1 \<le> x \<and> x < w1 + c
          then W x - eta * grad W lambda kappav w1 w2 (x - w1) /
                       sqrt (W (x + k) + (grad W lambda kappav w1 w2 (x - w1))\<^sup>2)
          else W x)"

text \<open>
  The step of one pair on a model in the unshrunk layout, with
  \<open>kappa_v = kappa * (2 * v1 * v2 * row_scale)\<close>, and the steps of all valid pairs of a
  row in the order of the loops.
\<close>

definition pair_update ::
  "real \<Rightarrow> real \<Rightarrow> real \<Rightarrow> real \<Rightarrow> ffm_node \<times> ffm_node \<Rightarrow> ffm_model \<Rightarrow> ffm_model" where
  "pair_update r kappa eta lambda p model =
     model\<lparr>model_W :=
       pair_update_spec (model_k model)
         (embedding_offset model (node_j (fst p)) (node_f (snd p)))
         (embedding_offset model (node_j (snd p)) (node_f (fst p)))
         eta lambda (kappa * (2 * node_v (fst p) * node_v (snd p) * r))
         (model_k model) (model_W model)\<rparr>"

definition update_spec ::
  "ffm_model \<Rightarrow> real \<Rightarrow> real \<Rightarrow> real \<Rightarrow> real \<Rightarrow> ffm_node list \<Rightarrow> ffm_model" where
  "update_spec model r kappa eta lambda nodes =
     fold (pair_update r kappa eta lambda) (valid_pairs model nodes) model"

text \<open>
  The slots of the two blocks of a pair: the \<open>2k\<close> slots from the offset of \<open>(j1, f2)\<close>
  and the \<open>2k\<close> slots from the offset of \<open>(j2, f1)\<close>; and the slots of the blocks of all
  valid pairs of a row.
\<close>

definition pair_slots :: "ffm_model \<Rightarrow> ffm_node \<times> ffm_node \<Rightarrow> int \<Rightarrow> bool" where
  "pair_slots model p x \<longleftrightarrow>
     (let w1 = embedding_offset model (node_j (fst p)) (node_f (snd p));
          w2 = embedding_offset model (node_j (snd p)) (node_f (fst p))
      in (w1 \<le> x \<and> x < w1 + 2 * model_k model) \<or> (w2 \<le> x \<and> x < w2 + 2 * model_k model))"

definition row_slots :: "ffm_model \<Rightarrow> ffm_node list \<Rightarrow> int \<Rightarrow> bool" where
  "row_slots model nodes x \<longleftrightarrow> list_ex (\<lambda>p. pair_slots model p x) (valid_pairs model nodes)"

text \<open>
  The concrete scenario of the specification: \<open>n = 4\<close>, \<open>m = 2\<close>, \<open>k = 4\<close>, and the row
  \<open>[(field 0, index 1, value 1), (field 1, index 2, value 1)]\<close>. Every slot of the buffer
  holds 1.
\<close>

definition ex_model :: ffm_model where
  "ex_model = \<lparr>model_n = 4, model_m = 2, model_k = 4, model_W = (\<lambda>x. 1),
               model_normalization = False\<rparr>"

definition ex_row :: "ffm_node list" where
  "ex_row = [\<lparr>node_f = 0, node_j = 1, node_v = 1\<rparr>, \<lparr>node_f = 1, node_j = 2, node_v = 1\<rparr>]"

text \<open>
  The shrunk layout: the block of \<open>(index, field)\<close> starts at \<open>index * m * k + field * k\<close>
  and holds the \<open>k\<close> embedding slots only. \<open>predict_sum\<close> is the sum over the valid pairs
  of a row in that layout.
\<close>

definition shrunk_offset :: "ffm_model \<Rightarrow> int \<Rightarrow> int \<Rightarrow> int" where
  "shrunk_offset model index field =
     index * model_m model * model_k model + field * model_k model"

definition pair_score_shrunk :: "ffm_model \<Rightarrow> real \<Rightarrow> ffm_node \<times> ffm_node \<Rightarrow> real" where
  "pair_score_shrunk model r p =
     2 * node_v (fst p) * node_v (snd p) * r *
       dot_product (model_W model) (model_k model)
         (shrunk_offset model (node_j (fst p)) (node_f (snd p)))
         (shrunk_offset model (node_j (snd p)) (node_f (fst p)))"

definition predict_sum :: "ffm_model \<Rightarrow> real \<Rightarrow> ffm_node list \<Rightarrow> real" where
  "predict_sum model r nodes =
     sum_list (map (pair_score_shrunk model r) (valid_pairs model nodes))"


text \<open>
  A shrunk model with \<open>n = 2\<close>, \<open>m = 2\<close>, \<open>k = 1\<close>, every slot 1 and \<open>normalization\<close> set;
  a row of two nodes in bounds with the values 3 and 4; and the same row followed by a
  node whose index 7 is out of bounds, with the value 12.
\<close>

definition ex_norm_model :: ffm_model where
  "ex_norm_model = \<lparr>model_n = 2, model_m = 2, model_k = 1, model_W = (\<lambda>x. 1),
                    model_normalization = True\<rparr>"

definition ex_norm_row :: "ffm_node list" where
  "ex_norm_row = [\<lparr>node_f = 0, node_j = 0, node_v = 3\<rparr>, \<lparr>node_f = 1, node_j = 1, node_v = 4\<rparr>]"

definition ex_norm_row_out :: "ffm_node list" where
  "ex_norm_row_out = ex_norm_row @ [\<lparr>node_f = 0, node_j = 7, node_v = 12\<rparr>]"

text \<open>A row of two nodes in bounds of \<open>ex_model\<close> that share the field 0.\<close>

definition ex_same_field_row :: "ffm_node list" where
  "ex_same_field_row =
     [\<lparr>node_f = 0, node_j = 1, node_v = 1\<rparr>, \<lparr>node_f = 0, node_j = 2, node_v = 1\<rparr>]"

text \<open>
  The compacted buffer: the slot \<open>x\<close> of the destination block \<open>b = x div k_new\<close>, for
  \<open>lo \<le> b < hi\<close>, holds what the slot \<open>x mod k_new\<close> of the source block \<open>b\<close> held in
  \<open>W\<close>; every other slot is as in \<open>W\<close>.
\<close>

definition shrink_spec :: "int \<Rightarrow> int \<Rightarrow> int \<Rightarrow> int \<Rightarrow> mem \<Rightarrow> mem" where
  "shrink_spec k k_new lo hi W =
     (\<lambda>x. if lo * k_new \<le> x \<and> x < hi * k_new
          then W ((x div k_new) * k * 2 + x mod k_new)
          else W x)"

text \<open>The model of the concrete scenario with the slot at offset \<open>x\<close> holding \<open>x\<close>.\<close>

definition ex_ramp_model :: ffm_model where
  "ex_ramp_model = \<lparr>model_n = 4, model_m = 2, model_k = 4, model_W = (\<lambda>x. real_of_int x),
                    model_normalization = False\<rparr>"






text \<open>
  A model as \<^verbatim>\<open>init_model\<close> builds it for \<open>n = 2\<^sup>2\<^sup>7 + 1\<close> indices, \<open>m = 2\<close> fields and
  \<open>k = 4\<close>: an unshrunk buffer of \<open>2\<^sup>3\<^sup>1 + 16\<close> floats. The slot at offset \<open>x\<close> holds \<open>x\<close>.
\<close>

definition ex_big_model :: ffm_model where
  "ex_big_model = \<lparr>model_n = 134217729, model_m = 2, model_k = 4,
                   model_W = (\<lambda>x. real_of_int x), model_normalization = False\<rparr>"

text \<open>
  What a fill of \<open>c\<close> blocks of \<open>2 * ka\<close> slots from the cursor \<open>w\<close> leaves behind: the
  cursor has moved by \<open>c\<close> blocks, the slots below \<open>w\<close> are as before, the padding
  coordinates of the \<open>c\<close> blocks hold 0 and their accumulators hold 1.
\<close>

definition fills :: "int \<Rightarrow> int \<Rightarrow> int \<Rightarrow> init_state \<Rightarrow> init_state \<Rightarrow> bool" where
  "fills k ka c s s' \<longleftrightarrow>
     fst (snd s') = fst (snd s) + c * (2 * ka) \<and>
     (\<forall>x. x < fst (snd s) \<longrightarrow> fst s' x = fst s x) \<and>
     (\<forall>i d. 0 \<le> i \<and> i < c \<and> k \<le> d \<and> d < ka \<longrightarrow> fst s' (fst (snd s) + i * (2 * ka) + d) = 0) \<and>
     (\<forall>i d. 0 \<le> i \<and> i < c \<and> ka \<le> d \<and> d < 2 * ka \<longrightarrow>
        fst s' (fst (snd s) + i * (2 * ka) + d) = 1)"

text \<open>
  An allocation for the concrete scenario: the parameters request \<open>k = 2\<close>, which is
  aligned to 4; the fresh buffer holds 5 in every slot; every draw of the generator is
  \<open>1 / 2\<close>. \<open>ex_init_model\<close> is the model that \<open>init_model\<close> builds from them.
\<close>

definition ex_param :: ffm_parameter where
  "ex_param = \<lparr>param_eta = 1 / 10, param_lambda = 0, param_nr_iters = 1, param_k = 2,
               param_nr_threads = 1, param_quiet = True, param_normalization = False,
               param_random = True\<rparr>"

definition ex_heap :: "int \<Rightarrow> mem option" where
  "ex_heap sz = Some (\<lambda>x. 5)"

definition ex_drand48 :: "nat \<Rightarrow> real" where
  "ex_drand48 i = 1 / 2"

definition ex_init_model :: ffm_model where
  "ex_init_model =
     \<lparr>model_n = 4, model_m = 2, model_k = 4,
      model_W = fst (init_j_loop ex_drand48 (0.5 / sqrt 2) 2 4 4 2 0 ((\<lambda>x. 5), 0, 0)),
      model_normalization = False\<rparr>"

text \<open>
  A training row for a frame whose column 0 is the label and whose columns 1 and 2 are
  feature columns, the nodes it yields, and a model with three fields and
  \<open>normalization\<close> set, as \<open>init_model\<close> copies it from parameters that set it.
\<close>

definition ex_norm_param :: ffm_parameter where
  "ex_norm_param = \<lparr>param_eta = 1 / 10, param_lambda = 0, param_nr_iters = 1, param_k = 4,
                    param_nr_threads = 1, param_quiet = True, param_normalization = True,
                    param_random = True\<rparr>"

definition ex_flex_row :: "flexible_type list" where
  "ex_flex_row = [FLEX_INTEGER 1, FLEX_DICT [(1, 3)], FLEX_DICT [(2, 4)]]"

definition ex_train_nodes :: "ffm_node list" where
  "ex_train_nodes = [\<lparr>node_f = 1, node_j = 1, node_v = 3\<rparr>, \<lparr>node_f = 2, node_j = 2, node_v = 4\<rparr>]"

definition ex_train_model :: ffm_model where
  "ex_train_model = \<lparr>model_n = 4, model_m = 3, model_k = 4, model_W = (\<lambda>x. 1),
                     model_normalization = True\<rparr>"

section \<open>Notions for the kernel over floats\<close>

text \<open>
  A value is finite when it is neither an infinity nor NaN, and in range when it is not a
  real number beyond the largest \<^verbatim>\<open>float\<close>: every result of an operation is in range.
\<close>

fun f_is_finite :: "ieee_float \<Rightarrow> bool" where
  "f_is_finite (Float a) = True"
| "f_is_finite PInf = False"
| "f_is_finite NInf = False"
| "f_is_finite NaN = False"

fun f_in_range :: "ieee_float \<Rightarrow> bool" where
  "f_in_range (Float a) = (\<bar>a\<bar> \<le> FLT_MAX)"
| "f_in_range PInf = True"
| "f_in_range NInf = True"
| "f_in_range NaN = True"

definition lanef :: "m128f \<Rightarrow> int \<Rightarrow> ieee_float" where
  "lanef X i = (case X of (a0, a1, a2, a3) \<Rightarrow>
                  if i = 0 then a0 else if i = 1 then a1 else if i = 2 then a2 else a3)"

text \<open>
  What the body of the update loop computes for the coordinate \<open>c\<close> of the block at \<open>w\<close>
  against the block at \<open>w'\<close>: the gradient, the new accumulator and the new weight.
\<close>

definition grad_f :: "memf \<Rightarrow> ieee_float \<Rightarrow> ieee_float \<Rightarrow> int \<Rightarrow> int \<Rightarrow> int \<Rightarrow> ieee_float" where
  "grad_f W lambda kappav w w' c = f_add (f_mul lambda (W (w + c))) (f_mul kappav (W (w' + c)))"

definition acc_f ::
  "int \<Rightarrow> memf \<Rightarrow> ieee_float \<Rightarrow> ieee_float \<Rightarrow> int \<Rightarrow> int \<Rightarrow> int \<Rightarrow> ieee_float" where
  "acc_f k W lambda kappav w w' c =
     f_add (W (w + k + c)) (f_mul (grad_f W lambda kappav w w' c) (grad_f W lambda kappav w w' c))"

definition step_f ::
  "int \<Rightarrow> memf \<Rightarrow> ieee_float \<Rightarrow> ieee_float \<Rightarrow> ieee_float \<Rightarrow> int \<Rightarrow> int \<Rightarrow> int \<Rightarrow> ieee_float" where
  "step_f k W eta lambda kappav w w' c =
     f_sub (W (w + c))
       (f_mul eta (f_mul (f_rsqrt (acc_f k W lambda kappav w w' c)) (grad_f W lambda kappav w w' c)))"

text \<open>
  The offset of the block \<open>(index, field)\<close> as the kernel computes it, with
  \<open>align0 = k * 2\<close> and \<open>align1 = m * align0\<close>, and the value \<open>2 * v1 * v2 * r\<close> of a
  pair of nodes.
\<close>

definition block_offset_f :: "ffm_model_f \<Rightarrow> int \<Rightarrow> int \<Rightarrow> int" where
  "block_offset_f model index field =
     index * (modelf_m model * (modelf_k model * 2)) + field * (modelf_k model * 2)"

definition pair_value_f :: "ieee_float \<Rightarrow> ffm_node_f \<Rightarrow> ffm_node_f \<Rightarrow> ieee_float" where
  "pair_value_f r N1 N2 = f_mul (f_mul (f_mul (Float 2) (nodef_v N1)) (nodef_v N2)) r"

text \<open>
  The padding coordinates \<open>k_requested \<le> d < k\<close> of every block \<open>(index, field)\<close> with
  \<open>0 \<le> index < n\<close> and \<open>0 \<le> field < m\<close> hold 0.
\<close>

definition padding_zero_f :: "int \<Rightarrow> ffm_model_f \<Rightarrow> bool" where
  "padding_zero_f k_requested model \<longleftrightarrow>
     (\<forall>j\<in>{0..<modelf_n model}. \<forall>f0\<in>{0..<modelf_m model}. \<forall>d\<in>{k_requested..<modelf_k model}.
        modelf_W model (block_offset_f model j f0 + d) = Float 0)"

text \<open>
  The invariant of the updates, on the buffer: in each of the first \<open>nm\<close> blocks of
  \<open>2 * k\<close> slots the padding coordinates hold 0 and their accumulators hold 1.
\<close>

definition padding_inv :: "int \<Rightarrow> int \<Rightarrow> int \<Rightarrow> memf \<Rightarrow> bool" where
  "padding_inv k_requested nm k W \<longleftrightarrow>
     (\<forall>B c. 0 \<le> B \<and> B < nm \<and> k_requested \<le> c \<and> c < k \<longrightarrow>
        W (B * (2 * k) + c) = Float 0 \<and> W (B * (2 * k) + k + c) = Float 1)"

definition model_inv :: "int \<Rightarrow> ffm_model_f \<Rightarrow> bool" where
  "model_inv k_requested model \<longleftrightarrow>
     padding_inv k_requested (max 0 (modelf_n model) * max 0 (modelf_m model)) (modelf_k model)
       (modelf_W model)"

text \<open>
  A call of the kernel in update mode, with its row, row scale, \<open>kappa\<close>, \<open>eta\<close> and
  \<open>lambda\<close>, and a sequence of such calls applied to a model one after the other. A call
  is finite when \<open>eta\<close>, \<open>lambda\<close> and the product \<open>kappa * (2 * v1 * v2 * r)\<close> that the
  kernel computes for a pair of the row, the first node preceding the second, are finite,
  and no node of the row has a negative index or field (so that every block the kernel
  touches lies in the buffer).
\<close>

type_synonym update_call_f =
  "ffm_node_f list \<times> ieee_float \<times> ieee_float \<times> ieee_float \<times> ieee_float"

definition apply_update_f :: "update_call_f \<Rightarrow> ffm_model_f \<Rightarrow> ffm_model_f" where
  "apply_update_f c model =
     (case c of (nodes, r, kappa, eta, lambda) \<Rightarrow> snd (wTx_f nodes r model kappa eta lambda True))"

definition apply_updates_f :: "update_call_f list \<Rightarrow> ffm_model_f \<Rightarrow> ffm_model_f" where
  "apply_updates_f calls model = fold apply_update_f calls model"

definition finite_call :: "update_call_f \<Rightarrow> bool" where
  "finite_call c \<longleftrightarrow>
     (case c of (nodes, r, kappa, eta, lambda) \<Rightarrow>
        f_is_finite eta \<and> f_is_finite lambda \<and>
        (\<forall>N\<in>set nodes. 0 \<le> nodef_j N \<and> 0 \<le> nodef_f N) \<and>
        (\<forall>p\<in>set (ordered_pairs nodes).
           f_is_finite (f_mul kappa (pair_value_f r (fst p) (snd p)))))"

text \<open>
  The row of the concrete scenario over floats, one call of the kernel in update mode on
  it with finite parameters, and the same call with \<open>kappa = NaN\<close>.
\<close>

definition ex_row_f :: "ffm_node_f list" where
  "ex_row_f = [\<lparr>nodef_f = 0, nodef_j = 1, nodef_v = Float 1\<rparr>,
               \<lparr>nodef_f = 1, nodef_j = 2, nodef_v = Float 1\<rparr>]"

definition ex_calls_f :: "update_call_f list" where
  "ex_calls_f = [(ex_row_f, Float 1, Float (- 1 / 2), Float (1 / 10), Float 0)]"

definition ex_calls_nan :: "update_call_f list" where
  "ex_calls_nan = [(ex_row_f, Float 1, NaN, Float (1 / 10), Float 0)]"

section \<open>The kernel in score mode\<close>

text \<open>
  The register \<^verbatim>\<open>XMMt\<close> holds four partial sums; the two horizontal additions at the end
  of \<^verbatim>\<open>wTx\<close> add them up. Over the reals the order of the additions does not matter.
\<close>

lemma sum_int_four: "(\<Sum>i = d..<d + 4. g i) = g d + g (d + 1) + g (d + 2) + g (d + (3::int))"
proof -
  have "{d..<d + 4} = {d, d + 1, d + 2, d + 3}" by auto
  then show ?thesis by (simp add: add.assoc)
qed

lemma sum_int_split4:
  assumes "d + 4 \<le> (k::int)"
  shows "(\<Sum>i = d..<k. g i) = g d + g (d + 1) + g (d + 2) + g (d + 3) + (\<Sum>i = d + 4..<k. (g i :: real))"
proof -
  have "(\<Sum>i = d..<k. g i) = (\<Sum>i = d..<d + 4. g i) + (\<Sum>i = d + 4..<k. g i)"
  proof -
    have "{d..<k} = {d..<d + 4} \<union> {d + 4..<k}" using assms by auto
    moreover have "{d..<d + 4} \<inter> {d + 4..<k} = {}" by auto
    ultimately show ?thesis by (simp add: sum.union_disjoint)
  qed
  then show ?thesis by (simp add: sum_int_four)
qed

lemma hsum_score_loop:
  "4 dvd (k - d) \<Longrightarrow>
   hsum (wTx_score_loop k w1 w2 (mm_set1_ps v0) d W XMMt) =
   hsum XMMt + v0 * (\<Sum>i = d..<k. W (w1 + i) * W (w2 + i))"
proof (induction k w1 w2 "mm_set1_ps v0" d W XMMt rule: wTx_score_loop.induct)
  case (1 k w1 w2 d W XMMt)
  show ?case
  proof (cases "d < k")
    case True
    with "1.prems" have le: "d + 4 \<le> k" and dv: "4 dvd (k - (d + 4))" by presburger+
    obtain t0 t1 t2 t3 where X: "XMMt = (t0, t1, t2, t3)" by (cases XMMt) auto
    have "hsum (wTx_score_loop k w1 w2 (mm_set1_ps v0) d W XMMt) =
          hsum (mm_add_ps XMMt (mm_mul_ps (mm_mul_ps (mm_load_ps W (w1 + d)) (mm_load_ps W (w2 + d))) (mm_set1_ps v0))) +
            v0 * (\<Sum>i = d + 4..<k. W (w1 + i) * W (w2 + i))"
      using True "1.hyps"[OF True refl refl dv] by (subst wTx_score_loop.simps) (simp add: Let_def)
    also have "\<dots> = hsum XMMt + v0 * (\<Sum>i = d..<k. W (w1 + i) * W (w2 + i))"
      by (simp add: X sum_int_split4[OF le] hsum_def mm_load_ps_def mm_set1_ps_def algebra_simps)
    finally show ?thesis .
  next
    case False
    then show ?thesis by (subst wTx_score_loop.simps) simp
  qed
qed

lemma hsum_score_loop0:
  "4 dvd k \<Longrightarrow>
   hsum (wTx_score_loop k w1 w2 (mm_set1_ps v0) 0 W XMMt) = hsum XMMt + v0 * dot_product W k w1 w2"
  using hsum_score_loop[of k 0 w1 w2 v0 W XMMt] by (simp add: dot_product_def)

lemma wTx_pair_score_fst:
  "fst (wTx_pair a0 a1 r Xk Xe Xl False N1 N2 s) = fst s"
  by (cases s) (simp add: wTx_pair_def Let_def)

lemma wTx_inner_score_fst:
  "fst (wTx_inner a0 a1 r Xk Xe Xl False N1 rest s) = fst s"
  by (induction rest arbitrary: s) (simp_all add: wTx_pair_score_fst)

lemma wTx_outer_score_fst:
  "fst (wTx_outer a0 a1 r Xk Xe Xl False nodes s) = fst s"
  by (induction nodes arbitrary: s) (simp_all add: wTx_inner_score_fst)

lemma wTx_pair_score_hsum:
  assumes "4 dvd model_k model"
  shows "hsum (snd (wTx_pair (model_k model * 2) (model_m model * (model_k model * 2)) r Xk Xe Xl False N1 N2 (model, XMMt)))
         = hsum XMMt + pair_score model r (N1, N2)"
  using assms
  by (simp add: wTx_pair_def Let_def hsum_score_loop0 pair_score_def embedding_offset_def algebra_simps)

lemma wTx_inner_score_hsum:
  assumes "4 dvd model_k model" "in_bounds model N1"
  shows "hsum (snd (wTx_inner (model_k model * 2) (model_m model * (model_k model * 2)) r Xk Xe Xl False N1 rest (model, XMMt)))
         = hsum XMMt + sum_list (map (pair_score model r) (filter (valid_pair model) (map (Pair N1) rest)))"
proof (induction rest arbitrary: XMMt)
  case Nil
  then show ?case by simp
next
  case (Cons N2 rest)
  show ?case
  proof (cases "valid_pair model (N1, N2)")
    case True
    then have c: "\<not> (node_j N2 \<ge> model_n model \<or> node_f N2 \<ge> model_m model \<or> node_f N1 = node_f N2)"
      by (auto simp: valid_pair_def in_bounds_def)
    obtain X' where p: "wTx_pair (model_k model * 2) (model_m model * (model_k model * 2)) r Xk Xe Xl False N1 N2 (model, XMMt) = (model, X')"
      using wTx_pair_score_fst[of "model_k model * 2" "model_m model * (model_k model * 2)" r Xk Xe Xl N1 N2 "(model, XMMt)"]
      by (cases "wTx_pair (model_k model * 2) (model_m model * (model_k model * 2)) r Xk Xe Xl False N1 N2 (model, XMMt)") auto
    have h: "hsum X' = hsum XMMt + pair_score model r (N1, N2)"
      using wTx_pair_score_hsum[OF assms(1), of r Xk Xe Xl N1 N2 XMMt] p by simp
    show ?thesis using c True p h Cons.IH[of X'] by simp
  next
    case False
    then have c: "node_j N2 \<ge> model_n model \<or> node_f N2 \<ge> model_m model \<or> node_f N1 = node_f N2"
      using assms(2) by (auto simp: valid_pair_def in_bounds_def)
    show ?thesis using c False Cons.IH[of XMMt] by simp
  qed
qed

lemma filter_valid_not_in_bounds:
  "\<not> in_bounds model N1 \<Longrightarrow> filter (valid_pair model) (map (Pair N1) rest) = []"
  by (induction rest) (auto simp: valid_pair_def)

lemma wTx_outer_score_hsum:
  assumes "4 dvd model_k model"
  shows "hsum (snd (wTx_outer (model_k model * 2) (model_m model * (model_k model * 2)) r Xk Xe Xl False nodes (model, XMMt)))
         = hsum XMMt + score_spec model r nodes"
proof (induction nodes arbitrary: XMMt)
  case Nil
  then show ?case by (simp add: score_spec_def valid_pairs_def)
next
  case (Cons N1 rest)
  show ?case
  proof (cases "in_bounds model N1")
    case True
    then have c: "\<not> (node_j N1 \<ge> model_n model \<or> node_f N1 \<ge> model_m model)"
      by (auto simp: in_bounds_def)
    obtain X' where p: "wTx_inner (model_k model * 2) (model_m model * (model_k model * 2)) r Xk Xe Xl False N1 rest (model, XMMt) = (model, X')"
      using wTx_inner_score_fst[of "model_k model * 2" "model_m model * (model_k model * 2)" r Xk Xe Xl N1 rest "(model, XMMt)"]
      by (cases "wTx_inner (model_k model * 2) (model_m model * (model_k model * 2)) r Xk Xe Xl False N1 rest (model, XMMt)") auto
    have h: "hsum X' = hsum XMMt + sum_list (map (pair_score model r) (filter (valid_pair model) (map (Pair N1) rest)))"
      using wTx_inner_score_hsum[OF assms True, of r Xk Xe Xl rest XMMt] p by simp
    show ?thesis using c p h Cons.IH[of X'] by (simp add: score_spec_def valid_pairs_def)
  next
    case False
    then have c: "node_j N1 \<ge> model_n model \<or> node_f N1 \<ge> model_m model"
      by (auto simp: in_bounds_def)
    show ?thesis using c Cons.IH[of XMMt] filter_valid_not_in_bounds[OF False]
      by (simp add: score_spec_def valid_pairs_def)
  qed
qed

lemma store_ss_hadd: "mm_store_ss (mm_hadd_ps (mm_hadd_ps X X) (mm_hadd_ps X X)) = hsum X"
  by (cases X) (simp add: hsum_def)

lemma wTx_score_eq:
  assumes "4 dvd model_k model"
  shows "fst (wTx nodes r model kappa eta lambda False) = score_spec model r nodes"
  using wTx_outer_score_hsum[OF assms, of r "mm_set1_ps kappa" "mm_set1_ps eta" "mm_set1_ps lambda" nodes mm_setzero_ps]
  by (simp add: wTx_def Let_def store_ss_hadd) (simp add: hsum_def mm_setzero_ps_def)

lemma wTx_score_snd: "snd (wTx nodes r model kappa eta lambda False) = model"
  by (simp add: wTx_def Let_def wTx_outer_score_fst)

section \<open>The update loop of one pair\<close>

text \<open>
  A register is read lane by lane, and a store of a register is a store of its lanes to
  four consecutive slots. With that the body of the update loop has a closed form, slot
  by slot, and the loop over the groups of four coordinates is the step \<open>pair_update_spec\<close>
  of the pair. The two blocks of a pair are the same block or at least \<open>2k\<close> slots
  apart.
\<close>

lemma lane_set1 [simp]: "lane (mm_set1_ps a) i = a"
  by (simp add: lane_def mm_set1_ps_def)

lemma lane_add [simp]: "lane (mm_add_ps A B) i = lane A i + lane B i"
  by (cases A; cases B) (simp add: lane_def)

lemma lane_sub [simp]: "lane (mm_sub_ps A B) i = lane A i - lane B i"
  by (cases A; cases B) (simp add: lane_def)

lemma lane_mul [simp]: "lane (mm_mul_ps A B) i = lane A i * lane B i"
  by (cases A; cases B) (simp add: lane_def)

lemma lane_rsqrt [simp]: "lane (mm_rsqrt_ps A) i = 1 / sqrt (lane A i)"
  by (cases A) (simp add: lane_def)

lemma lane_load: "0 \<le> i \<Longrightarrow> i < 4 \<Longrightarrow> lane (mm_load_ps W p) i = W (p + i)"
proof -
  assume "0 \<le> i" "i < 4"
  then have "i = 0 \<or> i = 1 \<or> i = 2 \<or> i = 3" by arith
  then show ?thesis by (auto simp: lane_def mm_load_ps_def)
qed

lemma store_apply:
  "mm_store_ps W p X x = (if p \<le> x \<and> x < p + 4 then lane X (x - p) else W x)"
proof (cases X)
  case (fields a0 a1 a2 a3)
  have "p \<le> x \<and> x < p + 4 \<longleftrightarrow> x = p \<or> x = p + 1 \<or> x = p + 2 \<or> x = p + 3" by arith
  then show ?thesis by (auto simp: fields lane_def)
qed

lemma mul_set1: "mm_mul_ps (mm_set1_ps a) (mm_set1_ps b) = mm_set1_ps (a * b)"
  by (simp add: mm_set1_ps_def)

lemma update_body_apply:
  "wTx_update_body k w1 w2 (mm_set1_ps eta) (mm_set1_ps lambda) (mm_set1_ps kappav) d W x =
     (if w2 + k + d \<le> x \<and> x < w2 + k + d + 4
      then W x + (grad W lambda kappav w2 w1 (x - (w2 + k)))\<^sup>2
      else if w1 + k + d \<le> x \<and> x < w1 + k + d + 4
      then W x + (grad W lambda kappav w1 w2 (x - (w1 + k)))\<^sup>2
      else if w2 + d \<le> x \<and> x < w2 + d + 4
      then W x - eta * grad W lambda kappav w2 w1 (x - w2) /
                   sqrt (W (x + k) + (grad W lambda kappav w2 w1 (x - w2))\<^sup>2)
      else if w1 + d \<le> x \<and> x < w1 + d + 4
      then W x - eta * grad W lambda kappav w1 w2 (x - w1) /
                   sqrt (W (x + k) + (grad W lambda kappav w1 w2 (x - w1))\<^sup>2)
      else W x)"
proof -
  consider (A) "w2 + k + d \<le> x \<and> x < w2 + k + d + 4"
    | (B) "\<not> (w2 + k + d \<le> x \<and> x < w2 + k + d + 4)" "w1 + k + d \<le> x \<and> x < w1 + k + d + 4"
    | (C) "\<not> (w2 + k + d \<le> x \<and> x < w2 + k + d + 4)" "\<not> (w1 + k + d \<le> x \<and> x < w1 + k + d + 4)"
          "w2 + d \<le> x \<and> x < w2 + d + 4"
    | (D) "\<not> (w2 + k + d \<le> x \<and> x < w2 + k + d + 4)" "\<not> (w1 + k + d \<le> x \<and> x < w1 + k + d + 4)"
          "\<not> (w2 + d \<le> x \<and> x < w2 + d + 4)" "w1 + d \<le> x \<and> x < w1 + d + 4"
    | (E) "\<not> (w2 + k + d \<le> x \<and> x < w2 + k + d + 4)" "\<not> (w1 + k + d \<le> x \<and> x < w1 + k + d + 4)"
          "\<not> (w2 + d \<le> x \<and> x < w2 + d + 4)" "\<not> (w1 + d \<le> x \<and> x < w1 + d + 4)"
    by blast
  then show ?thesis
  proof cases
    case A
    define i where "i = x - (w2 + k + d)"
    have i: "0 \<le> i" "i < 4" and x: "x = w2 + k + d + i" using A by (auto simp: i_def)
    show ?thesis
      using i by (simp add: x wTx_update_body_def Let_def store_apply lane_load grad_def
          power2_eq_square add.assoc)
  next
    case B
    define i where "i = x - (w1 + k + d)"
    have i: "0 \<le> i" "i < 4" and x: "x = w1 + k + d + i" using B by (auto simp: i_def)
    show ?thesis
      using i B(1) by (auto simp add: x wTx_update_body_def Let_def store_apply lane_load grad_def
          power2_eq_square add.assoc)
  next
    case C
    define i where "i = x - (w2 + d)"
    have i: "0 \<le> i" "i < 4" and x: "x = w2 + d + i" using C by (auto simp: i_def)
    show ?thesis
      using i C(1,2) by (auto simp add: x wTx_update_body_def Let_def store_apply lane_load grad_def
          power2_eq_square ac_simps)
  next
    case D
    define i where "i = x - (w1 + d)"
    have i: "0 \<le> i" "i < 4" and x: "x = w1 + d + i" using D by (auto simp: i_def)
    show ?thesis
      using i D(1,2,3) by (auto simp add: x wTx_update_body_def Let_def store_apply lane_load grad_def
          power2_eq_square ac_simps)
  next
    case E
    then show ?thesis
      by (auto simp add: wTx_update_body_def Let_def store_apply add.assoc)
  qed
qed


lemma spec_untouched:
  assumes "w1 = w2 \<or> 2 * k \<le> \<bar>w1 - w2\<bar>" "0 \<le> c" "c \<le> i" "i < k"
  shows "pair_update_spec k w1 w2 eta lambda kappav c W0 (w1 + i) = W0 (w1 + i)"
    and "pair_update_spec k w1 w2 eta lambda kappav c W0 (w2 + i) = W0 (w2 + i)"
    and "pair_update_spec k w1 w2 eta lambda kappav c W0 (w1 + k + i) = W0 (w1 + k + i)"
    and "pair_update_spec k w1 w2 eta lambda kappav c W0 (w2 + k + i) = W0 (w2 + k + i)"
  using assms by (auto simp: pair_update_spec_def)

lemma spec_grad:
  assumes "w1 = w2 \<or> 2 * k \<le> \<bar>w1 - w2\<bar>" "0 \<le> c" "c \<le> i" "i < k"
  shows "grad (pair_update_spec k w1 w2 eta lambda kappav c W0) lambda kappav w1 w2 i =
         grad W0 lambda kappav w1 w2 i"
    and "grad (pair_update_spec k w1 w2 eta lambda kappav c W0) lambda kappav w2 w1 i =
         grad W0 lambda kappav w2 w1 i"
  using spec_untouched(1,2)[OF assms] by (simp_all add: grad_def)

lemma update_body_step_A:
  assumes na: "w1 = w2 \<or> 2 * k \<le> \<bar>w1 - w2\<bar>" and d: "0 \<le> d" "d + 4 \<le> k"
    and A: "w2 + k + d \<le> x \<and> x < w2 + k + d + 4"
  shows "wTx_update_body k w1 w2 (mm_set1_ps eta) (mm_set1_ps lambda) (mm_set1_ps kappav) d
           (pair_update_spec k w1 w2 eta lambda kappav d W0) x =
         pair_update_spec k w1 w2 eta lambda kappav (d + 4) W0 x"
proof -
  let ?W = "pair_update_spec k w1 w2 eta lambda kappav d W0"
  define i where "i = x - (w2 + k)"
  have i: "d \<le> i" "i < k" and x: "x = w2 + k + i" using A d by (auto simp: i_def)
  have "wTx_update_body k w1 w2 (mm_set1_ps eta) (mm_set1_ps lambda) (mm_set1_ps kappav) d ?W x
        = ?W x + (grad ?W lambda kappav w2 w1 i)\<^sup>2"
    using A by (simp add: update_body_apply i_def)
  also have "\<dots> = W0 x + (grad W0 lambda kappav w2 w1 i)\<^sup>2"
    using spec_untouched(4)[OF na d(1) i] spec_grad(2)[OF na d(1) i] by (simp add: x)
  also have "\<dots> = pair_update_spec k w1 w2 eta lambda kappav (d + 4) W0 x"
  proof -
    have p1: "w2 + k \<le> x \<and> x < w2 + k + (d + 4)" using A d by arith
    show ?thesis using p1 by (simp add: pair_update_spec_def i_def)
  qed
  finally show ?thesis .
qed

lemma update_body_step_B:
  assumes na: "w1 = w2 \<or> 2 * k \<le> \<bar>w1 - w2\<bar>" and d: "0 \<le> d" "d + 4 \<le> k"
    and B: "x < w2 + k + d \<or> w2 + k + d + 4 \<le> x" "w1 + k + d \<le> x \<and> x < w1 + k + d + 4"
  shows "wTx_update_body k w1 w2 (mm_set1_ps eta) (mm_set1_ps lambda) (mm_set1_ps kappav) d
           (pair_update_spec k w1 w2 eta lambda kappav d W0) x =
         pair_update_spec k w1 w2 eta lambda kappav (d + 4) W0 x"
proof -
  let ?W = "pair_update_spec k w1 w2 eta lambda kappav d W0"
  define i where "i = x - (w1 + k)"
  have i: "d \<le> i" "i < k" and x: "x = w1 + k + i" using B d by (auto simp: i_def)
  have c1: "\<not> (w2 + k + d \<le> x \<and> x < w2 + k + d + 4)" using B(1) by arith
  have "wTx_update_body k w1 w2 (mm_set1_ps eta) (mm_set1_ps lambda) (mm_set1_ps kappav) d ?W x
        = ?W x + (grad ?W lambda kappav w1 w2 i)\<^sup>2"
    by (simp only: update_body_apply c1 B(2) if_True if_False simp_thms i_def)
  also have "\<dots> = W0 x + (grad W0 lambda kappav w1 w2 i)\<^sup>2"
    using spec_untouched(3)[OF na d(1) i] spec_grad(1)[OF na d(1) i] by (simp add: x)
  also have "\<dots> = pair_update_spec k w1 w2 eta lambda kappav (d + 4) W0 x"
  proof -
    have n1: "\<not> (w2 + k \<le> x \<and> x < w2 + k + (d + 4))"
    proof (cases "w1 = w2")
      case True then show ?thesis using B i x by arith
    next
      case False 
      then have "2 * k \<le> \<bar>w1 - w2\<bar>" using na by simp
      then show ?thesis using d i x by arith
    qed
    have p2: "w1 + k \<le> x \<and> x < w1 + k + (d + 4)" using B d by arith
    show ?thesis by (simp only: pair_update_spec_def n1 p2 if_True if_False simp_thms i_def)
  qed
  finally show ?thesis .
qed

lemma update_body_step_C:
  assumes na: "w1 = w2 \<or> 2 * k \<le> \<bar>w1 - w2\<bar>" and d: "0 \<le> d" "d + 4 \<le> k"
    and C: "x < w2 + k + d \<or> w2 + k + d + 4 \<le> x" "x < w1 + k + d \<or> w1 + k + d + 4 \<le> x"
          "w2 + d \<le> x \<and> x < w2 + d + 4"
  shows "wTx_update_body k w1 w2 (mm_set1_ps eta) (mm_set1_ps lambda) (mm_set1_ps kappav) d
           (pair_update_spec k w1 w2 eta lambda kappav d W0) x =
         pair_update_spec k w1 w2 eta lambda kappav (d + 4) W0 x"
proof -
  let ?W = "pair_update_spec k w1 w2 eta lambda kappav d W0"
  define i where "i = x - w2"
  have i: "d \<le> i" "i < k" and x: "x = w2 + i" using C d by (auto simp: i_def)
  have xk: "x + k = w2 + k + i" by (simp add: x)
  have c1: "\<not> (w2 + k + d \<le> x \<and> x < w2 + k + d + 4)" using C(1) by arith
  have c2: "\<not> (w1 + k + d \<le> x \<and> x < w1 + k + d + 4)" using C(2) by arith
  have "wTx_update_body k w1 w2 (mm_set1_ps eta) (mm_set1_ps lambda) (mm_set1_ps kappav) d ?W x
        = ?W x - eta * grad ?W lambda kappav w2 w1 i /
                   sqrt (?W (x + k) + (grad ?W lambda kappav w2 w1 i)\<^sup>2)"
    by (simp only: update_body_apply c1 c2 C(3) if_True if_False simp_thms i_def)
  also have "\<dots> = W0 x - eta * grad W0 lambda kappav w2 w1 i /
                   sqrt (W0 (x + k) + (grad W0 lambda kappav w2 w1 i)\<^sup>2)"
    using spec_untouched(2,4)[OF na d(1) i] spec_grad(2)[OF na d(1) i] by (simp add: xk) (simp add: x)
  also have "\<dots> = pair_update_spec k w1 w2 eta lambda kappav (d + 4) W0 x"
  proof -
    have n1: "\<not> (w2 + k \<le> x \<and> x < w2 + k + (d + 4))" using i x by arith
    have n2: "\<not> (w1 + k \<le> x \<and> x < w1 + k + (d + 4))"
    proof (cases "w1 = w2")
      case True then show ?thesis using i x by arith
    next
      case False 
      then have "2 * k \<le> \<bar>w1 - w2\<bar>" using na by simp
      then show ?thesis using d i x by arith
    qed
    have p3: "w2 \<le> x \<and> x < w2 + (d + 4)" using C d by arith
    show ?thesis by (simp only: pair_update_spec_def n1 n2 p3 if_True if_False simp_thms i_def)
  qed
  finally show ?thesis .
qed

lemma update_body_step_D:
  assumes na: "w1 = w2 \<or> 2 * k \<le> \<bar>w1 - w2\<bar>" and d: "0 \<le> d" "d + 4 \<le> k"
    and D: "x < w2 + k + d \<or> w2 + k + d + 4 \<le> x" "x < w1 + k + d \<or> w1 + k + d + 4 \<le> x"
          "x < w2 + d \<or> w2 + d + 4 \<le> x" "w1 + d \<le> x \<and> x < w1 + d + 4"
  shows "wTx_update_body k w1 w2 (mm_set1_ps eta) (mm_set1_ps lambda) (mm_set1_ps kappav) d
           (pair_update_spec k w1 w2 eta lambda kappav d W0) x =
         pair_update_spec k w1 w2 eta lambda kappav (d + 4) W0 x"
proof -
  let ?W = "pair_update_spec k w1 w2 eta lambda kappav d W0"
  define i where "i = x - w1"
  have i: "d \<le> i" "i < k" and x: "x = w1 + i" using D d by (auto simp: i_def)
  have xk: "x + k = w1 + k + i" by (simp add: x)
  have c1: "\<not> (w2 + k + d \<le> x \<and> x < w2 + k + d + 4)" using D(1) by arith
  have c2: "\<not> (w1 + k + d \<le> x \<and> x < w1 + k + d + 4)" using D(2) by arith
  have c3: "\<not> (w2 + d \<le> x \<and> x < w2 + d + 4)" using D(3) by arith
  have "wTx_update_body k w1 w2 (mm_set1_ps eta) (mm_set1_ps lambda) (mm_set1_ps kappav) d ?W x
        = ?W x - eta * grad ?W lambda kappav w1 w2 i /
                   sqrt (?W (x + k) + (grad ?W lambda kappav w1 w2 i)\<^sup>2)"
    by (simp only: update_body_apply c1 c2 c3 D(4) if_True if_False simp_thms i_def)
  also have "\<dots> = W0 x - eta * grad W0 lambda kappav w1 w2 i /
                   sqrt (W0 (x + k) + (grad W0 lambda kappav w1 w2 i)\<^sup>2)"
    using spec_untouched(1,3)[OF na d(1) i] spec_grad(1)[OF na d(1) i] by (simp add: xk) (simp add: x)
  also have "\<dots> = pair_update_spec k w1 w2 eta lambda kappav (d + 4) W0 x"
  proof -
    have n1: "\<not> (w2 + k \<le> x \<and> x < w2 + k + (d + 4))"
    proof (cases "w1 = w2")
      case True then show ?thesis using i x by arith
    next
      case False 
      then have "2 * k \<le> \<bar>w1 - w2\<bar>" using na by simp
      then show ?thesis using d i x by arith
    qed
    have n2: "\<not> (w1 + k \<le> x \<and> x < w1 + k + (d + 4))" using i x by arith
    have n3: "\<not> (w2 \<le> x \<and> x < w2 + (d + 4))"
    proof (cases "w1 = w2")
      case True then show ?thesis using D i x by arith
    next
      case False 
      then have "2 * k \<le> \<bar>w1 - w2\<bar>" using na by simp
      then show ?thesis using d i x by arith
    qed
    have p4: "w1 \<le> x \<and> x < w1 + (d + 4)" using D d by arith
    show ?thesis by (simp only: pair_update_spec_def n1 n2 n3 p4 if_True if_False simp_thms i_def)
  qed
  finally show ?thesis .
qed

lemma update_body_step_E:
  assumes E: "x < w2 + k + d \<or> w2 + k + d + 4 \<le> x" "x < w1 + k + d \<or> w1 + k + d + 4 \<le> x"
          "x < w2 + d \<or> w2 + d + 4 \<le> x" "x < w1 + d \<or> w1 + d + 4 \<le> x"
  shows "wTx_update_body k w1 w2 (mm_set1_ps eta) (mm_set1_ps lambda) (mm_set1_ps kappav) d
           (pair_update_spec k w1 w2 eta lambda kappav d W0) x =
         pair_update_spec k w1 w2 eta lambda kappav (d + 4) W0 x"
proof -
  let ?W = "pair_update_spec k w1 w2 eta lambda kappav d W0"
  have c1: "\<not> (w2 + k + d \<le> x \<and> x < w2 + k + d + 4)" using E(1) by arith
  have c2: "\<not> (w1 + k + d \<le> x \<and> x < w1 + k + d + 4)" using E(2) by arith
  have c3: "\<not> (w2 + d \<le> x \<and> x < w2 + d + 4)" using E(3) by arith
  have c4: "\<not> (w1 + d \<le> x \<and> x < w1 + d + 4)" using E(4) by arith
  have e1: "(w2 + k \<le> x \<and> x < w2 + k + (d + 4)) = (w2 + k \<le> x \<and> x < w2 + k + d)" using E(1) by arith
  have e2: "(w1 + k \<le> x \<and> x < w1 + k + (d + 4)) = (w1 + k \<le> x \<and> x < w1 + k + d)" using E(2) by arith
  have e3: "(w2 \<le> x \<and> x < w2 + (d + 4)) = (w2 \<le> x \<and> x < w2 + d)" using E(3) by arith
  have e4: "(w1 \<le> x \<and> x < w1 + (d + 4)) = (w1 \<le> x \<and> x < w1 + d)" using E(4) by arith
  have "wTx_update_body k w1 w2 (mm_set1_ps eta) (mm_set1_ps lambda) (mm_set1_ps kappav) d ?W x = ?W x"
    by (simp only: update_body_apply c1 c2 c3 c4 if_False simp_thms)
  also have "\<dots> = pair_update_spec k w1 w2 eta lambda kappav (d + 4) W0 x"
    by (simp only: pair_update_spec_def e1 e2 e3 e4)
  finally show ?thesis .
qed

lemma update_body_step:
  assumes na: "w1 = w2 \<or> 2 * k \<le> \<bar>w1 - w2\<bar>" and d: "0 \<le> d" "d + 4 \<le> k"
  shows "wTx_update_body k w1 w2 (mm_set1_ps eta) (mm_set1_ps lambda) (mm_set1_ps kappav) d
           (pair_update_spec k w1 w2 eta lambda kappav d W0) =
         pair_update_spec k w1 w2 eta lambda kappav (d + 4) W0"
proof
  fix x
  consider (A) "w2 + k + d \<le> x \<and> x < w2 + k + d + 4"
    | (B) "x < w2 + k + d \<or> w2 + k + d + 4 \<le> x" "w1 + k + d \<le> x \<and> x < w1 + k + d + 4"
    | (C) "x < w2 + k + d \<or> w2 + k + d + 4 \<le> x" "x < w1 + k + d \<or> w1 + k + d + 4 \<le> x"
          "w2 + d \<le> x \<and> x < w2 + d + 4"
    | (D) "x < w2 + k + d \<or> w2 + k + d + 4 \<le> x" "x < w1 + k + d \<or> w1 + k + d + 4 \<le> x"
          "x < w2 + d \<or> w2 + d + 4 \<le> x" "w1 + d \<le> x \<and> x < w1 + d + 4"
    | (E) "x < w2 + k + d \<or> w2 + k + d + 4 \<le> x" "x < w1 + k + d \<or> w1 + k + d + 4 \<le> x"
          "x < w2 + d \<or> w2 + d + 4 \<le> x" "x < w1 + d \<or> w1 + d + 4 \<le> x"
    by linarith
  then show "wTx_update_body k w1 w2 (mm_set1_ps eta) (mm_set1_ps lambda) (mm_set1_ps kappav) d
               (pair_update_spec k w1 w2 eta lambda kappav d W0) x =
             pair_update_spec k w1 w2 eta lambda kappav (d + 4) W0 x"
  proof cases
    case A then show ?thesis by (rule update_body_step_A[OF na d])
  next
    case B then show ?thesis by (rule update_body_step_B[OF na d])
  next
    case C then show ?thesis by (rule update_body_step_C[OF na d])
  next
    case D then show ?thesis by (rule update_body_step_D[OF na d])
  next
    case E then show ?thesis by (rule update_body_step_E)
  qed
qed

lemma update_loop_spec_aux:
  shows "0 \<le> d \<Longrightarrow> d \<le> k \<Longrightarrow> 4 dvd (k - d) \<Longrightarrow>
         W = pair_update_spec k w1 w2 eta lambda kappav d W0 \<Longrightarrow>
         w1 = w2 \<or> 2 * k \<le> \<bar>w1 - w2\<bar> \<Longrightarrow>
         wTx_update_loop k w1 w2 (mm_set1_ps eta) (mm_set1_ps lambda) (mm_set1_ps kappav) d W =
         pair_update_spec k w1 w2 eta lambda kappav k W0"
proof (induction k w1 w2 "mm_set1_ps eta" "mm_set1_ps lambda" "mm_set1_ps kappav" d W
        rule: wTx_update_loop.induct)
  case (1 k w1 w2 d W)
  show ?case
  proof (cases "d < k")
    case True
    with "1.prems" have le: "d + 4 \<le> k" and dv: "4 dvd (k - (d + 4))" by presburger+
    have st: "wTx_update_body k w1 w2 (mm_set1_ps eta) (mm_set1_ps lambda) (mm_set1_ps kappav) d W =
              pair_update_spec k w1 w2 eta lambda kappav (d + 4) W0"
      using update_body_step[OF "1.prems"(5) "1.prems"(1) le] "1.prems"(4) by simp
    have "wTx_update_loop k w1 w2 (mm_set1_ps eta) (mm_set1_ps lambda) (mm_set1_ps kappav) (d + 4)
            (wTx_update_body k w1 w2 (mm_set1_ps eta) (mm_set1_ps lambda) (mm_set1_ps kappav) d W) =
          pair_update_spec k w1 w2 eta lambda kappav k W0"
      using "1.hyps"[OF True _ le dv st "1.prems"(5)] "1.prems"(1) by simp
    then show ?thesis using True by (subst wTx_update_loop.simps) simp
  next
    case False
    with "1.prems" have "d = k" by simp
    then show ?thesis using "1.prems"(4) by (subst wTx_update_loop.simps) simp
  qed
qed

lemma spec_zero: "c \<le> 0 \<Longrightarrow> pair_update_spec k w1 w2 eta lambda kappav c W0 = W0"
  by (auto simp: pair_update_spec_def)

lemma update_loop_spec:
  assumes "w1 = w2 \<or> 2 * k \<le> \<bar>w1 - w2\<bar>" "4 dvd k"
  shows "wTx_update_loop k w1 w2 (mm_set1_ps eta) (mm_set1_ps lambda) (mm_set1_ps kappav) 0 W =
         pair_update_spec k w1 w2 eta lambda kappav k W"
proof (cases "0 \<le> k")
  case True
  show ?thesis
    using update_loop_spec_aux[of 0 k W w1 w2 eta lambda kappav W] True assms
    by (simp add: spec_zero)
next
  case False
  then show ?thesis by (subst wTx_update_loop.simps) (simp add: spec_zero)
qed

section \<open>The kernel in update mode\<close>

lemma offsets_noalias:
  "embedding_offset model a b = embedding_offset model c d \<or>
   2 * model_k model \<le> \<bar>embedding_offset model a b - embedding_offset model c d\<bar>"
proof -
  define K where "K = 2 * model_k model"
  define q where "q = a * model_m model + b - (c * model_m model + d)"
  have e: "embedding_offset model a b - embedding_offset model c d = q * K"
    by (simp add: embedding_offset_def K_def q_def algebra_simps)
  show ?thesis
  proof (cases "q = 0")
    case True
    then show ?thesis using e by simp
  next
    case False
    then have "1 \<le> \<bar>q\<bar>" by arith
    then have "1 * \<bar>K\<bar> \<le> \<bar>q\<bar> * \<bar>K\<bar>" by (intro mult_right_mono) simp_all
    then have "K \<le> \<bar>q * K\<bar>" by (simp add: abs_mult)
    then show ?thesis using e by (simp add: K_def)
  qed
qed

lemma pair_update_fields [simp]:
  "model_n (pair_update r kappa eta lambda p model) = model_n model"
  "model_m (pair_update r kappa eta lambda p model) = model_m model"
  "model_k (pair_update r kappa eta lambda p model) = model_k model"
  "model_normalization (pair_update r kappa eta lambda p model) = model_normalization model"
  by (simp_all add: pair_update_def)

lemma wTx_pair_update:
  assumes "4 dvd model_k model"
  shows "wTx_pair (model_k model * 2) (model_m model * (model_k model * 2)) r
           (mm_set1_ps kappa) (mm_set1_ps eta) (mm_set1_ps lambda) True N1 N2 (model, XMMt) =
         (pair_update r kappa eta lambda (N1, N2) model, XMMt)"
proof -
  have w1: "node_j N1 * (model_m model * (model_k model * 2)) + node_f N2 * (model_k model * 2) =
            embedding_offset model (node_j N1) (node_f N2)"
    and w2: "node_j N2 * (model_m model * (model_k model * 2)) + node_f N1 * (model_k model * 2) =
            embedding_offset model (node_j N2) (node_f N1)"
    by (simp_all add: embedding_offset_def algebra_simps)
  show ?thesis
    by (simp add: wTx_pair_def Let_def w1 w2 mul_set1 pair_update_def
          update_loop_spec[OF offsets_noalias assms])
qed

lemma valid_pair_pair_update [simp]:
  "valid_pair (pair_update r kappa eta lambda p model) q = valid_pair model q"
  by (simp add: valid_pair_def in_bounds_def)

lemma fold_pair_update_fields [simp]:
  "model_n (fold (pair_update r kappa eta lambda) ps model) = model_n model"
  "model_m (fold (pair_update r kappa eta lambda) ps model) = model_m model"
  "model_k (fold (pair_update r kappa eta lambda) ps model) = model_k model"
  "model_normalization (fold (pair_update r kappa eta lambda) ps model) = model_normalization model"
  by (induction ps arbitrary: model) simp_all

lemma wTx_inner_update:
  assumes "4 dvd model_k model" "in_bounds model N1"
  shows "wTx_inner (model_k model * 2) (model_m model * (model_k model * 2)) r
           (mm_set1_ps kappa) (mm_set1_ps eta) (mm_set1_ps lambda) True N1 rest (model, XMMt) =
         (fold (pair_update r kappa eta lambda)
            (filter (valid_pair model) (map (Pair N1) rest)) model, XMMt)"
  using assms
proof (induction rest arbitrary: model)
  case Nil
  then show ?case by simp
next
  case (Cons N2 rest)
  show ?case
  proof (cases "valid_pair model (N1, N2)")
    case True
    then have c: "\<not> (node_j N2 \<ge> model_n model \<or> node_f N2 \<ge> model_m model \<or> node_f N1 = node_f N2)"
      by (auto simp: valid_pair_def in_bounds_def)
    let ?M = "pair_update r kappa eta lambda (N1, N2) model"
    have k: "4 dvd model_k ?M" "in_bounds ?M N1"
      using Cons.prems by (simp_all add: in_bounds_def)
    have vp: "valid_pair ?M = valid_pair model" by (rule ext) simp
    show ?thesis
      using c True wTx_pair_update[OF Cons.prems(1)] Cons.IH[OF k] by (simp add: vp)
  next
    case False
    then have c: "node_j N2 \<ge> model_n model \<or> node_f N2 \<ge> model_m model \<or> node_f N1 = node_f N2"
      using Cons.prems(2) by (auto simp: valid_pair_def in_bounds_def)
    show ?thesis using c False Cons.IH[OF Cons.prems] by simp
  qed
qed

lemma valid_pair_fold [simp]:
  "valid_pair (fold (pair_update r kappa eta lambda) ps model) = valid_pair model"
  by (rule ext) (simp add: valid_pair_def in_bounds_def)

lemma valid_pairs_fold [simp]:
  "valid_pairs (fold (pair_update r kappa eta lambda) ps model) nodes = valid_pairs model nodes"
  by (simp add: valid_pairs_def)

lemma wTx_outer_update:
  assumes "4 dvd model_k model"
  shows "wTx_outer (model_k model * 2) (model_m model * (model_k model * 2)) r
           (mm_set1_ps kappa) (mm_set1_ps eta) (mm_set1_ps lambda) True nodes (model, XMMt) =
         (fold (pair_update r kappa eta lambda) (valid_pairs model nodes) model, XMMt)"
  using assms
proof (induction nodes arbitrary: model)
  case Nil
  then show ?case by (simp add: valid_pairs_def)
next
  case (Cons N1 rest)
  show ?case
  proof (cases "in_bounds model N1")
    case True
    then have c: "\<not> (node_j N1 \<ge> model_n model \<or> node_f N1 \<ge> model_m model)"
      by (auto simp: in_bounds_def)
    let ?M = "fold (pair_update r kappa eta lambda) (filter (valid_pair model) (map (Pair N1) rest)) model"
    have k: "4 dvd model_k ?M" using Cons.prems by simp
    have "wTx_outer (model_k model * 2) (model_m model * (model_k model * 2)) r
           (mm_set1_ps kappa) (mm_set1_ps eta) (mm_set1_ps lambda) True (N1 # rest) (model, XMMt) =
          wTx_outer (model_k model * 2) (model_m model * (model_k model * 2)) r
           (mm_set1_ps kappa) (mm_set1_ps eta) (mm_set1_ps lambda) True rest (?M, XMMt)"
      using c wTx_inner_update[OF Cons.prems True] by simp
    also have "\<dots> = (fold (pair_update r kappa eta lambda) (valid_pairs ?M rest) ?M, XMMt)"
      using Cons.IH[OF k] by simp
    also have "\<dots> = (fold (pair_update r kappa eta lambda) (valid_pairs model (N1 # rest)) model, XMMt)"
      by (simp add: valid_pairs_def)
    finally show ?thesis .
  next
    case False
    then have c: "node_j N1 \<ge> model_n model \<or> node_f N1 \<ge> model_m model"
      by (auto simp: in_bounds_def)
    show ?thesis using c Cons.IH[OF Cons.prems] filter_valid_not_in_bounds[OF False]
      by (simp add: valid_pairs_def)
  qed
qed

lemma wTx_update_eq:
  assumes "4 dvd model_k model"
  shows "wTx nodes r model kappa eta lambda True = (0, update_spec model r kappa eta lambda nodes)"
  using wTx_outer_update[OF assms]
  by (simp add: wTx_def Let_def update_spec_def)

section \<open>What an update leaves alone, and what it writes\<close>

lemma pair_update_spec_outside:
  assumes "x < w1 \<or> w1 + 2 * k \<le> x" "x < w2 \<or> w2 + 2 * k \<le> x"
  shows "pair_update_spec k w1 w2 eta lambda kappav k W x = W x"
  using assms by (auto simp: pair_update_spec_def)

lemma pair_slots_pair_update [simp]:
  "pair_slots (pair_update r kappa eta lambda p model) q = pair_slots model q"
  by (rule ext) (simp add: pair_slots_def embedding_offset_def)

lemma fold_pair_update_outside:
  "\<not> list_ex (\<lambda>p. pair_slots model p x) ps \<Longrightarrow>
   model_W (fold (pair_update r kappa eta lambda) ps model) x = model_W model x"
proof (induction ps arbitrary: model)
  case Nil
  then show ?case by simp
next
  case (Cons p ps)
  from Cons.prems have a: "\<not> pair_slots model p x" and b: "\<not> list_ex (\<lambda>q. pair_slots model q x) ps"
    by simp_all
  have "model_W (pair_update r kappa eta lambda p model) x = model_W model x"
  proof -
    let ?w1 = "embedding_offset model (node_j (fst p)) (node_f (snd p))"
    let ?w2 = "embedding_offset model (node_j (snd p)) (node_f (fst p))"
    have "x < ?w1 \<or> ?w1 + 2 * model_k model \<le> x" "x < ?w2 \<or> ?w2 + 2 * model_k model \<le> x"
      using a by (auto simp: pair_slots_def Let_def)
    then show ?thesis by (simp add: pair_update_def pair_update_spec_outside)
  qed
  moreover have "model_W (fold (pair_update r kappa eta lambda) ps (pair_update r kappa eta lambda p model)) x
        = model_W (pair_update r kappa eta lambda p model) x"
    using Cons.IH[of "pair_update r kappa eta lambda p model"] b by simp
  ultimately show ?case by simp
qed

lemma pair_update_spec_at:
  assumes na: "w1 = w2 \<or> 2 * k \<le> \<bar>w1 - w2\<bar>" and d: "0 \<le> d" "d < k"
  shows "pair_update_spec k w1 w2 eta lambda kappav k W (w1 + k + d) =
           W (w1 + k + d) + (grad W lambda kappav w1 w2 d)\<^sup>2"
    and "pair_update_spec k w1 w2 eta lambda kappav k W (w2 + k + d) =
           W (w2 + k + d) + (grad W lambda kappav w2 w1 d)\<^sup>2"
    and "pair_update_spec k w1 w2 eta lambda kappav k W (w1 + d) =
           W (w1 + d) - eta * grad W lambda kappav w1 w2 d /
             sqrt (W (w1 + k + d) + (grad W lambda kappav w1 w2 d)\<^sup>2)"
    and "pair_update_spec k w1 w2 eta lambda kappav k W (w2 + d) =
           W (w2 + d) - eta * grad W lambda kappav w2 w1 d /
             sqrt (W (w2 + k + d) + (grad W lambda kappav w2 w1 d)\<^sup>2)"
proof -
  show "pair_update_spec k w1 w2 eta lambda kappav k W (w2 + k + d) =
           W (w2 + k + d) + (grad W lambda kappav w2 w1 d)\<^sup>2"
    using d by (simp add: pair_update_spec_def)
  show "pair_update_spec k w1 w2 eta lambda kappav k W (w1 + k + d) =
           W (w1 + k + d) + (grad W lambda kappav w1 w2 d)\<^sup>2"
  proof (cases "w1 = w2")
    case True
    then show ?thesis using d by (simp add: pair_update_spec_def)
  next
    case False
    then have "2 * k \<le> \<bar>w1 - w2\<bar>" using na by simp
    then have "\<not> (w2 + k \<le> w1 + k + d \<and> w1 + k + d < w2 + k + k)" using d by arith
    then show ?thesis using d by (auto simp add: pair_update_spec_def)
  qed
  show "pair_update_spec k w1 w2 eta lambda kappav k W (w2 + d) =
           W (w2 + d) - eta * grad W lambda kappav w2 w1 d /
             sqrt (W (w2 + k + d) + (grad W lambda kappav w2 w1 d)\<^sup>2)"
  proof (cases "w1 = w2")
    case True
    then show ?thesis using d by (simp add: pair_update_spec_def add.assoc add.commute add.left_commute)
  next
    case False
    then have "2 * k \<le> \<bar>w1 - w2\<bar>" using na by simp
    then have "\<not> (w1 + k \<le> w2 + d \<and> w2 + d < w1 + k + k)" using d by arith
    then show ?thesis using d by (auto simp add: pair_update_spec_def add.assoc add.commute add.left_commute)
  qed
  show "pair_update_spec k w1 w2 eta lambda kappav k W (w1 + d) =
           W (w1 + d) - eta * grad W lambda kappav w1 w2 d /
             sqrt (W (w1 + k + d) + (grad W lambda kappav w1 w2 d)\<^sup>2)"
  proof (cases "w1 = w2")
    case True
    then show ?thesis using d by (simp add: pair_update_spec_def add.assoc add.commute add.left_commute)
  next
    case False
    then have "2 * k \<le> \<bar>w1 - w2\<bar>" using na by simp
    then have "\<not> (w2 + k \<le> w1 + d \<and> w1 + d < w2 + k + k)" "\<not> (w2 \<le> w1 + d \<and> w1 + d < w2 + k)"
      using d by arith+
    then show ?thesis using d by (auto simp add: pair_update_spec_def add.assoc add.commute add.left_commute)
  qed
qed

section \<open>The sum of \<^verbatim>\<open>ffm_predict\<close>\<close>

lemma sum_int_head:
  assumes "d < (k::int)"
  shows "(\<Sum>i = d..<k. g i) = g d + (\<Sum>i = d + 1..<k. (g i :: real))"
proof -
  have "{d..<k} = insert d {d + 1..<k}" using assms by auto
  then show ?thesis by simp
qed

lemma predict_dot_eq:
  "predict_dot k w1 w2 v0 d W t = t + v0 * (\<Sum>i = d..<k. W (w1 + i) * W (w2 + i))"
proof (induction k w1 w2 v0 d W t rule: predict_dot.induct)
  case (1 k w1 w2 v0 d W t)
  show ?case
  proof (cases "d < k")
    case True
    then show ?thesis
      using "1.IH"[OF True]
      by (subst predict_dot.simps) (simp add: sum_int_head[OF True] algebra_simps)
  next
    case False
    then show ?thesis by (subst predict_dot.simps) simp
  qed
qed

lemma predict_inner_eq:
  assumes "in_bounds model N1"
  shows "predict_inner (model_k model) (model_m model * model_k model) r model N1 rest t =
         t + sum_list (map (pair_score_shrunk model r) (filter (valid_pair model) (map (Pair N1) rest)))"
proof (induction rest arbitrary: t)
  case Nil
  then show ?case by simp
next
  case (Cons N2 rest)
  show ?case
  proof (cases "valid_pair model (N1, N2)")
    case True
    then have c: "\<not> (node_j N2 \<ge> model_n model \<or> node_f N2 \<ge> model_m model \<or> node_f N1 = node_f N2)"
      by (auto simp: valid_pair_def in_bounds_def)
    have step: "predict_dot (model_k model)
                  (node_j N1 * (model_m model * model_k model) + node_f N2 * model_k model)
                  (node_j N2 * (model_m model * model_k model) + node_f N1 * model_k model)
                  (2 * node_v N1 * node_v N2 * r) 0 (model_W model) t =
                t + pair_score_shrunk model r (N1, N2)"
      by (simp add: predict_dot_eq pair_score_shrunk_def shrunk_offset_def dot_product_def
            algebra_simps)
    show ?thesis
      using c True by (simp add: Let_def step Cons.IH)
  next
    case False
    then have c: "node_j N2 \<ge> model_n model \<or> node_f N2 \<ge> model_m model \<or> node_f N1 = node_f N2"
      using assms by (auto simp: valid_pair_def in_bounds_def)
    show ?thesis using c False Cons.IH by simp
  qed
qed

lemma predict_outer_eq:
  "predict_outer (model_k model) (model_m model * model_k model) r model nodes t =
   t + predict_sum model r nodes"
proof (induction nodes arbitrary: t)
  case Nil
  then show ?case by (simp add: predict_sum_def valid_pairs_def)
next
  case (Cons N1 rest)
  show ?case
  proof (cases "in_bounds model N1")
    case True
    then have c: "\<not> (node_j N1 \<ge> model_n model \<or> node_f N1 \<ge> model_m model)"
      by (auto simp: in_bounds_def)
    show ?thesis using c by (simp add: predict_inner_eq[OF True] Cons.IH predict_sum_def valid_pairs_def)
  next
    case False
    then have c: "node_j N1 \<ge> model_n model \<or> node_f N1 \<ge> model_m model"
      by (auto simp: in_bounds_def)
    show ?thesis using c Cons.IH filter_valid_not_in_bounds[OF False]
      by (simp add: predict_sum_def valid_pairs_def)
  qed
qed

lemma predict_t_eq: "predict_t nodes model = predict_sum model (predict_scale nodes model) nodes"
  by (simp add: predict_t_def Let_def predict_outer_eq)


lemma sigmoid_inj: "1 / (1 + exp (- a)) = 1 / (1 + exp (- b)) \<longleftrightarrow> a = (b::real)"
proof -
  have "0 < 1 + exp (- a)" "0 < 1 + exp (- b)" by (simp_all add: add_pos_pos)
  then have "1 / (1 + exp (- a)) = 1 / (1 + exp (- b)) \<longleftrightarrow> 1 + exp (- a) = 1 + exp (- b)"
    by (simp add: field_simps)
  then show ?thesis by simp
qed

lemma ffm_predict_eq_iff:
  "ffm_predict nodes model = ffm_predict nodes' model' \<longleftrightarrow>
   predict_t nodes model = predict_t nodes' model'"
  by (simp add: ffm_predict_def sigmoid_inj)

section \<open>Scaling a row\<close>





lemma predict_sum_scale: "predict_sum model r nodes = r * predict_sum model 1 nodes"
proof -
  have "pair_score_shrunk model r = (\<lambda>p. r * pair_score_shrunk model 1 p)"
    by (rule ext) (simp add: pair_score_shrunk_def)
  then show ?thesis by (simp add: predict_sum_def sum_list_const_mult)
qed



lemma dot_product_one: "dot_product W 1 w1 w2 = W w1 * W w2"
  using sum_int_head[of 0 1 "\<lambda>d. W (w1 + d) * W (w2 + d)"] by (simp add: dot_product_def)

lemma sqrt_25: "sqrt 25 = 5"
  using real_sqrt_abs[of 5] by simp

lemma sqrt_169: "sqrt 169 = 13"
  using real_sqrt_abs[of 13] by simp

lemma ex_norm_valid_pairs:
  "valid_pairs ex_norm_model ex_norm_row =
     [(\<lparr>node_f = 0, node_j = 0, node_v = 3\<rparr>, \<lparr>node_f = 1, node_j = 1, node_v = 4\<rparr>)]"
  by (simp add: valid_pairs_def valid_pair_def in_bounds_def ex_norm_model_def ex_norm_row_def)

lemma ex_norm_predict_sum: "predict_sum ex_norm_model 1 ex_norm_row = 24"
  by (simp add: predict_sum_def ex_norm_valid_pairs pair_score_shrunk_def)
     (simp add: ex_norm_model_def dot_product_one)

lemma ex_norm_predict_t: "predict_t ex_norm_row ex_norm_model = 24 / 5"
proof -
  have s: "predict_scale ex_norm_row ex_norm_model = 1 / 5"
    by (simp add: predict_scale_def ex_norm_model_def ex_norm_row_def sqrt_25)
  have "predict_t ex_norm_row ex_norm_model = predict_sum ex_norm_model (1 / 5) ex_norm_row"
    by (simp only: predict_t_eq s)
  also have "\<dots> = 1 / 5 * predict_sum ex_norm_model 1 ex_norm_row"
    by (rule predict_sum_scale)
  finally show ?thesis by (simp add: ex_norm_predict_sum)
qed

section \<open>Nodes out of bounds and rows without a valid pair\<close>

lemma wTx_pair_bounds [simp]:
  "model_n (fst (wTx_pair a0 a1 r Xk Xe Xl u N1 N2 s)) = model_n (fst s)"
  "model_m (fst (wTx_pair a0 a1 r Xk Xe Xl u N1 N2 s)) = model_m (fst s)"
  by (cases s; simp add: wTx_pair_def Let_def)+

lemma wTx_inner_bounds [simp]:
  "model_n (fst (wTx_inner a0 a1 r Xk Xe Xl u N1 rest s)) = model_n (fst s)"
  "model_m (fst (wTx_inner a0 a1 r Xk Xe Xl u N1 rest s)) = model_m (fst s)"
  by (induction rest arbitrary: s; simp)+

lemma in_bounds_cong: "model_n M = model_n M' \<Longrightarrow> model_m M = model_m M' \<Longrightarrow> in_bounds M = in_bounds M'"
  by (rule ext) (simp add: in_bounds_def)

lemma wTx_inner_filter:
  "wTx_inner a0 a1 r Xk Xe Xl u N1 (filter (in_bounds (fst s)) rest) s =
   wTx_inner a0 a1 r Xk Xe Xl u N1 rest s"
proof (induction rest arbitrary: s)
  case Nil
  then show ?case by simp
next
  case (Cons N2 rest)
  show ?case
  proof (cases "in_bounds (fst s) N2")
    case True
    then have c: "\<not> (node_j N2 \<ge> model_n (fst s) \<or> node_f N2 \<ge> model_m (fst s))"
      by (auto simp: in_bounds_def)
    have e: "in_bounds (fst (wTx_pair a0 a1 r Xk Xe Xl u N1 N2 s)) = in_bounds (fst s)"
      by (rule in_bounds_cong) simp_all
    show ?thesis
      using True c Cons.IH[of s] Cons.IH[of "wTx_pair a0 a1 r Xk Xe Xl u N1 N2 s"]
      by (simp add: e)
  next
    case False
    then have c: "node_j N2 \<ge> model_n (fst s) \<or> node_f N2 \<ge> model_m (fst s)"
      by (auto simp: in_bounds_def)
    show ?thesis using False c Cons.IH[of s] by auto
  qed
qed

lemma wTx_outer_filter:
  "wTx_outer a0 a1 r Xk Xe Xl u (filter (in_bounds (fst s)) nodes) s =
   wTx_outer a0 a1 r Xk Xe Xl u nodes s"
proof (induction nodes arbitrary: s)
  case Nil
  then show ?case by simp
next
  case (Cons N1 rest)
  show ?case
  proof (cases "in_bounds (fst s) N1")
    case True
    then have c: "\<not> (node_j N1 \<ge> model_n (fst s) \<or> node_f N1 \<ge> model_m (fst s))"
      by (auto simp: in_bounds_def)
    let ?s' = "wTx_inner a0 a1 r Xk Xe Xl u N1 rest s"
    have e: "in_bounds (fst ?s') = in_bounds (fst s)"
      by (rule in_bounds_cong) simp_all
    show ?thesis
      using True c Cons.IH[of ?s'] by (simp add: wTx_inner_filter e)
  next
    case False
    then have c: "node_j N1 \<ge> model_n (fst s) \<or> node_f N1 \<ge> model_m (fst s)"
      by (auto simp: in_bounds_def)
    show ?thesis using False c Cons.IH[of s] by auto
  qed
qed

lemma wTx_filter:
  "wTx (filter (in_bounds model) nodes) r model kappa eta lambda u =
   wTx nodes r model kappa eta lambda u"
  using wTx_outer_filter[of _ _ _ _ _ _ _ "(model, mm_setzero_ps)" nodes]
  by (simp add: wTx_def Let_def)

lemma wTx_inner_novalid:
  "\<forall>N2\<in>set rest. \<not> valid_pair (fst s) (N1, N2) \<Longrightarrow> in_bounds (fst s) N1 \<Longrightarrow>
   wTx_inner a0 a1 r Xk Xe Xl u N1 rest s = s"
  by (induction rest) (auto simp: valid_pair_def in_bounds_def)

lemma wTx_outer_novalid:
  "\<forall>p\<in>set (ordered_pairs nodes). \<not> valid_pair (fst s) p \<Longrightarrow>
   wTx_outer a0 a1 r Xk Xe Xl u nodes s = s"
proof (induction nodes)
  case Nil
  then show ?case by simp
next
  case (Cons N1 rest)
  from Cons.prems have a: "\<forall>N2\<in>set rest. \<not> valid_pair (fst s) (N1, N2)"
    and b: "\<forall>p\<in>set (ordered_pairs rest). \<not> valid_pair (fst s) p"
    by auto
  show ?case
  proof (cases "in_bounds (fst s) N1")
    case True
    then have c: "\<not> (node_j N1 \<ge> model_n (fst s) \<or> node_f N1 \<ge> model_m (fst s))"
      by (auto simp: in_bounds_def)
    show ?thesis using c wTx_inner_novalid[OF a True] Cons.IH[OF b] by simp
  next
    case False
    then have c: "node_j N1 \<ge> model_n (fst s) \<or> node_f N1 \<ge> model_m (fst s)"
      by (auto simp: in_bounds_def)
    show ?thesis using c Cons.IH[OF b] by auto
  qed
qed

lemma wTx_novalid:
  assumes "\<forall>p\<in>set (ordered_pairs nodes). \<not> valid_pair model p"
  shows "wTx nodes r model kappa eta lambda u = (0, model)"
  using wTx_outer_novalid[of nodes "(model, mm_setzero_ps)"] assms
  by (simp add: wTx_def Let_def mm_setzero_ps_def)

lemma ordered_pairs_filter:
  "ordered_pairs (filter P xs) = filter (\<lambda>p. P (fst p) \<and> P (snd p)) (ordered_pairs xs)"
proof (induction xs)
  case Nil
  then show ?case by simp
next
  case (Cons x xs)
  have "\<not> P x \<Longrightarrow> filter (\<lambda>p. P (fst p) \<and> P (snd p)) (map (Pair x) xs) = []"
    by (induction xs) simp_all
  moreover have "P x \<Longrightarrow> filter (\<lambda>p. P (fst p) \<and> P (snd p)) (map (Pair x) xs) = map (Pair x) (filter P xs)"
    by (induction xs) simp_all
  ultimately show ?case using Cons.IH by simp
qed

lemma valid_pairs_filter:
  "valid_pairs model (filter (in_bounds model) nodes) = valid_pairs model nodes"
proof -
  have "(\<lambda>p. (in_bounds model (fst p) \<and> in_bounds model (snd p)) \<and> valid_pair model p) = valid_pair model"
    by (rule ext) (auto simp: valid_pair_def)
  then show ?thesis by (simp add: valid_pairs_def ordered_pairs_filter)
qed

lemma predict_outer_filter:
  "predict_outer (model_k model) (model_m model * model_k model) r model
     (filter (in_bounds model) nodes) t =
   predict_outer (model_k model) (model_m model * model_k model) r model nodes t"
  by (simp add: predict_outer_eq predict_sum_def valid_pairs_filter)

section \<open>The forward scan of \<^verbatim>\<open>shrink_model\<close>\<close>

text \<open>
  \<^verbatim>\<open>std::copy\<close> from the front is safe when the destination is not after the source.
  The scan over the blocks \<open>lo \<le> b < hi\<close> is \<open>shrink_spec\<close>: a later block reads its
  source at or after \<open>b * 2k\<close>, beyond every slot written so far.
\<close>

lemma std_copy_apply_gen:
  "last0 \<le> d_first \<or> d_first \<le> first0 \<Longrightarrow>
   std_copy first0 last0 d_first W x =
     (if d_first \<le> x \<and> x < d_first + (last0 - first0) then W (first0 + (x - d_first)) else W x)"
proof (induction first0 last0 d_first W rule: std_copy.induct)
  case (1 first0 last0 d_first W)
  show ?case
  proof (cases "first0 < last0")
    case True
    have le: "last0 \<le> d_first + 1 \<or> d_first + 1 \<le> first0 + 1" using "1.prems" by auto
    let ?W1 = "W(d_first := W first0)"
    have "std_copy first0 last0 d_first W x = std_copy (first0 + 1) last0 (d_first + 1) ?W1 x"
      using True by (subst std_copy.simps) simp
    also have "\<dots> = (if d_first + 1 \<le> x \<and> x < d_first + 1 + (last0 - (first0 + 1))
                      then ?W1 (first0 + 1 + (x - (d_first + 1))) else ?W1 x)"
      by (rule "1.IH"[OF True le])
    also have "\<dots> = (if d_first \<le> x \<and> x < d_first + (last0 - first0)
                      then W (first0 + (x - d_first)) else W x)"
      using "1.prems" True by auto
    finally show ?thesis .
  next
    case False
    then show ?thesis by (subst std_copy.simps) simp
  qed
qed

lemma std_copy_apply:
  "d_first \<le> first0 \<Longrightarrow>
   std_copy first0 last0 d_first W x =
     (if d_first \<le> x \<and> x < d_first + (last0 - first0) then W (first0 + (x - d_first)) else W x)"
  by (rule std_copy_apply_gen) simp

lemma block_div_mod:
  assumes "0 < (kn::int)" "b * kn \<le> x" "x < (b + 1) * kn"
  shows "x div kn = b" and "x mod kn = x - b * kn"
proof -
  define d where "d = x - b * kn"
  have d: "0 \<le> d" "d < kn" and x: "x = b * kn + d"
    using assms by (simp_all add: d_def algebra_simps)
  show "x div kn = b" using d assms(1) by (simp add: x)
  show "x mod kn = x - b * kn" using d assms(1) by (simp add: x)
qed

lemma block_div_ge:
  assumes "0 < (kn::int)" "mid * kn \<le> x"
  shows "mid \<le> x div kn"
proof -
  have "mid * kn div kn \<le> x div kn" using assms by (intro zdiv_mono1) simp_all
  then show ?thesis using assms(1) by simp
qed

lemma source_beyond:
  assumes "0 \<le> (kn::int)" "kn \<le> 2 * k" "0 \<le> mid" "mid \<le> q" "0 \<le> r"
  shows "mid * kn \<le> q * k * 2 + r"
proof -
  have "mid * kn \<le> mid * (2 * k)" using assms by (intro mult_left_mono) simp_all
  also have "\<dots> \<le> q * (2 * k)" using assms by (intro mult_right_mono) simp_all
  finally show ?thesis using assms(5) by (simp add: algebra_simps)
qed

lemma shrink_spec_empty: "hi \<le> lo \<Longrightarrow> 0 \<le> k_new \<Longrightarrow> shrink_spec k k_new lo hi W = W"
proof -
  assume a: "hi \<le> lo" "0 \<le> k_new"
  then have "hi * k_new \<le> lo * k_new" by (intro mult_right_mono)
  then show ?thesis by (auto simp: shrink_spec_def)
qed

lemma shrink_spec_compose:
  assumes kn: "0 \<le> k_new" "k_new \<le> 2 * k" and r: "0 \<le> lo" "lo \<le> mid" "mid \<le> hi"
  shows "shrink_spec k k_new mid hi (shrink_spec k k_new lo mid W) = shrink_spec k k_new lo hi W"
proof
  fix x
  have m1: "lo * k_new \<le> mid * k_new" using kn r by (intro mult_right_mono)
  have m2: "mid * k_new \<le> hi * k_new" using kn r by (intro mult_right_mono)
  show "shrink_spec k k_new mid hi (shrink_spec k k_new lo mid W) x = shrink_spec k k_new lo hi W x"
  proof (cases "mid * k_new \<le> x \<and> x < hi * k_new")
    case True
    then have pos: "0 < k_new" using kn(1) m2 by (cases "k_new = 0") auto
    have q: "mid \<le> x div k_new" using block_div_ge[OF pos] True by simp
    have rr: "0 \<le> x mod k_new" using pos by simp
    have "mid * k_new \<le> (x div k_new) * k * 2 + x mod k_new"
      using source_beyond[OF kn _ q rr] r by simp
    then have "shrink_spec k k_new lo mid W ((x div k_new) * k * 2 + x mod k_new) =
               W ((x div k_new) * k * 2 + x mod k_new)"
      by (simp add: shrink_spec_def)
    then show ?thesis using True m1 by (simp add: shrink_spec_def)
  next
    case False
    then show ?thesis using m1 m2 by (auto simp: shrink_spec_def)
  qed
qed

lemma std_copy_block:
  assumes kn: "0 \<le> k_new" "k_new \<le> 2 * k" and b: "0 \<le> b"
  shows "std_copy (b * k * 2) (b * k * 2 + k_new) (b * k_new) W = shrink_spec k k_new b (b + 1) W"
proof
  fix x
  have le: "b * k_new \<le> b * k * 2"
    using mult_left_mono[OF kn(2) b] by (simp add: algebra_simps)
  show "std_copy (b * k * 2) (b * k * 2 + k_new) (b * k_new) W x = shrink_spec k k_new b (b + 1) W x"
  proof (cases "b * k_new \<le> x \<and> x < (b + 1) * k_new")
    case True
    then have pos: "0 < k_new" using kn(1) by (cases "k_new = 0") (auto simp: algebra_simps)
    have dm: "x div k_new = b" "x mod k_new = x - b * k_new"
      using block_div_mod[OF pos] True by simp_all
    have "x < b * k_new + k_new" using True by (simp add: algebra_simps)
    then show ?thesis using True by (simp add: std_copy_apply[OF le] shrink_spec_def dm)
  next
    case False
    then have "\<not> (b * k_new \<le> x \<and> x < b * k_new + k_new)" by (simp add: algebra_simps)
    then show ?thesis using False by (auto simp add: std_copy_apply[OF le] shrink_spec_def)
  qed
qed

text \<open>
  The 32-bit offsets of \<^verbatim>\<open>shrink_model\<close> are the mathematical ones as long as the
  unshrunk buffer up to the block has at most \<open>2\<^sup>3\<^sup>1\<close> slots.
\<close>

lemma ffm_int_wrap_id: "- (2 ^ 31) \<le> x \<Longrightarrow> x < 2 ^ 31 \<Longrightarrow> ffm_int_wrap x = x"
proof -
  assume a: "- (2 ^ 31) \<le> x" "x < 2 ^ 31"
  have "0 \<le> x + 2 ^ 31" "x + 2 ^ 31 < 2 ^ 32" using a by simp_all
  then have "(x + 2 ^ 31) mod 2 ^ 32 = x + 2 ^ 31" by (rule mod_pos_pos_trivial)
  then show ?thesis by (simp add: ffm_int_wrap_def)
qed

lemma shrink_offsets_fit:
  assumes kn: "0 \<le> k_new" "k_new \<le> 2 * k"
    and j: "0 \<le> j0" "0 \<le> m" "0 \<le> f0" "f0 < m"
    and sz: "j0 * m + m \<le> 2 ^ 31" "(j0 * m + m) * k * 2 \<le> 2 ^ 31"
  shows "ffm_int_wrap (ffm_int_wrap (j0 * m) + f0) = j0 * m + f0"
    and "ffm_int_wrap (ffm_int_wrap ((j0 * m + f0) * k) * 2) = (j0 * m + f0) * k * 2"
    and "ffm_int_wrap ((j0 * m + f0) * k_new) = (j0 * m + f0) * k_new"
proof -
  let ?b = "j0 * m + f0"
  have k: "0 \<le> k" using kn by simp
  have jm: "0 \<le> j0 * m" using j by simp
  have b: "0 \<le> ?b" "?b + 1 \<le> j0 * m + m" using j jm by simp_all
  have b31: "?b < 2 ^ 31" using b sz(1) by simp
  have "(?b + 1) * (k * 2) \<le> (j0 * m + m) * (k * 2)"
    using b(2) k by (intro mult_right_mono) simp_all
  then have bk2: "?b * k * 2 + k * 2 \<le> 2 ^ 31" using sz(2) by (simp add: algebra_simps)
  have bk0: "0 \<le> ?b * k" using b(1) k by simp
  have bk2': "?b * k * 2 < 2 ^ 31"
  proof (cases "k = 0")
    case True
    then show ?thesis by simp
  next
    case False
    then have "0 < k * 2" using k by simp
    then show ?thesis using bk2 by linarith
  qed
  have bk: "?b * k < 2 ^ 31" using bk2' bk0 by linarith
  have "?b * k_new \<le> ?b * (2 * k)" using kn(2) b(1) by (intro mult_left_mono)
  then have bkn: "?b * k_new < 2 ^ 31" using bk2' by (simp add: algebra_simps)
  have bkn0: "0 \<le> ?b * k_new" using b(1) kn(1) by simp
  have neg: "- (2 ^ 31) \<le> (0::int)" by simp
  have jmlo: "- (2 ^ 31) \<le> j0 * m" using neg jm by (rule order_trans)
  have jmhi: "j0 * m < 2 ^ 31" using b31 j(3) by linarith
  have w1: "ffm_int_wrap (j0 * m) = j0 * m"
    by (rule ffm_int_wrap_id[OF jmlo jmhi])
  have blo: "- (2 ^ 31) \<le> ?b" using neg b(1) by (rule order_trans)
  show "ffm_int_wrap (ffm_int_wrap (j0 * m) + f0) = ?b"
    by (simp only: w1) (rule ffm_int_wrap_id[OF blo b31])
  have bklo: "- (2 ^ 31) \<le> ?b * k" using neg bk0 by (rule order_trans)
  have w2: "ffm_int_wrap (?b * k) = ?b * k"
    by (rule ffm_int_wrap_id[OF bklo bk])
  have "0 \<le> ?b * k * 2" using bk0 by simp
  with neg have bk2lo: "- (2 ^ 31) \<le> ?b * k * 2" by (rule order_trans)
  show "ffm_int_wrap (ffm_int_wrap (?b * k) * 2) = ?b * k * 2"
    by (simp only: w2) (rule ffm_int_wrap_id[OF bk2lo bk2'])
  have bknlo: "- (2 ^ 31) \<le> ?b * k_new" using neg bkn0 by (rule order_trans)
  show "ffm_int_wrap (?b * k_new) = ?b * k_new"
    by (rule ffm_int_wrap_id[OF bknlo bkn])
qed

lemma shrink_f_loop_eq:
  "0 \<le> k_new \<Longrightarrow> k_new \<le> 2 * k \<Longrightarrow> 0 \<le> j0 \<Longrightarrow> 0 \<le> m \<Longrightarrow> 0 \<le> f0 \<Longrightarrow> f0 \<le> m \<Longrightarrow>
   j0 * m + m \<le> 2 ^ 31 \<Longrightarrow> (j0 * m + m) * k * 2 \<le> 2 ^ 31 \<Longrightarrow>
   shrink_f_loop m k k_new j0 f0 W = shrink_spec k k_new (j0 * m + f0) (j0 * m + m) W"
proof (induction m k k_new j0 f0 W rule: shrink_f_loop.induct)
  case (1 m k k_new j0 f0 W)
  have b0: "0 \<le> j0 * m + f0" using "1.prems" by simp
  show ?case
  proof (cases "f0 < m")
    case True
    let ?b = "j0 * m + f0"
    let ?W1 = "std_copy (?b * k * 2) (?b * k * 2 + k_new) (?b * k_new) W"
    note fit = shrink_offsets_fit[OF "1.prems"(1,2,3,4,5) True "1.prems"(7,8)]
    have W1: "?W1 = shrink_spec k k_new ?b (?b + 1) W"
      using std_copy_block[OF "1.prems"(1,2) b0] .
    have unf: "shrink_f_loop m k k_new j0 f0 W = shrink_f_loop m k k_new j0 (f0 + 1) ?W1"
      using True by (subst shrink_f_loop.simps) (simp add: Let_def fit)
    have "shrink_f_loop m k k_new j0 (f0 + 1) ?W1 =
          shrink_spec k k_new (j0 * m + (f0 + 1)) (j0 * m + m) ?W1"
      using "1.IH"[OF True refl refl refl "1.prems"(1,2,3,4) _ _ "1.prems"(7,8), simplified fit]
        "1.prems"(5) True by simp
    also have "\<dots> = shrink_spec k k_new (?b + 1) (j0 * m + m) (shrink_spec k k_new ?b (?b + 1) W)"
      by (simp add: W1 add.assoc)
    also have "\<dots> = shrink_spec k k_new ?b (j0 * m + m) W"
      using "1.prems" True b0 by (intro shrink_spec_compose) simp_all
    finally show ?thesis using unf by simp
  next
    case False
    with "1.prems" have "f0 = m" by simp
    then show ?thesis using "1.prems"(1) by (subst shrink_f_loop.simps) (simp add: shrink_spec_empty)
  qed
qed

text \<open>
  The scan from the index \<open>j0\<close> is the scan from a later index \<open>j1\<close> on the buffer in
  which the blocks between them are compacted, as long as the offsets of these blocks fit.
\<close>

lemma shrink_j_loop_prefix:
  "0 \<le> k_new \<Longrightarrow> k_new \<le> 2 * k \<Longrightarrow> 0 \<le> m \<Longrightarrow> 0 \<le> j0 \<Longrightarrow> j0 \<le> j1 \<Longrightarrow> j1 \<le> n \<Longrightarrow>
   j1 * m \<le> 2 ^ 31 \<Longrightarrow> j1 * m * k * 2 \<le> 2 ^ 31 \<Longrightarrow>
   shrink_j_loop n m k k_new j0 W =
     shrink_j_loop n m k k_new j1 (shrink_spec k k_new (j0 * m) (j1 * m) W)"
proof (induction n m k k_new j0 W rule: shrink_j_loop.induct)
  case (1 n m k k_new j0 W)
  have k: "0 \<le> k" using "1.prems" by simp
  show ?case
  proof (cases "j0 < j1")
    case True
    then have lt: "j0 < n" using "1.prems" by simp
    have jm: "0 \<le> j0 * m" using "1.prems" by simp
    have nm: "(j0 + 1) * m \<le> j1 * m" using True "1.prems"(3) by (intro mult_right_mono) simp_all
    then have s1: "j0 * m + m \<le> 2 ^ 31" using "1.prems"(7) by (simp add: algebra_simps)
    have "(j0 + 1) * m * (k * 2) \<le> j1 * m * (k * 2)"
      using mult_right_mono[OF nm, of "k * 2"] k by simp
    then have s2: "(j0 * m + m) * k * 2 \<le> 2 ^ 31" using "1.prems"(8) by (simp add: algebra_simps)
    have f: "shrink_f_loop m k k_new j0 0 W = shrink_spec k k_new (j0 * m) (j0 * m + m) W"
      using shrink_f_loop_eq[OF "1.prems"(1,2,4,3) _ _ s1 s2, of 0 W] "1.prems"(3) by simp
    have "shrink_j_loop n m k k_new (j0 + 1) (shrink_f_loop m k k_new j0 0 W) =
          shrink_j_loop n m k k_new j1
            (shrink_spec k k_new ((j0 + 1) * m) (j1 * m) (shrink_f_loop m k k_new j0 0 W))"
      using "1.IH"[OF lt "1.prems"(1,2,3) _ _ "1.prems"(6,7,8)] "1.prems"(4) True by simp
    also have "shrink_spec k k_new ((j0 + 1) * m) (j1 * m) (shrink_f_loop m k k_new j0 0 W) =
               shrink_spec k k_new (j0 * m + m) (j1 * m) (shrink_spec k k_new (j0 * m) (j0 * m + m) W)"
      by (simp add: f algebra_simps)
    also have "\<dots> = shrink_spec k k_new (j0 * m) (j1 * m) W"
      using "1.prems" jm nm by (intro shrink_spec_compose) (simp_all add: algebra_simps)
    finally show ?thesis using lt by (subst shrink_j_loop.simps) simp
  next
    case False
    with "1.prems" have "j0 = j1" by simp
    then show ?thesis using "1.prems"(1) by (simp add: shrink_spec_empty)
  qed
qed

lemma shrink_j_loop_eq:
  "0 \<le> k_new \<Longrightarrow> k_new \<le> 2 * k \<Longrightarrow> 0 \<le> m \<Longrightarrow> 0 \<le> j0 \<Longrightarrow> j0 \<le> n \<Longrightarrow>
   n * m \<le> 2 ^ 31 \<Longrightarrow> n * m * k * 2 \<le> 2 ^ 31 \<Longrightarrow>
   shrink_j_loop n m k k_new j0 W = shrink_spec k k_new (j0 * m) (n * m) W"
proof -
  assume a: "0 \<le> k_new" "k_new \<le> 2 * k" "0 \<le> m" "0 \<le> j0" "j0 \<le> n"
    "n * m \<le> 2 ^ 31" "n * m * k * 2 \<le> 2 ^ 31"
  have "shrink_j_loop n m k k_new j0 W =
        shrink_j_loop n m k k_new n (shrink_spec k k_new (j0 * m) (n * m) W)"
    using a by (intro shrink_j_loop_prefix) simp_all
  then show ?thesis by (subst (asm) (2) shrink_j_loop.simps) simp
qed

lemma shrink_j_loop_no_fields:
  "m \<le> 0 \<Longrightarrow> shrink_j_loop n m k k_new j0 W = W"
proof (induction n m k k_new j0 W rule: shrink_j_loop.induct)
  case (1 n m k k_new j0 W)
  have f: "shrink_f_loop m k k_new j0 0 W = W"
    using "1.prems" by (subst shrink_f_loop.simps) simp
  show ?case
  proof (cases "j0 < n")
    case True
    then show ?thesis using "1.IH"[OF True "1.prems"] f by (subst shrink_j_loop.simps) simp
  next
    case False
    then show ?thesis by (subst shrink_j_loop.simps) simp
  qed
qed

lemma block_index_bound:
  assumes "0 \<le> j" "j < n" "0 \<le> f0" "f0 < (m::int)"
  shows "0 \<le> j * m + f0" and "j * m + f0 + 1 \<le> n * m"
proof -
  have m: "0 \<le> m" using assms by simp
  show "0 \<le> j * m + f0" using assms m by simp
  have "(j + 1) * m \<le> n * m" using assms m by (intro mult_right_mono) simp_all
  then show "j * m + f0 + 1 \<le> n * m" using assms by (simp add: algebra_simps)
qed

section \<open>The fill loops of \<^verbatim>\<open>init_model\<close>\<close>

lemma init_const_loop_eq:
  "d \<le> hi \<Longrightarrow>
   init_const_loop c0 d hi (W, w, c) =
     ((\<lambda>x. if w \<le> x \<and> x < w + (hi - d) then c0 else W x), w + (hi - d), c)"
proof (induction c0 d hi "(W, w, c)" arbitrary: W w rule: init_const_loop.induct)
  case (1 c0 d hi)
  show ?case
  proof (cases "d < hi")
    case True
    have "init_const_loop c0 d hi (W, w, c) = init_const_loop c0 (d + 1) hi (W(w := c0), w + 1, c)"
      using True by (subst init_const_loop.simps) simp
    also have "\<dots> = ((\<lambda>x. if w + 1 \<le> x \<and> x < w + 1 + (hi - (d + 1)) then c0 else (W(w := c0)) x),
                       w + 1 + (hi - (d + 1)), c)"
      using True by (intro "1.hyps") simp_all
    also have "\<dots> = ((\<lambda>x. if w \<le> x \<and> x < w + (hi - d) then c0 else W x), w + (hi - d), c)"
      using True by (auto simp: fun_eq_iff)
    finally show ?thesis .
  next
    case False
    with "1.prems" have "d = hi" by simp
    then show ?thesis by (subst init_const_loop.simps) (auto simp: fun_eq_iff)
  qed
qed

lemma init_rand_loop_eq:
  "d \<le> hi \<Longrightarrow>
   init_rand_loop drand48 coef d hi (W, w, c) =
     ((\<lambda>x. if w \<le> x \<and> x < w + (hi - d) then coef * drand48 (c + nat (x - w)) else W x),
      w + (hi - d), c + nat (hi - d))"
proof (induction drand48 coef d hi "(W, w, c)" arbitrary: W w c rule: init_rand_loop.induct)
  case (1 drand48 coef d hi)
  show ?case
  proof (cases "d < hi")
    case True
    let ?W1 = "W(w := coef * drand48 c)"
    have "init_rand_loop drand48 coef d hi (W, w, c) =
          init_rand_loop drand48 coef (d + 1) hi (?W1, w + 1, Suc c)"
      using True by (subst init_rand_loop.simps) simp
    also have "\<dots> = ((\<lambda>x. if w + 1 \<le> x \<and> x < w + 1 + (hi - (d + 1))
                            then coef * drand48 (Suc c + nat (x - (w + 1))) else ?W1 x),
                       w + 1 + (hi - (d + 1)), Suc c + nat (hi - (d + 1)))"
      using True by (intro "1.hyps") simp_all
    also have "\<dots> = ((\<lambda>x. if w \<le> x \<and> x < w + (hi - d) then coef * drand48 (c + nat (x - w)) else W x),
                       w + (hi - d), c + nat (hi - d))"
    proof -
      have a: "Suc c + nat (hi - (d + 1)) = c + nat (hi - d)" using True by simp
      have b: "\<And>x. w + 1 \<le> x \<Longrightarrow> Suc (c + nat (x - (w + 1))) = c + nat (x - w)" by arith
      show ?thesis using True by (auto simp: fun_eq_iff a b)
    qed
    finally show ?thesis .
  next
    case False
    with "1.prems" have "d = hi" by simp
    then show ?thesis by (subst init_rand_loop.simps) (auto simp: fun_eq_iff)
  qed
qed

lemma init_block_eq:
  assumes "0 \<le> k" "k \<le> ka"
  shows "init_block drand48 coef k ka (W, w, c) =
     ((\<lambda>x. if w + ka \<le> x \<and> x < w + 2 * ka then 1
           else if w + k \<le> x \<and> x < w + ka then 0
           else if w \<le> x \<and> x < w + k then coef * drand48 (c + nat (x - w))
           else W x),
      w + 2 * ka, c + nat k)"
proof -
  have ka: "0 \<le> ka" "ka \<le> 2 * ka" using assms by simp_all
  show ?thesis
    using assms
    by (simp add: init_block_def init_rand_loop_eq[OF assms(1)] init_const_loop_eq[OF assms(2)]
          init_const_loop_eq[OF ka(2)])
       (auto simp: fun_eq_iff)
qed

lemma fills_block:
  assumes "0 \<le> k" "k \<le> ka"
  shows "fills k ka 1 s (init_block drand48 coef k ka s)"
proof -
  obtain W w c where s: "s = (W, w, c)" by (cases s) auto
  have pad: "fst (init_block drand48 coef k ka s) (fst (snd s) + i * (2 * ka) + d) = 0"
    if "0 \<le> i \<and> i < 1 \<and> k \<le> d \<and> d < ka" for i d
  proof -
    from that have i: "i = 0" by simp
    show ?thesis using that assms by (simp add: i s init_block_eq[OF assms])
  qed
  have acc: "fst (init_block drand48 coef k ka s) (fst (snd s) + i * (2 * ka) + d) = 1"
    if "0 \<le> i \<and> i < 1 \<and> ka \<le> d \<and> d < 2 * ka" for i d
  proof -
    from that have i: "i = 0" by simp
    show ?thesis using that assms by (simp add: i s init_block_eq[OF assms])
  qed
  have "fst (snd (init_block drand48 coef k ka s)) = fst (snd s) + 1 * (2 * ka)"
    by (simp add: s init_block_eq[OF assms])
  moreover have "\<forall>x. x < fst (snd s) \<longrightarrow> fst (init_block drand48 coef k ka s) x = fst s x"
    using assms by (simp add: s init_block_eq[OF assms])
  ultimately show ?thesis using pad acc by (simp add: fills_def)
qed

lemma fills_zero: "fills k ka 0 s s"
  by (simp add: fills_def)

lemma fills_compose:
  assumes a: "fills k ka c1 s s1" and b: "fills k ka c2 s1 s2"
    and nn: "0 \<le> c1" "0 \<le> ka" "0 \<le> k"
  shows "fills k ka (c1 + c2) s s2"
proof -
  let ?w = "fst (snd s)"
  have w1: "fst (snd s1) = ?w + c1 * (2 * ka)" using a by (simp add: fills_def)
  have le: "?w \<le> fst (snd s1)" using w1 nn by simp
  have cur: "fst (snd s2) = ?w + (c1 + c2) * (2 * ka)"
    using b w1 by (simp add: fills_def algebra_simps)
  have low: "\<forall>x. x < ?w \<longrightarrow> fst s2 x = fst s x"
  proof (intro allI impI)
    fix x assume x: "x < ?w"
    then have "fst s2 x = fst s1 x" using b le by (simp add: fills_def)
    then show "fst s2 x = fst s x" using a x by (simp add: fills_def)
  qed
  have slot: "fst s2 (?w + i * (2 * ka) + d) = v"
    if h: "0 \<le> i" "i < c1 + c2" "0 \<le> d" "d < 2 * ka"
      and a': "i < c1 \<Longrightarrow> fst s1 (?w + i * (2 * ka) + d) = v"
      and b': "c1 \<le> i \<Longrightarrow> fst s2 (fst (snd s1) + (i - c1) * (2 * ka) + d) = v"
    for i d v
  proof (cases "i < c1")
    case True
    then have "(i + 1) * (2 * ka) \<le> c1 * (2 * ka)" using nn by (intro mult_right_mono) simp_all
    moreover have "(i + 1) * (2 * ka) = i * (2 * ka) + 2 * ka" by (simp add: algebra_simps)
    ultimately have "?w + i * (2 * ka) + d < ?w + c1 * (2 * ka)" using h nn by linarith
    then have "?w + i * (2 * ka) + d < fst (snd s1)" using w1 by simp
    then have "fst s2 (?w + i * (2 * ka) + d) = fst s1 (?w + i * (2 * ka) + d)"
      using b by (simp add: fills_def)
    then show ?thesis using a'[OF True] by simp
  next
    case False
    then have "fst s2 (fst (snd s1) + (i - c1) * (2 * ka) + d) = v" using b' by simp
    moreover have "fst (snd s1) + (i - c1) * (2 * ka) + d = ?w + i * (2 * ka) + d"
      by (simp add: w1 algebra_simps)
    ultimately show ?thesis by simp
  qed
  have pad: "\<forall>i d. 0 \<le> i \<and> i < c1 + c2 \<and> k \<le> d \<and> d < ka \<longrightarrow> fst s2 (?w + i * (2 * ka) + d) = 0"
  proof (intro allI impI)
    fix i d assume h: "0 \<le> i \<and> i < c1 + c2 \<and> k \<le> d \<and> d < ka"
    show "fst s2 (?w + i * (2 * ka) + d) = 0"
    proof (rule slot)
      show "0 \<le> i" "i < c1 + c2" "0 \<le> d" "d < 2 * ka" using h nn(3) by simp_all
      show "fst s1 (?w + i * (2 * ka) + d) = 0" if "i < c1"
        using a h that by (simp add: fills_def)
      show "fst s2 (fst (snd s1) + (i - c1) * (2 * ka) + d) = 0" if "c1 \<le> i"
        using b h that by (simp add: fills_def)
    qed
  qed
  have acc: "\<forall>i d. 0 \<le> i \<and> i < c1 + c2 \<and> ka \<le> d \<and> d < 2 * ka \<longrightarrow>
               fst s2 (?w + i * (2 * ka) + d) = 1"
  proof (intro allI impI)
    fix i d assume h: "0 \<le> i \<and> i < c1 + c2 \<and> ka \<le> d \<and> d < 2 * ka"
    show "fst s2 (?w + i * (2 * ka) + d) = 1"
    proof (rule slot)
      show "0 \<le> i" "i < c1 + c2" "0 \<le> d" "d < 2 * ka" using h nn(2) by simp_all
      show "fst s1 (?w + i * (2 * ka) + d) = 1" if "i < c1"
        using a h that by (simp add: fills_def)
      show "fst s2 (fst (snd s1) + (i - c1) * (2 * ka) + d) = 1" if "c1 \<le> i"
        using b h that by (simp add: fills_def)
    qed
  qed
  show ?thesis using cur low pad acc by (simp add: fills_def)
qed

lemma fills_f_loop:
  "0 \<le> k \<Longrightarrow> k \<le> ka \<Longrightarrow> f0 \<le> m \<Longrightarrow>
   fills k ka (m - f0) s (init_f_loop drand48 coef k ka m f0 s)"
proof (induction drand48 coef k ka m f0 s rule: init_f_loop.induct)
  case (1 drand48 coef k ka m f0 s)
  show ?case
  proof (cases "f0 < m")
    case True
    have a: "fills k ka 1 s (init_block drand48 coef k ka s)"
      using fills_block[OF "1.prems"(1,2)] .
    have b: "fills k ka (m - (f0 + 1)) (init_block drand48 coef k ka s)
               (init_f_loop drand48 coef k ka m (f0 + 1) (init_block drand48 coef k ka s))"
      using "1.IH"[OF True "1.prems"(1,2)] True by simp
    have "fills k ka (1 + (m - (f0 + 1))) s
            (init_f_loop drand48 coef k ka m (f0 + 1) (init_block drand48 coef k ka s))"
      using fills_compose[OF a b] "1.prems" by simp
    then show ?thesis using True by (subst init_f_loop.simps) (simp add: algebra_simps)
  next
    case False
    with "1.prems" have "f0 = m" by simp
    then show ?thesis by (subst init_f_loop.simps) (simp add: fills_zero)
  qed
qed

lemma fills_j_loop:
  "0 \<le> k \<Longrightarrow> k \<le> ka \<Longrightarrow> 0 \<le> m \<Longrightarrow> j0 \<le> n \<Longrightarrow>
   fills k ka ((n - j0) * m) s (init_j_loop drand48 coef k ka n m j0 s)"
proof (induction drand48 coef k ka n m j0 s rule: init_j_loop.induct)
  case (1 drand48 coef k ka n m j0 s)
  show ?case
  proof (cases "j0 < n")
    case True
    let ?s1 = "init_f_loop drand48 coef k ka m 0 s"
    have a: "fills k ka m s ?s1"
      using fills_f_loop[OF "1.prems"(1,2), of 0 m s drand48 coef] "1.prems"(3) by simp
    have b: "fills k ka ((n - (j0 + 1)) * m) ?s1 (init_j_loop drand48 coef k ka n m (j0 + 1) ?s1)"
      using "1.IH"[OF True "1.prems"(1,2,3)] True by simp
    have "fills k ka (m + (n - (j0 + 1)) * m) s (init_j_loop drand48 coef k ka n m (j0 + 1) ?s1)"
      using fills_compose[OF a b] "1.prems" by simp
    moreover have "m + (n - (j0 + 1)) * m = (n - j0) * m" by (simp add: algebra_simps)
    ultimately show ?thesis using True by (subst init_j_loop.simps) simp
  next
    case False
    with "1.prems" have "j0 = n" by simp
    then show ?thesis by (subst init_j_loop.simps) (simp add: fills_zero)
  qed
qed

lemma k_aligned_props:
  fixes k :: int
  defines "ka \<equiv> \<lceil>real_of_int k / real_of_int kALIGN\<rceil> * kALIGN"
  shows "k \<le> ka" and "4 dvd ka"
proof -
  have al: "kALIGN = 4" by (simp add: kALIGN_def kALIGNByte_def)
  have "real_of_int k / 4 \<le> real_of_int \<lceil>real_of_int k / 4\<rceil>" by (rule le_of_int_ceiling)
  then have "real_of_int k \<le> real_of_int \<lceil>real_of_int k / 4\<rceil> * 4" by linarith
  then have "real_of_int k \<le> real_of_int (\<lceil>real_of_int k / 4\<rceil> * 4)" by simp
  then show "k \<le> ka" unfolding ka_def al by (simp only: of_int_le_iff of_int_numeral)
  show "4 dvd ka" unfolding ka_def al by simp
qed

section \<open>The padding coordinates under the kernel over floats\<close>

lemma embedding_offset_block:
  "embedding_offset model j f0 = (j * model_m model + f0) * (2 * model_k model)"
  by (simp add: embedding_offset_def algebra_simps)

lemma init_model_fields:
  assumes "init_model heap drand48 n m param = Inr model"
  shows "model_n model = n" "model_m model = m"
    "model_k model = \<lceil>real_of_int (param_k param) / real_of_int kALIGN\<rceil> * kALIGN"
    "model_normalization model = param_normalization param"
  using assms
  by (auto simp: init_model_def Let_def malloc_aligned_float_def split: option.splits)

text \<open>
  In the model that \<^verbatim>\<open>init_model\<close> builds, the padding coordinates of each of the
  \<open>n * m\<close> blocks hold 0 and their accumulators hold 1.
\<close>

lemma init_model_blocks:
  assumes i: "init_model heap drand48 n m param = Inr model" and k: "0 \<le> param_k param"
    and B: "0 \<le> B" "B < max 0 n * max 0 m" and c: "param_k param \<le> c" "c < model_k model"
  shows "model_W model (B * (2 * model_k model) + c) = 0"
    and "model_W model (B * (2 * model_k model) + model_k model + c) = 1"
proof -
  define ka where "ka = \<lceil>real_of_int (param_k param) / real_of_int kALIGN\<rceil> * kALIGN"
  have kle: "param_k param \<le> ka" unfolding ka_def by (rule k_aligned_props)
  note fl = init_model_fields[OF i]
  have mk: "model_k model = ka" using fl(3) by (simp add: ka_def)
  obtain W0 where W: "model_W model =
      fst (init_j_loop drand48 (0.5 / sqrt (real_of_int (param_k param))) (param_k param) ka n m 0 (W0, 0, 0))"
    using i by (auto simp: init_model_def Let_def malloc_aligned_float_def ka_def split: option.splits)
  have pos: "0 < max 0 n * max 0 m" using B by simp
  have n0: "0 < n"
  proof (rule ccontr)
    assume "\<not> 0 < n" then have "max 0 n = 0" by simp
    then show False using pos by simp
  qed
  have m0: "0 < m"
  proof (rule ccontr)
    assume "\<not> 0 < m" then have "max 0 m = 0" by simp
    then show False using pos by simp
  qed
  have nm: "max 0 n * max 0 m = n * m" using n0 m0 by simp
  have m0': "0 \<le> m" and n0': "0 \<le> n" using m0 n0 by simp_all
  have fi: "fills (param_k param) ka ((n - 0) * m) (W0, 0, 0)
             (init_j_loop drand48 (0.5 / sqrt (real_of_int (param_k param))) (param_k param) ka n m 0 (W0, 0, 0))"
    using fills_j_loop[OF k kle m0', of 0 n] n0' by simp
  have c0: "0 \<le> c" using k c by simp
  have "0 \<le> B \<and> B < (n - 0) * m \<and> param_k param \<le> c \<and> c < ka"
    using B c nm mk by simp
  then have "model_W model (0 + B * (2 * ka) + c) = 0"
    using fi unfolding fills_def W by simp
  then show "model_W model (B * (2 * model_k model) + c) = 0" by (simp add: mk)
  have "0 \<le> B \<and> B < (n - 0) * m \<and> ka \<le> ka + c \<and> ka + c < 2 * ka"
    using B c nm mk c0 by simp
  moreover have "\<forall>i d. 0 \<le> i \<and> i < (n - 0) * m \<and> ka \<le> d \<and> d < 2 * ka \<longrightarrow>
      model_W model (fst (snd (W0, 0::int, 0::nat)) + i * (2 * ka) + d) = 1"
    using fi unfolding fills_def W by blast
  ultimately have "model_W model (fst (snd (W0, 0::int, 0::nat)) + B * (2 * ka) + (ka + c)) = 1"
    by blast
  then show "model_W model (B * (2 * model_k model) + model_k model + c) = 1"
    by (simp add: mk add.assoc)
qed

text \<open>Two slots of blocks of \<open>2 * k\<close> slots: the slot \<open>e\<close> of a block lies in no other block.\<close>

lemma block_same:
  fixes B B' e k x w :: int
  assumes e: "0 \<le> e" "e < 2 * k" and x: "x = B * (2 * k) + e" and w: "w = B' * (2 * k)"
    and r: "w \<le> x" "x < w + 2 * k"
  shows "x - w = e"
proof -
  have k: "0 \<le> 2 * k" using e by simp
  have up: "B' + 1 \<le> B \<Longrightarrow> w + 2 * k \<le> x"
  proof -
    assume "B' + 1 \<le> B"
    then have "(B' + 1) * (2 * k) \<le> B * (2 * k)" using k by (intro mult_right_mono)
    then show ?thesis using e by (simp add: x w algebra_simps)
  qed
  have dn: "B + 1 \<le> B' \<Longrightarrow> x < w"
  proof -
    assume "B + 1 \<le> B'"
    then have "(B + 1) * (2 * k) \<le> B' * (2 * k)" using k by (intro mult_right_mono)
    then show ?thesis using e by (simp add: x w algebra_simps)
  qed
  have eq: "B = B' \<Longrightarrow> x = w + e" by (simp add: x w)
  consider "B + 1 \<le> B'" | "B = B'" | "B' + 1 \<le> B" by linarith
  then show ?thesis using up dn eq r by cases auto
qed

text \<open>Zero and one are floats, and NaN is absorbing.\<close>

lemma FLT_MAX_ge_1: "1 \<le> FLT_MAX"
  by (simp add: FLT_MAX_def)

lemma f_round_0 [simp]: "f_round 0 = Float 0"
  using FLT_MAX_ge_1 by (simp add: f_round_def)

lemma f_round_1 [simp]: "f_round 1 = Float 1"
  using FLT_MAX_ge_1 by (simp add: f_round_def)

lemma f_add_NaN [simp]: "f_add x NaN = NaN"
  by (cases x) simp_all

lemma f_mul_NaN [simp]: "f_mul x NaN = NaN"
  by (cases x) simp_all

lemma f_sub_NaN [simp]: "f_sub x NaN = NaN"
  by (simp add: f_sub_def)

lemma f_add_0_in_range: "f_in_range t \<Longrightarrow> f_add t (Float 0) = t"
  by (cases t) (auto simp: f_round_def)

lemma f_round_in_range [simp]: "f_in_range (f_round x)"
  by (auto simp: f_round_def)

lemma f_add_in_range [simp]: "f_in_range (f_add x y)"
  by (cases x; cases y) simp_all

text \<open>
  The update of a padding coordinate: with finite \<open>eta\<close>, \<open>lambda\<close> and \<open>kappa_v\<close>, two
  weights 0 and the accumulator 1, the gradient is 0, the accumulator stays 1 and the
  weight stays 0.
\<close>

lemma padding_step:
  assumes "f_is_finite eta" "f_is_finite lambda" "f_is_finite kappav"
    and "W (w + c) = Float 0" "W (w' + c) = Float 0" "W (w + k + c) = Float 1"
  shows "acc_f k W lambda kappav w w' c = Float 1"
    and "step_f k W eta lambda kappav w w' c = Float 0"
proof -
  obtain e l kv where v: "eta = Float e" "lambda = Float l" "kappav = Float kv"
    using assms(1,2,3) by (cases eta; cases lambda; cases kappav) simp_all
  have g: "grad_f W lambda kappav w w' c = Float 0"
    by (simp add: grad_f_def assms v)
  show a: "acc_f k W lambda kappav w w' c = Float 1"
    by (simp add: acc_f_def g assms)
  show "step_f k W eta lambda kappav w w' c = Float 0"
    by (simp add: step_f_def a g assms(4) v(1) f_sub_def)
qed

text \<open>Registers lane by lane, and the body of the update loop slot by slot.\<close>

lemma lanef_set1 [simp]: "lanef (mmf_set1_ps a) i = a"
  by (simp add: lanef_def mmf_set1_ps_def)

lemma lanef_add [simp]: "lanef (mmf_add_ps A B) i = f_add (lanef A i) (lanef B i)"
  by (cases A; cases B) (simp add: lanef_def)

lemma lanef_sub [simp]: "lanef (mmf_sub_ps A B) i = f_sub (lanef A i) (lanef B i)"
  by (cases A; cases B) (simp add: lanef_def)

lemma lanef_mul [simp]: "lanef (mmf_mul_ps A B) i = f_mul (lanef A i) (lanef B i)"
  by (cases A; cases B) (simp add: lanef_def)

lemma lanef_rsqrt [simp]: "lanef (mmf_rsqrt_ps A) i = f_rsqrt (lanef A i)"
  by (cases A) (simp add: lanef_def)

lemma lanef_load: "0 \<le> i \<Longrightarrow> i < 4 \<Longrightarrow> lanef (mmf_load_ps W p) i = W (p + i)"
proof -
  assume "0 \<le> i" "i < 4"
  then have "i = 0 \<or> i = 1 \<or> i = 2 \<or> i = 3" by arith
  then show ?thesis by (auto simp: lanef_def mmf_load_ps_def)
qed

lemma storef_apply:
  "mmf_store_ps W p X x = (if p \<le> x \<and> x < p + 4 then lanef X (x - p) else W x)"
proof (cases X)
  case (fields a0 a1 a2 a3)
  have "p \<le> x \<and> x < p + 4 \<longleftrightarrow> x = p \<or> x = p + 1 \<or> x = p + 2 \<or> x = p + 3" by arith
  then show ?thesis by (auto simp: fields lanef_def)
qed

lemma mulf_set1: "mmf_mul_ps (mmf_set1_ps a) (mmf_set1_ps b) = mmf_set1_ps (f_mul a b)"
  by (simp add: mmf_set1_ps_def)

lemma update_body_f_apply:
  "wTx_update_body_f k w1 w2 (mmf_set1_ps eta) (mmf_set1_ps lambda) (mmf_set1_ps kappav) d W x =
     (if w2 + k + d \<le> x \<and> x < w2 + k + d + 4
      then acc_f k W lambda kappav w2 w1 (x - (w2 + k))
      else if w1 + k + d \<le> x \<and> x < w1 + k + d + 4
      then acc_f k W lambda kappav w1 w2 (x - (w1 + k))
      else if w2 + d \<le> x \<and> x < w2 + d + 4
      then step_f k W eta lambda kappav w2 w1 (x - w2)
      else if w1 + d \<le> x \<and> x < w1 + d + 4
      then step_f k W eta lambda kappav w1 w2 (x - w1)
      else W x)"
proof -
  consider (A) "w2 + k + d \<le> x \<and> x < w2 + k + d + 4"
    | (B) "\<not> (w2 + k + d \<le> x \<and> x < w2 + k + d + 4)" "w1 + k + d \<le> x \<and> x < w1 + k + d + 4"
    | (C) "\<not> (w2 + k + d \<le> x \<and> x < w2 + k + d + 4)" "\<not> (w1 + k + d \<le> x \<and> x < w1 + k + d + 4)"
          "w2 + d \<le> x \<and> x < w2 + d + 4"
    | (D) "\<not> (w2 + k + d \<le> x \<and> x < w2 + k + d + 4)" "\<not> (w1 + k + d \<le> x \<and> x < w1 + k + d + 4)"
          "\<not> (w2 + d \<le> x \<and> x < w2 + d + 4)" "w1 + d \<le> x \<and> x < w1 + d + 4"
    | (E) "\<not> (w2 + k + d \<le> x \<and> x < w2 + k + d + 4)" "\<not> (w1 + k + d \<le> x \<and> x < w1 + k + d + 4)"
          "\<not> (w2 + d \<le> x \<and> x < w2 + d + 4)" "\<not> (w1 + d \<le> x \<and> x < w1 + d + 4)"
    by blast
  then show ?thesis
  proof cases
    case A
    define i where "i = x - (w2 + k + d)"
    have i: "0 \<le> i" "i < 4" and x: "x = w2 + k + d + i" using A by (auto simp: i_def)
    show ?thesis
      using i by (simp add: x wTx_update_body_f_def Let_def storef_apply lanef_load acc_f_def
          grad_f_def add.assoc)
  next
    case B
    define i where "i = x - (w1 + k + d)"
    have i: "0 \<le> i" "i < 4" and x: "x = w1 + k + d + i" using B by (auto simp: i_def)
    show ?thesis
      using i B(1) by (auto simp add: x wTx_update_body_f_def Let_def storef_apply lanef_load
          acc_f_def grad_f_def add.assoc)
  next
    case C
    define i where "i = x - (w2 + d)"
    have i: "0 \<le> i" "i < 4" and x: "x = w2 + d + i" using C by (auto simp: i_def)
    show ?thesis
      using i C(1,2) by (auto simp add: x wTx_update_body_f_def Let_def storef_apply lanef_load
          step_f_def acc_f_def grad_f_def ac_simps)
  next
    case D
    define i where "i = x - (w1 + d)"
    have i: "0 \<le> i" "i < 4" and x: "x = w1 + d + i" using D by (auto simp: i_def)
    show ?thesis
      using i D(1,2,3) by (auto simp add: x wTx_update_body_f_def Let_def storef_apply lanef_load
          step_f_def acc_f_def grad_f_def ac_simps)
  next
    case E
    then show ?thesis
      by (auto simp add: wTx_update_body_f_def Let_def storef_apply add.assoc)
  qed
qed


text \<open>
  One step of the update loop keeps the invariant: a padding slot that it writes is
  written with the result of \<open>padding_step\<close>.
\<close>

lemma update_body_f_inv:
  assumes inv: "padding_inv kreq nm k W" and kr: "0 \<le> kreq" and d: "0 \<le> d" "d + 4 \<le> k"
    and b1: "0 \<le> B1" "B1 < nm" and b2: "0 \<le> B2" "B2 < nm"
    and fin: "f_is_finite eta" "f_is_finite lambda" "f_is_finite kappav"
  shows "padding_inv kreq nm k
           (wTx_update_body_f k (B1 * (2 * k)) (B2 * (2 * k)) (mmf_set1_ps eta) (mmf_set1_ps lambda)
              (mmf_set1_ps kappav) d W)"
  unfolding padding_inv_def
proof (intro allI impI)
  fix B c
  let ?w1 = "B1 * (2 * k)"
  let ?w2 = "B2 * (2 * k)"
  let ?W' = "wTx_update_body_f k ?w1 ?w2 (mmf_set1_ps eta) (mmf_set1_ps lambda) (mmf_set1_ps kappav) d W"
  assume "0 \<le> B \<and> B < nm \<and> kreq \<le> c \<and> c < k"
  then have B: "0 \<le> B \<and> B < nm" and c: "kreq \<le> c \<and> c < k" and c0: "0 \<le> c" "c < k"
    using kr by simp_all
  have k0: "0 < k" using c0 by simp
  have iB: "W (B * (2 * k) + c) = Float 0" "W (B * (2 * k) + k + c) = Float 1"
    using inv B c by (simp_all add: padding_inv_def)
  have i1: "W (?w1 + c) = Float 0" "W (?w1 + k + c) = Float 1"
    using inv b1 c by (simp_all add: padding_inv_def)
  have i2: "W (?w2 + c) = Float 0" "W (?w2 + k + c) = Float 1"
    using inv b2 c by (simp_all add: padding_inv_def)
  note p1 = padding_step[OF fin i1(1) i2(1) i1(2)]
  note p2 = padding_step[OF fin i2(1) i1(1) i2(2)]
  let ?x = "B * (2 * k) + c"
  let ?y = "B * (2 * k) + k + c"
  have sx: "?x - w = c" if "w = B' * (2 * k)" "w \<le> ?x" "?x < w + 2 * k" for w B'
    using block_same[of c k ?x B w B'] c0 that by simp
  have sy: "?y - w = k + c" if "w = B' * (2 * k)" "w \<le> ?y" "?y < w + 2 * k" for w B'
    using block_same[of "k + c" k ?y B w B'] c0 that by (simp add: add.assoc)
  have xA: "(?w2 + k + d \<le> ?x \<and> ?x < ?w2 + k + d + 4) = False"
    using sx[of ?w2 B2] d c0 by auto
  have xB: "(?w1 + k + d \<le> ?x \<and> ?x < ?w1 + k + d + 4) = False"
    using sx[of ?w1 B1] d c0 by auto
  have xC: "?w2 + d \<le> ?x \<and> ?x < ?w2 + d + 4 \<Longrightarrow> ?x - ?w2 = c"
    using sx[of ?w2 B2] d by auto
  have xD: "?w1 + d \<le> ?x \<and> ?x < ?w1 + d + 4 \<Longrightarrow> ?x - ?w1 = c"
    using sx[of ?w1 B1] d by auto
  have x: "?W' ?x = Float 0"
  proof (cases "?w2 + d \<le> ?x \<and> ?x < ?w2 + d + 4")
    case True
    then have T: "(?w2 + d \<le> ?x \<and> ?x < ?w2 + d + 4) = True" by simp
    show ?thesis
      by (simp only: update_body_f_apply xA xB T if_True if_False xC[OF True] p2)
  next
    case False
    then have C: "(?w2 + d \<le> ?x \<and> ?x < ?w2 + d + 4) = False" by simp
    show ?thesis
    proof (cases "?w1 + d \<le> ?x \<and> ?x < ?w1 + d + 4")
      case True
      then have T: "(?w1 + d \<le> ?x \<and> ?x < ?w1 + d + 4) = True" by simp
      show ?thesis
        by (simp only: update_body_f_apply xA xB C T if_True if_False xD[OF True] p1)
    next
      case False
      then have D: "(?w1 + d \<le> ?x \<and> ?x < ?w1 + d + 4) = False" by simp
      show ?thesis
        by (simp only: update_body_f_apply xA xB C D if_False iB)
    qed
  qed
  have yC: "(?w2 + d \<le> ?y \<and> ?y < ?w2 + d + 4) = False"
    using sy[of ?w2 B2] d c0 by auto
  have yD: "(?w1 + d \<le> ?y \<and> ?y < ?w1 + d + 4) = False"
    using sy[of ?w1 B1] d c0 by auto
  have yA: "?w2 + k + d \<le> ?y \<and> ?y < ?w2 + k + d + 4 \<Longrightarrow> ?y - (?w2 + k) = c"
    using sy[of ?w2 B2] d c0 by auto
  have yB: "?w1 + k + d \<le> ?y \<and> ?y < ?w1 + k + d + 4 \<Longrightarrow> ?y - (?w1 + k) = c"
    using sy[of ?w1 B1] d c0 by auto
  have y: "?W' ?y = Float 1"
  proof (cases "?w2 + k + d \<le> ?y \<and> ?y < ?w2 + k + d + 4")
    case True
    then have T: "(?w2 + k + d \<le> ?y \<and> ?y < ?w2 + k + d + 4) = True" by simp
    show ?thesis
      by (simp only: update_body_f_apply T if_True yA[OF True] p2)
  next
    case False
    then have A: "(?w2 + k + d \<le> ?y \<and> ?y < ?w2 + k + d + 4) = False" by simp
    show ?thesis
    proof (cases "?w1 + k + d \<le> ?y \<and> ?y < ?w1 + k + d + 4")
      case True
      then have T: "(?w1 + k + d \<le> ?y \<and> ?y < ?w1 + k + d + 4) = True" by simp
      show ?thesis
        by (simp only: update_body_f_apply A T if_True if_False yB[OF True] p1)
    next
      case False
      then have B': "(?w1 + k + d \<le> ?y \<and> ?y < ?w1 + k + d + 4) = False" by simp
      show ?thesis
        by (simp only: update_body_f_apply A B' yC yD if_False iB)
    qed
  qed
  show "?W' ?x = Float 0 \<and> ?W' ?y = Float 1" using x y by simp
qed

lemma update_loop_f_inv:
  assumes kr: "0 \<le> kreq" and k4: "4 dvd k"
    and b1: "0 \<le> B1" "B1 < nm" and b2: "0 \<le> B2" "B2 < nm"
    and fin: "f_is_finite eta" "f_is_finite lambda" "f_is_finite kappav"
  shows "padding_inv kreq nm k W \<Longrightarrow> 4 dvd d \<Longrightarrow> 0 \<le> d \<Longrightarrow>
         padding_inv kreq nm k
           (wTx_update_loop_f k (B1 * (2 * k)) (B2 * (2 * k)) (mmf_set1_ps eta) (mmf_set1_ps lambda)
              (mmf_set1_ps kappav) d W)"
proof (induction "nat (k - d)" arbitrary: d W rule: less_induct)
  case less
  show ?case
  proof (cases "d < k")
    case True
    have "4 dvd (k - d)" using k4 less.prems(2) by (rule dvd_diff)
    then have "4 \<le> k - d" using True by (intro zdvd_imp_le) simp_all
    then have d4: "d + 4 \<le> k" by simp
    let ?W1 = "wTx_update_body_f k (B1 * (2 * k)) (B2 * (2 * k)) (mmf_set1_ps eta)
                 (mmf_set1_ps lambda) (mmf_set1_ps kappav) d W"
    have a: "padding_inv kreq nm k ?W1"
      using update_body_f_inv[OF less.prems(1) kr less.prems(3) d4 b1 b2 fin] .
    have "padding_inv kreq nm k
            (wTx_update_loop_f k (B1 * (2 * k)) (B2 * (2 * k)) (mmf_set1_ps eta) (mmf_set1_ps lambda)
               (mmf_set1_ps kappav) (d + 4) ?W1)"
      using True less.prems by (intro less.hyps a) simp_all
    then show ?thesis using True by (subst wTx_update_loop_f.simps) simp
  next
    case False
    then show ?thesis using less.prems(1) by (subst wTx_update_loop_f.simps) simp
  qed
qed

text \<open>The pair loops keep \<open>n\<close>, \<open>m\<close> and \<open>k\<close>, and in update mode the invariant.\<close>

lemma wTx_pair_f_fields [simp]:
  "modelf_n (fst (wTx_pair_f a0 a1 r K E L u N1 N2 s)) = modelf_n (fst s)"
  "modelf_m (fst (wTx_pair_f a0 a1 r K E L u N1 N2 s)) = modelf_m (fst s)"
  "modelf_k (fst (wTx_pair_f a0 a1 r K E L u N1 N2 s)) = modelf_k (fst s)"
  by (simp_all add: wTx_pair_f_def Let_def split: prod.splits)

lemma wTx_inner_f_fields [simp]:
  "modelf_n (fst (wTx_inner_f a0 a1 r K E L u N1 rest s)) = modelf_n (fst s)"
  "modelf_m (fst (wTx_inner_f a0 a1 r K E L u N1 rest s)) = modelf_m (fst s)"
  "modelf_k (fst (wTx_inner_f a0 a1 r K E L u N1 rest s)) = modelf_k (fst s)"
  by (induction rest arbitrary: s) simp_all

lemma wTx_outer_f_fields [simp]:
  "modelf_n (fst (wTx_outer_f a0 a1 r K E L u nodes s)) = modelf_n (fst s)"
  "modelf_m (fst (wTx_outer_f a0 a1 r K E L u nodes s)) = modelf_m (fst s)"
  "modelf_k (fst (wTx_outer_f a0 a1 r K E L u nodes s)) = modelf_k (fst s)"
  by (induction nodes arbitrary: s) simp_all

lemma block_offset_f_block:
  "j * (m * (k * 2)) + f0 * (k * 2) = (j * m + f0) * (2 * (k::int))"
  by (simp add: algebra_simps)

lemma block_in_range:
  assumes "0 \<le> j" "j < n" "0 \<le> f0" "f0 < (m::int)"
  shows "0 \<le> j * m + f0" and "j * m + f0 < max 0 n * max 0 m"
proof -
  note b = block_index_bound[OF assms]
  show "0 \<le> j * m + f0" by (rule b(1))
  have "max 0 n = n" "max 0 m = m" using assms by simp_all
  then show "j * m + f0 < max 0 n * max 0 m" using b(2) by simp
qed

lemma wTx_pair_f_inv:
  assumes inv: "model_inv kreq (fst s)" and kr: "0 \<le> kreq" and k4: "4 dvd modelf_k (fst s)"
    and n1: "0 \<le> nodef_j N1" "nodef_j N1 < modelf_n (fst s)"
            "0 \<le> nodef_f N1" "nodef_f N1 < modelf_m (fst s)"
    and n2: "0 \<le> nodef_j N2" "nodef_j N2 < modelf_n (fst s)"
            "0 \<le> nodef_f N2" "nodef_f N2 < modelf_m (fst s)"
    and fin: "f_is_finite eta" "f_is_finite lambda" "f_is_finite (f_mul kappa (pair_value_f r N1 N2))"
  shows "model_inv kreq
           (fst (wTx_pair_f (modelf_k (fst s) * 2) (modelf_m (fst s) * (modelf_k (fst s) * 2)) r
                   (mmf_set1_ps kappa) (mmf_set1_ps eta) (mmf_set1_ps lambda) True N1 N2 s))"
proof -
  obtain M X where s: "s = (M, X)" by (cases s) auto
  let ?k = "modelf_k M"
  let ?m = "modelf_m M"
  let ?nm = "max 0 (modelf_n M) * max 0 ?m"
  let ?B1 = "nodef_j N1 * ?m + nodef_f N2"
  let ?B2 = "nodef_j N2 * ?m + nodef_f N1"
  note b1 = block_in_range[OF n1(1,2) n2(3,4), unfolded s fst_conv]
  note b2 = block_in_range[OF n2(1,2) n1(3,4), unfolded s fst_conv]
  have i: "padding_inv kreq ?nm ?k (modelf_W M)" using inv by (simp add: model_inv_def s)
  have "padding_inv kreq ?nm ?k
          (wTx_update_loop_f ?k (?B1 * (2 * ?k)) (?B2 * (2 * ?k)) (mmf_set1_ps eta) (mmf_set1_ps lambda)
             (mmf_set1_ps (f_mul kappa (pair_value_f r N1 N2))) 0 (modelf_W M))"
    using update_loop_f_inv[OF kr k4[unfolded s fst_conv] b1 b2 fin i] by simp
  then show ?thesis
    by (simp add: s wTx_pair_f_def Let_def model_inv_def mulf_set1 block_offset_f_block
          pair_value_f_def)
qed

lemma wTx_inner_f_inv:
  assumes kr: "0 \<le> kreq" and fin: "f_is_finite eta" "f_is_finite lambda"
    and n1: "0 \<le> nodef_j N1" "0 \<le> nodef_f N1"
  shows "model_inv kreq (fst s) \<Longrightarrow> 4 dvd modelf_k (fst s) \<Longrightarrow>
         nodef_j N1 < modelf_n (fst s) \<Longrightarrow> nodef_f N1 < modelf_m (fst s) \<Longrightarrow>
         \<forall>N2\<in>set rest. 0 \<le> nodef_j N2 \<and> 0 \<le> nodef_f N2 \<and>
                         f_is_finite (f_mul kappa (pair_value_f r N1 N2)) \<Longrightarrow>
         a0 = modelf_k (fst s) * 2 \<Longrightarrow> a1 = modelf_m (fst s) * (modelf_k (fst s) * 2) \<Longrightarrow>
         model_inv kreq
           (fst (wTx_inner_f a0 a1 r (mmf_set1_ps kappa) (mmf_set1_ps eta) (mmf_set1_ps lambda)
                   True N1 rest s))"
proof (induction rest arbitrary: s)
  case Nil
  then show ?case by simp
next
  case (Cons N2 rest)
  have r: "\<forall>N2\<in>set rest. 0 \<le> nodef_j N2 \<and> 0 \<le> nodef_f N2 \<and>
                         f_is_finite (f_mul kappa (pair_value_f r N1 N2))"
    using Cons.prems(5) by simp
  show ?case
  proof (cases "nodef_j N2 \<ge> modelf_n (fst s) \<or> nodef_f N2 \<ge> modelf_m (fst s) \<or>
                nodef_f N1 = nodef_f N2")
    case True
    then show ?thesis
      using Cons.IH[OF Cons.prems(1,2,3,4) r Cons.prems(6,7)] by simp
  next
    case False
    let ?s1 = "wTx_pair_f a0 a1 r (mmf_set1_ps kappa) (mmf_set1_ps eta) (mmf_set1_ps lambda)
                 True N1 N2 s"
    have n2: "0 \<le> nodef_j N2" "nodef_j N2 < modelf_n (fst s)"
      "0 \<le> nodef_f N2" "nodef_f N2 < modelf_m (fst s)"
      and f2: "f_is_finite (f_mul kappa (pair_value_f r N1 N2))"
      using False Cons.prems(5) by simp_all
    have a: "model_inv kreq (fst ?s1)"
      unfolding Cons.prems(6,7)
      by (rule wTx_pair_f_inv[OF Cons.prems(1) kr Cons.prems(2) n1(1) Cons.prems(3) n1(2)
            Cons.prems(4) n2 fin f2])
    have "model_inv kreq
            (fst (wTx_inner_f a0 a1 r (mmf_set1_ps kappa) (mmf_set1_ps eta) (mmf_set1_ps lambda)
                    True N1 rest ?s1))"
      using Cons.prems by (intro Cons.IH a r) simp_all
    then show ?thesis using False by simp
  qed
qed

lemma wTx_outer_f_inv:
  assumes kr: "0 \<le> kreq" and fin: "f_is_finite eta" "f_is_finite lambda"
  shows "model_inv kreq (fst s) \<Longrightarrow> 4 dvd modelf_k (fst s) \<Longrightarrow>
         \<forall>N\<in>set nodes. 0 \<le> nodef_j N \<and> 0 \<le> nodef_f N \<Longrightarrow>
         \<forall>p\<in>set (ordered_pairs nodes).
            f_is_finite (f_mul kappa (pair_value_f r (fst p) (snd p))) \<Longrightarrow>
         a0 = modelf_k (fst s) * 2 \<Longrightarrow> a1 = modelf_m (fst s) * (modelf_k (fst s) * 2) \<Longrightarrow>
         model_inv kreq
           (fst (wTx_outer_f a0 a1 r (mmf_set1_ps kappa) (mmf_set1_ps eta) (mmf_set1_ps lambda)
                   True nodes s))"
proof (induction nodes arbitrary: s)
  case Nil
  then show ?case by simp
next
  case (Cons N1 rest)
  have nn: "\<forall>N\<in>set rest. 0 \<le> nodef_j N \<and> 0 \<le> nodef_f N" using Cons.prems(3) by simp
  have ff: "\<forall>p\<in>set (ordered_pairs rest).
              f_is_finite (f_mul kappa (pair_value_f r (fst p) (snd p)))"
    using Cons.prems(4) by simp
  show ?case
  proof (cases "nodef_j N1 \<ge> modelf_n (fst s) \<or> nodef_f N1 \<ge> modelf_m (fst s)")
    case True
    then show ?thesis
      using Cons.IH[OF Cons.prems(1,2) nn ff Cons.prems(5,6)] by simp
  next
    case False
    let ?s1 = "wTx_inner_f a0 a1 r (mmf_set1_ps kappa) (mmf_set1_ps eta) (mmf_set1_ps lambda)
                 True N1 rest s"
    have n1: "0 \<le> nodef_j N1" "0 \<le> nodef_f N1" "nodef_j N1 < modelf_n (fst s)"
      "nodef_f N1 < modelf_m (fst s)"
      using False Cons.prems(3) by simp_all
    have r: "\<forall>N2\<in>set rest. 0 \<le> nodef_j N2 \<and> 0 \<le> nodef_f N2 \<and>
                         f_is_finite (f_mul kappa (pair_value_f r N1 N2))"
    proof
      fix N2 assume m: "N2 \<in> set rest"
      then have "(N1, N2) \<in> set (ordered_pairs (N1 # rest))" by simp
      then have "f_is_finite (f_mul kappa (pair_value_f r (fst (N1, N2)) (snd (N1, N2))))"
        using Cons.prems(4) by blast
      then show "0 \<le> nodef_j N2 \<and> 0 \<le> nodef_f N2 \<and>
                 f_is_finite (f_mul kappa (pair_value_f r N1 N2))"
        using nn m by simp
    qed
    have a: "model_inv kreq (fst ?s1)"
      by (rule wTx_inner_f_inv[OF kr fin n1(1,2) Cons.prems(1,2) n1(3,4) r Cons.prems(5,6)])
    have "model_inv kreq
            (fst (wTx_outer_f a0 a1 r (mmf_set1_ps kappa) (mmf_set1_ps eta) (mmf_set1_ps lambda)
                    True rest ?s1))"
      using Cons.prems by (intro Cons.IH a nn ff) simp_all
    then show ?thesis using False by simp
  qed
qed

lemma wTx_f_fields [simp]:
  "modelf_n (snd (wTx_f nodes r M kappa eta lambda u)) = modelf_n M"
  "modelf_m (snd (wTx_f nodes r M kappa eta lambda u)) = modelf_m M"
  "modelf_k (snd (wTx_f nodes r M kappa eta lambda u)) = modelf_k M"
  by (simp_all add: wTx_f_def Let_def)

lemma wTx_f_inv:
  assumes "model_inv kreq M" "0 \<le> kreq" "4 dvd modelf_k M"
    and "finite_call (nodes, r, kappa, eta, lambda)"
  shows "model_inv kreq (snd (wTx_f nodes r M kappa eta lambda True))"
proof -
  have fin: "f_is_finite eta" "f_is_finite lambda"
    and nn: "\<forall>N\<in>set nodes. 0 \<le> nodef_j N \<and> 0 \<le> nodef_f N"
    and ff: "\<forall>p\<in>set (ordered_pairs nodes).
               f_is_finite (f_mul kappa (pair_value_f r (fst p) (snd p)))"
    using assms(4) by (simp_all add: finite_call_def)
  have "model_inv kreq
          (fst (wTx_outer_f (modelf_k M * 2) (modelf_m M * (modelf_k M * 2)) r (mmf_set1_ps kappa)
                  (mmf_set1_ps eta) (mmf_set1_ps lambda) True nodes (M, mmf_setzero_ps)))"
    using assms(1,3) nn ff by (intro wTx_outer_f_inv[OF assms(2) fin]) simp_all
  then show ?thesis by (simp add: wTx_f_def Let_def)
qed

lemma apply_updates_f_inv:
  assumes kr: "0 \<le> kreq"
  shows "model_inv kreq M \<Longrightarrow> 4 dvd modelf_k M \<Longrightarrow> \<forall>c\<in>set calls. finite_call c \<Longrightarrow>
         model_inv kreq (apply_updates_f calls M) \<and>
         modelf_n (apply_updates_f calls M) = modelf_n M \<and>
         modelf_m (apply_updates_f calls M) = modelf_m M \<and>
         modelf_k (apply_updates_f calls M) = modelf_k M"
  unfolding apply_updates_f_def
proof (induction calls arbitrary: M)
  case Nil
  then show ?case by simp
next
  case (Cons c calls)
  obtain nodes r kappa eta lambda where c: "c = (nodes, r, kappa, eta, lambda)"
    by (cases c) auto
  have fc: "finite_call (nodes, r, kappa, eta, lambda)" using Cons.prems(3) c by simp
  let ?M = "apply_update_f c M"
  have a: "model_inv kreq ?M"
    using wTx_f_inv[OF Cons.prems(1) kr Cons.prems(2) fc] by (simp add: apply_update_f_def c)
  have f: "modelf_n ?M = modelf_n M" "modelf_m ?M = modelf_m M" "modelf_k ?M = modelf_k M"
    by (simp_all add: apply_update_f_def c)
  have b: "4 dvd modelf_k ?M" using f Cons.prems(2) by simp
  have r: "\<forall>c\<in>set calls. finite_call c" using Cons.prems(3) by simp
  show ?case using Cons.IH[OF a b r] f by simp
qed

text \<open>The fresh model has the invariant, and the invariant gives the zeros of the claim.\<close>

lemma float_model_inv:
  assumes i: "init_model heap drand48 n m param = Inr model" and k: "0 \<le> param_k param"
  shows "model_inv (param_k param) (float_model model)"
proof -
  note fl = init_model_fields[OF i]
  show ?thesis
    unfolding model_inv_def padding_inv_def
  proof (intro allI impI)
    fix B c
    assume h: "0 \<le> B \<and> B < max 0 (modelf_n (float_model model)) * max 0 (modelf_m (float_model model)) \<and>
               param_k param \<le> c \<and> c < modelf_k (float_model model)"
    then have B: "0 \<le> B" "B < max 0 n * max 0 m" and c: "param_k param \<le> c" "c < model_k model"
      by (simp_all add: float_model_def fl(1,2))
    note b = init_model_blocks[OF i k B c]
    show "modelf_W (float_model model) (B * (2 * modelf_k (float_model model)) + c) = Float 0 \<and>
          modelf_W (float_model model)
            (B * (2 * modelf_k (float_model model)) + modelf_k (float_model model) + c) = Float 1"
      using b by (simp add: float_model_def)
  qed
qed

lemma model_inv_padding_zero:
  assumes "model_inv kreq M"
  shows "padding_zero_f kreq M"
  unfolding padding_zero_f_def
proof (intro ballI)
  fix j f0 d
  assume "j \<in> {0..<modelf_n M}" "f0 \<in> {0..<modelf_m M}" "d \<in> {kreq..<modelf_k M}"
  then have r: "0 \<le> j" "j < modelf_n M" "0 \<le> f0" "f0 < modelf_m M"
    and d: "kreq \<le> d \<and> d < modelf_k M" by simp_all
  note b = block_in_range[OF r]
  have "modelf_W M ((j * modelf_m M + f0) * (2 * modelf_k M) + d) = Float 0"
    using assms b d unfolding model_inv_def padding_inv_def by blast
  then show "modelf_W M (block_offset_f M j f0 + d) = Float 0"
    by (simp add: block_offset_f_def block_offset_f_block)
qed

text \<open>
  The register of the score loop holds floats: it starts at zero, and each lane is then the
  result of an addition.
\<close>

lemma score_register_in_range:
  "f_in_range (lanef mmf_setzero_ps i)"
  "f_in_range (lanef (wTx_score_body_f w1 w2 XMMv d W XMMt) i)"
proof -
  show "f_in_range (lanef mmf_setzero_ps i)"
    using FLT_MAX_ge_1 by (simp add: lanef_def mmf_setzero_ps_def)
  show "f_in_range (lanef (wTx_score_body_f w1 w2 XMMv d W XMMt) i)"
    by (simp add: wTx_score_body_f_def Let_def)
qed

text \<open>
  The body of the score loop on a lane of a padding coordinate: it adds \<open>0 * 0 * v\<close>, which
  is 0 for a finite \<open>v\<close>, and leaves the lane as it is.
\<close>

lemma score_body_f_padding:
  assumes inv: "model_inv kreq M" and kr: "0 \<le> kreq"
    and r1: "0 \<le> j1" "j1 < modelf_n M" "0 \<le> f2" "f2 < modelf_m M"
    and r2: "0 \<le> j2" "j2 < modelf_n M" "0 \<le> f1" "f1 < modelf_m M"
    and v: "f_is_finite v" and i: "0 \<le> i" "i < 4" and c: "kreq \<le> d + i" "d + i < modelf_k M"
    and t: "f_in_range (lanef XMMt i)"
  shows "lanef (wTx_score_body_f (block_offset_f M j1 f2) (block_offset_f M j2 f1) (mmf_set1_ps v) d
                  (modelf_W M) XMMt) i = lanef XMMt i"
proof -
  note b1 = block_in_range[OF r1]
  note b2 = block_in_range[OF r2]
  have c': "kreq \<le> d + i \<and> d + i < modelf_k M" using c by simp
  have w1: "modelf_W M ((j1 * modelf_m M + f2) * (2 * modelf_k M) + (d + i)) = Float 0"
    using inv b1 c' unfolding model_inv_def padding_inv_def by blast
  have w2: "modelf_W M ((j2 * modelf_m M + f1) * (2 * modelf_k M) + (d + i)) = Float 0"
    using inv b2 c' unfolding model_inv_def padding_inv_def by blast
  obtain a where a: "v = Float a" using v by (cases v) simp_all
  show ?thesis
    using i t
    by (simp add: wTx_score_body_f_def Let_def lanef_load block_offset_f_def block_offset_f_block
          add.assoc w1 w2 a f_add_0_in_range)
qed

section \<open>Saving a model and loading it back\<close>














section \<open>The kernel: score, update and frame\<close>

lemma ex_valid_pairs:
  "valid_pairs ex_model ex_row =
     [(\<lparr>node_f = 0, node_j = 1, node_v = 1\<rparr>, \<lparr>node_f = 1, node_j = 2, node_v = 1\<rparr>)]"
  by (simp add: valid_pairs_def valid_pair_def in_bounds_def ex_model_def ex_row_def)

lemma ex_dvd: "4 dvd model_k ex_model"
  by (simp add: ex_model_def)

lemma dot_product_four: "dot_product W 4 w1 w2 =
  W w1 * W w2 + W (w1 + 1) * W (w2 + 1) + W (w1 + 2) * W (w2 + 2) + W (w1 + 3) * W (w2 + 3)"
  using sum_int_four[of "\<lambda>d. W (w1 + d) * W (w2 + d)" 0] by (simp add: dot_product_def)

text \<open>
  C2. In score mode the kernel returns the sum, over the pairs \<open>(N1, N2)\<close> of the row with
  \<open>N1\<close> before \<open>N2\<close>, both in bounds and of different fields, of
  \<open>2 * v1 * v2 * row_scale\<close> times the dot product over the \<open>k\<close> coordinates of the
  embeddings at \<open>(j1, f2)\<close> and \<open>(j2, f1)\<close>, addressed at \<open>index * m * 2k + field * 2k\<close>.
  The kernel reads the coordinates in groups of four, so \<open>k\<close> is a multiple of four, as
  it is for every model that \<open>init_model\<close> builds.
\<close>

theorem wTx_score_mode:
  "4 dvd model_k model \<Longrightarrow>
   fst (wTx nodes r model kappa eta lambda False) = score_spec model r nodes"
  by (rule wTx_score_eq)

theorem wTx_score_mode_witness:
  "4 dvd model_k ex_model \<and>
   fst (wTx ex_row 1 ex_model 0 0 0 False) = score_spec ex_model 1 ex_row \<and>
   score_spec ex_model 1 ex_row = 8"
proof -
  have "score_spec ex_model 1 ex_row = 8"
    by (simp add: score_spec_def ex_valid_pairs pair_score_def)
       (simp add: ex_model_def dot_product_four)
  then show ?thesis using wTx_score_mode[OF ex_dvd, of ex_row 1 0 0 0] ex_dvd by simp
qed

text \<open>
  C3. In update mode the kernel returns 0 and applies, for each valid pair in the order
  of the loops, the AdaGrad step \<open>pair_update\<close>. For a pair and a coordinate \<open>d\<close> the
  step computes \<open>g1 = lambda * w1[d] + kappa_v * w2[d]\<close> and
  \<open>g2 = lambda * w2[d] + kappa_v * w1[d]\<close>, adds \<open>g1\<^sup>2\<close> and \<open>g2\<^sup>2\<close> to the
  accumulators, and subtracts \<open>eta * g / sqrt\<close> of the accumulator after the addition
  from each weight.
\<close>

theorem wTx_update_mode:
  "4 dvd model_k model \<Longrightarrow>
   wTx nodes r model kappa eta lambda True = (0, update_spec model r kappa eta lambda nodes) \<and>
   (\<forall>p d. 0 \<le> d \<and> d < model_k model \<longrightarrow>
      (let W = model_W model;
           W' = model_W (pair_update r kappa eta lambda p model);
           k = model_k model;
           w1 = embedding_offset model (node_j (fst p)) (node_f (snd p));
           w2 = embedding_offset model (node_j (snd p)) (node_f (fst p));
           kappav = kappa * (2 * node_v (fst p) * node_v (snd p) * r);
           g1 = grad W lambda kappav w1 w2 d;
           g2 = grad W lambda kappav w2 w1 d
       in W' (w1 + k + d) = W (w1 + k + d) + g1\<^sup>2 \<and>
          W' (w2 + k + d) = W (w2 + k + d) + g2\<^sup>2 \<and>
          W' (w1 + d) = W (w1 + d) - eta * g1 / sqrt (W' (w1 + k + d)) \<and>
          W' (w2 + d) = W (w2 + d) - eta * g2 / sqrt (W' (w2 + k + d))))"
proof (intro conjI allI impI)
  assume "4 dvd model_k model"
  then show "wTx nodes r model kappa eta lambda True = (0, update_spec model r kappa eta lambda nodes)"
    by (rule wTx_update_eq)
next
  fix p d
  assume "0 \<le> d \<and> d < model_k model"
  then have d: "0 \<le> d" "d < model_k model" by simp_all
  note at = pair_update_spec_at[OF offsets_noalias d]
  show "let W = model_W model;
           W' = model_W (pair_update r kappa eta lambda p model);
           k = model_k model;
           w1 = embedding_offset model (node_j (fst p)) (node_f (snd p));
           w2 = embedding_offset model (node_j (snd p)) (node_f (fst p));
           kappav = kappa * (2 * node_v (fst p) * node_v (snd p) * r);
           g1 = grad W lambda kappav w1 w2 d;
           g2 = grad W lambda kappav w2 w1 d
       in W' (w1 + k + d) = W (w1 + k + d) + g1\<^sup>2 \<and>
          W' (w2 + k + d) = W (w2 + k + d) + g2\<^sup>2 \<and>
          W' (w1 + d) = W (w1 + d) - eta * g1 / sqrt (W' (w1 + k + d)) \<and>
          W' (w2 + d) = W (w2 + d) - eta * g2 / sqrt (W' (w2 + k + d))"
    by (simp add: Let_def pair_update_def at)
qed


theorem wTx_update_mode_witness:
  "4 dvd model_k ex_model \<and> (0::int) \<le> 0 \<and> 0 < model_k ex_model \<and>
   fst (wTx ex_row 1 ex_model (- 1 / 2) (1 / 10) 0 True) = 0 \<and>
   model_W (snd (wTx ex_row 1 ex_model (- 1 / 2) (1 / 10) 0 True))
     (embedding_offset ex_model 1 1 + model_k ex_model) = 2 \<and>
   model_W (snd (wTx ex_row 1 ex_model (- 1 / 2) (1 / 10) 0 True))
     (embedding_offset ex_model 1 1) = 1 + 1 / (10 * sqrt 2)"
proof -
  let ?p = "(\<lparr>node_f = 0, node_j = 1, node_v = 1\<rparr>, \<lparr>node_f = 1, node_j = 2, node_v = 1\<rparr>)"
  note th = wTx_update_mode[OF ex_dvd, of ex_row 1 "- 1 / 2" "1 / 10" 0]
  have k: "(0::int) \<le> 0 \<and> 0 < model_k ex_model" by (simp add: ex_model_def)
  have u: "update_spec ex_model 1 (- 1 / 2) (1 / 10) 0 ex_row =
           pair_update 1 (- 1 / 2) (1 / 10) 0 ?p ex_model"
    by (simp add: update_spec_def ex_valid_pairs)
  have w: "wTx ex_row 1 ex_model (- 1 / 2) (1 / 10) 0 True =
           (0, pair_update 1 (- 1 / 2) (1 / 10) 0 ?p ex_model)"
    using th u by simp
  from th have "\<forall>p d. 0 \<le> d \<and> d < model_k ex_model \<longrightarrow>
      (let W = model_W ex_model;
           W' = model_W (pair_update 1 (- 1 / 2) (1 / 10) 0 p ex_model);
           k = model_k ex_model;
           w1 = embedding_offset ex_model (node_j (fst p)) (node_f (snd p));
           w2 = embedding_offset ex_model (node_j (snd p)) (node_f (fst p));
           kappav = (- 1 / 2) * (2 * node_v (fst p) * node_v (snd p) * 1);
           g1 = grad W 0 kappav w1 w2 d;
           g2 = grad W 0 kappav w2 w1 d
       in W' (w1 + k + d) = W (w1 + k + d) + g1\<^sup>2 \<and>
          W' (w2 + k + d) = W (w2 + k + d) + g2\<^sup>2 \<and>
          W' (w1 + d) = W (w1 + d) - (1 / 10) * g1 / sqrt (W' (w1 + k + d)) \<and>
          W' (w2 + d) = W (w2 + d) - (1 / 10) * g2 / sqrt (W' (w2 + k + d)))"
    by simp
  from this[rule_format, OF k, of ?p]
  have a: "model_W (pair_update 1 (- 1 / 2) (1 / 10) 0 ?p ex_model)
             (embedding_offset ex_model 1 1 + model_k ex_model) = 2"
    and b: "model_W (pair_update 1 (- 1 / 2) (1 / 10) 0 ?p ex_model) (embedding_offset ex_model 1 1) =
            1 + 1 / (10 * sqrt 2)"
    by (simp_all add: Let_def grad_def) (simp_all add: ex_model_def)
  show ?thesis using ex_dvd k w a b by simp
qed

text \<open>
  C9. A call in score mode leaves the model as it is. A call in update mode leaves
  \<open>n\<close>, \<open>m\<close>, \<open>k\<close> and \<open>normalization\<close> as they are and writes only slots of the blocks
  \<open>(j1, f2)\<close> and \<open>(j2, f1)\<close> of the valid pairs of the row: the \<open>k\<close> embedding slots and the
  \<open>k\<close> accumulator slots of each. \<open>k\<close> is a multiple of four, as for every model that
  \<open>init_model\<close> builds.
\<close>

theorem wTx_frame:
  "4 dvd model_k model \<Longrightarrow>
   snd (wTx nodes r model kappa eta lambda False) = model \<and>
   (let model' = snd (wTx nodes r model kappa eta lambda True)
    in model_n model' = model_n model \<and> model_m model' = model_m model \<and>
       model_k model' = model_k model \<and>
       model_normalization model' = model_normalization model \<and>
       (\<forall>x. \<not> row_slots model nodes x \<longrightarrow> model_W model' x = model_W model x))"
  by (simp add: wTx_score_snd wTx_update_eq update_spec_def Let_def row_slots_def
        fold_pair_update_outside)

theorem wTx_frame_witness:
  "4 dvd model_k ex_model \<and> \<not> row_slots ex_model ex_row 0 \<and>
   snd (wTx ex_row 1 ex_model 0 0 0 False) = ex_model \<and>
   model_W (snd (wTx ex_row 1 ex_model (- 1 / 2) (1 / 10) 0 True)) 0 = 1"
proof -
  have s: "\<not> row_slots ex_model ex_row 0"
    by (simp add: row_slots_def ex_valid_pairs pair_slots_def Let_def)
       (simp add: embedding_offset_def ex_model_def)
  have "model_W ex_model 0 = 1" by (simp add: ex_model_def)
  then show ?thesis
    using wTx_frame[OF ex_dvd, of ex_row 1 "- 1 / 2" "1 / 10" 0] s
      wTx_frame[OF ex_dvd, of ex_row 1 0 0 0] ex_dvd
    by (simp add: Let_def)
qed

section \<open>Inference: scaling of a row, skipped nodes and pairs\<close>

lemma ex_norm_filter: "filter (in_bounds ex_norm_model) ex_norm_row_out = ex_norm_row"
  by (simp add: ex_norm_row_out_def ex_norm_row_def in_bounds_def ex_norm_model_def)

lemma ex_norm_out_predict_t: "predict_t ex_norm_row_out ex_norm_model = 24 / 13"
proof -
  have s: "predict_scale ex_norm_row_out ex_norm_model = 1 / 13"
    by (simp add: predict_scale_def ex_norm_model_def ex_norm_row_out_def ex_norm_row_def sqrt_169)
  have v: "valid_pairs ex_norm_model ex_norm_row_out = valid_pairs ex_norm_model ex_norm_row"
    using valid_pairs_filter[of ex_norm_model ex_norm_row_out] by (simp add: ex_norm_filter)
  have "predict_t ex_norm_row_out ex_norm_model = predict_sum ex_norm_model (1 / 13) ex_norm_row_out"
    by (simp only: predict_t_eq s)
  also have "\<dots> = 1 / 13 * predict_sum ex_norm_model 1 ex_norm_row_out"
    by (rule predict_sum_scale)
  also have "\<dots> = 1 / 13 * predict_sum ex_norm_model 1 ex_norm_row"
    by (simp add: predict_sum_def v)
  finally show ?thesis by (simp add: ex_norm_predict_sum)
qed




text \<open>
  C5, as stated, fails for \<open>ffm_predict\<close> with \<open>normalization\<close> set: the row scale is
  computed over all nodes of the row, so a node whose index is out of bounds is not
  skipped there, and removing it from the row changes the probability.
\<close>

theorem predict_out_of_bounds_counterexample:
  "ffm_predict (filter (in_bounds ex_norm_model) ex_norm_row_out) ex_norm_model \<noteq>
   ffm_predict ex_norm_row_out ex_norm_model"
  by (simp add: ffm_predict_eq_iff ex_norm_filter ex_norm_predict_t ex_norm_out_predict_t)

text \<open>
  C5, amended. The pair loops of the kernel (in either mode) and of \<open>ffm_predict\<close> skip
  every node whose index is not below \<open>n\<close> or whose field is not below \<open>m\<close>, and every
  pair of nodes of the same field: removing the nodes out of bounds from the row changes
  neither the result and the state change of the kernel nor, for a given row scale, the
  sum of \<open>ffm_predict\<close>; and a row all of whose pairs have a node out of bounds or the
  same field gives the score 0 and no state change. Both functions are total: there is no
  error. With \<open>normalization\<close> unset \<open>ffm_predict\<close> is the same with and without the nodes
  out of bounds; with \<open>normalization\<close> set their values still enter the row scale.
\<close>

theorem skip_out_of_bounds_and_same_field:
  "wTx (filter (in_bounds model) nodes) r model kappa eta lambda do_update =
     wTx nodes r model kappa eta lambda do_update \<and>
   predict_outer (model_k model) (model_m model * model_k model) r model
     (filter (in_bounds model) nodes) t =
     predict_outer (model_k model) (model_m model * model_k model) r model nodes t \<and>
   (\<not> model_normalization model \<longrightarrow>
      ffm_predict (filter (in_bounds model) nodes) model = ffm_predict nodes model) \<and>
   ((\<forall>p\<in>set (ordered_pairs nodes).
        \<not> in_bounds model (fst p) \<or> \<not> in_bounds model (snd p) \<or> node_f (fst p) = node_f (snd p)) \<longrightarrow>
      wTx nodes r model kappa eta lambda do_update = (0, model) \<and>
      predict_t nodes model = 0 \<and> ffm_predict nodes model = 1 / 2)"
proof (intro conjI impI)
  show "wTx (filter (in_bounds model) nodes) r model kappa eta lambda do_update =
        wTx nodes r model kappa eta lambda do_update"
    by (rule wTx_filter)
  show "predict_outer (model_k model) (model_m model * model_k model) r model
          (filter (in_bounds model) nodes) t =
        predict_outer (model_k model) (model_m model * model_k model) r model nodes t"
    by (rule predict_outer_filter)
  show "ffm_predict (filter (in_bounds model) nodes) model = ffm_predict nodes model"
    if "\<not> model_normalization model"
    using that
    by (simp add: ffm_predict_eq_iff predict_t_eq predict_scale_def predict_sum_def valid_pairs_filter)
next
  assume "\<forall>p\<in>set (ordered_pairs nodes).
        \<not> in_bounds model (fst p) \<or> \<not> in_bounds model (snd p) \<or> node_f (fst p) = node_f (snd p)"
  then have nv: "\<forall>p\<in>set (ordered_pairs nodes). \<not> valid_pair model p"
    by (auto simp: valid_pair_def)
  then have e: "valid_pairs model nodes = []"
    by (simp add: valid_pairs_def filter_empty_conv)
  show "wTx nodes r model kappa eta lambda do_update = (0, model)"
    using nv by (rule wTx_novalid)
  show t0: "predict_t nodes model = 0"
    by (simp add: predict_t_eq predict_sum_def e)
  show "ffm_predict nodes model = 1 / 2"
    by (simp add: ffm_predict_def t0)
qed

theorem skip_out_of_bounds_and_same_field_witness:
  "\<not> model_normalization ex_model \<and>
   ordered_pairs ex_same_field_row =
     [(\<lparr>node_f = 0, node_j = 1, node_v = 1\<rparr>, \<lparr>node_f = 0, node_j = 2, node_v = 1\<rparr>)] \<and>
   node_f \<lparr>node_f = 0, node_j = 1, node_v = 1\<rparr> = node_f \<lparr>node_f = 0, node_j = 2, node_v = 1\<rparr> \<and>
   wTx ex_same_field_row 1 ex_model (- 1 / 2) (1 / 10) 0 True = (0, ex_model) \<and>
   wTx ex_same_field_row 1 ex_model 0 0 0 False = (0, ex_model) \<and>
   ffm_predict ex_same_field_row ex_model = 1 / 2 \<and>
   ffm_predict (filter (in_bounds ex_model) ex_same_field_row) ex_model =
     ffm_predict ex_same_field_row ex_model"
proof -
  have a: "\<not> model_normalization ex_model" by (simp add: ex_model_def)
  have o: "ordered_pairs ex_same_field_row =
     [(\<lparr>node_f = 0, node_j = 1, node_v = 1\<rparr>, \<lparr>node_f = 0, node_j = 2, node_v = 1\<rparr>)]"
    by (simp add: ex_same_field_row_def)
  have b: "\<forall>p\<in>set (ordered_pairs ex_same_field_row).
        \<not> in_bounds ex_model (fst p) \<or> \<not> in_bounds ex_model (snd p) \<or> node_f (fst p) = node_f (snd p)"
    by (simp add: o)
  show ?thesis
    using skip_out_of_bounds_and_same_field[of ex_model ex_same_field_row 1 "- 1 / 2" "1 / 10" 0 True 0]
      skip_out_of_bounds_and_same_field[of ex_model ex_same_field_row 1 0 0 0 False 0] a b o
    by simp
qed

section \<open>Shrinking\<close>

lemma shrink_model_W:
  assumes "0 \<le> k_new" "k_new \<le> 2 * model_k model" "0 \<le> model_m model" "0 \<le> model_n model"
    and "model_n model * model_m model \<le> 2 ^ 31"
    and "model_n model * model_m model * model_k model * 2 \<le> 2 ^ 31"
  shows "model_W (shrink_model model k_new) =
         shrink_spec (model_k model) k_new 0 (model_n model * model_m model) (model_W model)"
  using shrink_j_loop_eq[where ?j0.0 = 0 and W = "model_W model", OF assms(1,2,3) _ assms(4,5,6)]
  by (simp add: shrink_model_def)

text \<open>
  Up to \<open>2\<^sup>3\<^sup>1\<close> slots the 32-bit offsets do not overflow, and \<open>shrink_model model k_new\<close>
  does what is specified: it sets \<open>k\<close> to \<open>k_new\<close> and leaves \<open>n\<close>, \<open>m\<close> and
  \<open>normalization\<close> as they are; after the forward scan over the blocks in row-major
  order, the \<open>k_new\<close> slots from the destination offset \<open>(index * m + field) * k_new\<close>
  hold what the first \<open>k_new\<close> slots from the source offset
  \<open>(index * m + field) * k * 2\<close> held before the call, no copy having overwritten a
  source that was still to be read; for every block the destination offset is at most
  the source offset; and every slot that is not a destination slot, that is, every slot
  from \<open>n * m * k_new\<close> on and every slot before the buffer, holds what it held. The
  new size is not negative and at most \<open>2 * k\<close>; \<open>train\<close> calls \<open>shrink_model\<close> with
  the requested size, which is at most the aligned \<open>k\<close>.
\<close>

lemma shrink_model_without_overflow:
  "0 \<le> k_new \<Longrightarrow> k_new \<le> 2 * model_k model \<Longrightarrow> 0 \<le> model_n model \<Longrightarrow> 0 \<le> model_m model \<Longrightarrow>
   model_n model * model_m model \<le> 2 ^ 31 \<Longrightarrow>
   model_n model * model_m model * model_k model * 2 \<le> 2 ^ 31 \<Longrightarrow>
   model_k (shrink_model model k_new) = k_new \<and>
   model_n (shrink_model model k_new) = model_n model \<and>
   model_m (shrink_model model k_new) = model_m model \<and>
   model_normalization (shrink_model model k_new) = model_normalization model \<and>
   (\<forall>j f0 d. 0 \<le> j \<and> j < model_n model \<and> 0 \<le> f0 \<and> f0 < model_m model \<and> 0 \<le> d \<and> d < k_new \<longrightarrow>
      model_W (shrink_model model k_new) ((j * model_m model + f0) * k_new + d) =
        model_W model ((j * model_m model + f0) * model_k model * 2 + d) \<and>
      (j * model_m model + f0) * k_new \<le> (j * model_m model + f0) * model_k model * 2) \<and>
   (\<forall>x. x < 0 \<or> model_n model * model_m model * k_new \<le> x \<longrightarrow>
      model_W (shrink_model model k_new) x = model_W model x)"
proof (intro conjI allI impI)
  assume kn: "0 \<le> k_new" "k_new \<le> 2 * model_k model"
    and nm: "0 \<le> model_n model" "0 \<le> model_m model"
    and sz: "model_n model * model_m model \<le> 2 ^ 31"
      "model_n model * model_m model * model_k model * 2 \<le> 2 ^ 31"
  have W: "model_W (shrink_model model k_new) =
           shrink_spec (model_k model) k_new 0 (model_n model * model_m model) (model_W model)"
    using shrink_model_W[OF kn nm(2,1) sz] .
  show "model_k (shrink_model model k_new) = k_new"
    "model_n (shrink_model model k_new) = model_n model"
    "model_m (shrink_model model k_new) = model_m model"
    "model_normalization (shrink_model model k_new) = model_normalization model"
    by (simp_all add: shrink_model_def)
  show "model_W (shrink_model model k_new) x = model_W model x"
    if "x < 0 \<or> model_n model * model_m model * k_new \<le> x" for x
    using that by (auto simp: W shrink_spec_def)
  fix j f0 d
  assume "0 \<le> j \<and> j < model_n model \<and> 0 \<le> f0 \<and> f0 < model_m model \<and> 0 \<le> d \<and> d < k_new"
  then have r: "0 \<le> j" "j < model_n model" "0 \<le> f0" "f0 < model_m model" and d: "0 \<le> d" "d < k_new"
    by simp_all
  let ?b = "j * model_m model + f0"
  let ?x = "?b * k_new + d"
  note b = block_index_bound[OF r]
  have pos: "0 < k_new" using d by simp
  have lo: "?b * k_new \<le> ?x" using d by simp
  have hi: "?x < (?b + 1) * k_new" using d by (simp add: algebra_simps)
  have "(?b + 1) * k_new \<le> (model_n model * model_m model) * k_new"
    using b(2) kn(1) by (intro mult_right_mono) simp_all
  then have hi': "?x < model_n model * model_m model * k_new" using hi by simp
  have lo': "0 * k_new \<le> ?x" using b(1) d kn(1) by simp
  have dm: "?x div k_new = ?b" "?x mod k_new = d"
    using block_div_mod[OF pos lo hi] by simp_all
  show "model_W (shrink_model model k_new) ?x = model_W model (?b * model_k model * 2 + d)"
    using lo' hi' by (simp only: W shrink_spec_def dm) simp
  show "?b * k_new \<le> ?b * model_k model * 2"
    using mult_left_mono[OF kn(2) b(1)] by (simp add: algebra_simps)
qed

lemma shrink_model_without_overflow_example:
  "model_k (shrink_model ex_ramp_model 2) = 2 \<and>
   model_W (shrink_model ex_ramp_model 2) 7 = 25 \<and>
   model_W (shrink_model ex_ramp_model 2) 16 = 16"
proof -
  have h: "(0::int) \<le> 2" "2 \<le> 2 * model_k ex_ramp_model"
    "0 \<le> model_n ex_ramp_model" "0 \<le> model_m ex_ramp_model"
    "model_n ex_ramp_model * model_m ex_ramp_model \<le> 2 ^ 31"
    "model_n ex_ramp_model * model_m ex_ramp_model * model_k ex_ramp_model * 2 \<le> 2 ^ 31"
    and r: "(0::int) \<le> 1 \<and> 1 < model_n ex_ramp_model \<and> (0::int) \<le> 1 \<and> 1 < model_m ex_ramp_model \<and>
            (0::int) \<le> 1 \<and> (1::int) < 2"
    and o: "16 < (0::int) \<or> model_n ex_ramp_model * model_m ex_ramp_model * 2 \<le> 16"
    by (simp_all add: ex_ramp_model_def)
  note th = shrink_model_without_overflow[OF h]
  from th have "model_W (shrink_model ex_ramp_model 2) ((1 * model_m ex_ramp_model + 1) * 2 + 1) =
        model_W ex_ramp_model ((1 * model_m ex_ramp_model + 1) * model_k ex_ramp_model * 2 + 1)"
    using r by blast
  then have a: "model_W (shrink_model ex_ramp_model 2) 7 = 25"
    by (simp add: ex_ramp_model_def)
  from th o have "model_W (shrink_model ex_ramp_model 2) 16 = model_W ex_ramp_model 16"
    by blast
  then have b: "model_W (shrink_model ex_ramp_model 2) 16 = 16"
    by (simp add: ex_ramp_model_def)
  show ?thesis using th a b by simp
qed

text \<open>
  C6. The claim fails on the code for a model of \<open>2\<^sup>3\<^sup>1\<close> slots or more, which
  \<^verbatim>\<open>init_model\<close> allocates and \<^verbatim>\<open>wTx\<close> addresses with 64-bit offsets: \<^verbatim>\<open>shrink_model\<close>
  computes its offsets in 32 bits. On \<open>ex_big_model\<close> with \<open>k_new = 4\<close>, the block of
  index \<open>2\<^sup>2\<^sup>7\<close> and field 0 has the source offset
  \<open>(2\<^sup>2\<^sup>7 * 2 + 0) * 4 * 2 = 2\<^sup>3\<^sup>1\<close>, which wraps to \<open>- 2\<^sup>3\<^sup>1\<close>. The destination slot
  \<open>(2\<^sup>2\<^sup>7 * 2 + 0) * 4\<close> receives what lies \<open>2\<^sup>3\<^sup>1\<close> floats before the buffer, not the
  first slot of the source block, and the destination offset is above the source offset.
\<close>

theorem shrink_model_offset_overflow:
  "model_W (shrink_model ex_big_model 4) ((134217728 * model_m ex_big_model + 0) * 4) =
     model_W ex_big_model (- 2147483648) \<and>
   model_W (shrink_model ex_big_model 4) ((134217728 * model_m ex_big_model + 0) * 4) \<noteq>
     model_W ex_big_model ((134217728 * model_m ex_big_model + 0) * model_k ex_big_model * 2) \<and>
   \<not> (134217728 * model_m ex_big_model + 0) * 4 \<le>
       ffm_int_wrap (ffm_int_wrap (ffm_int_wrap (ffm_int_wrap (134217728 * model_m ex_big_model) + 0) *
         model_k ex_big_model) * 2)"
proof -
  let ?W = "\<lambda>x. real_of_int x"
  let ?W1 = "shrink_spec 4 4 0 268435456 ?W"
  have pre: "shrink_j_loop 134217729 2 4 4 0 ?W = shrink_j_loop 134217729 2 4 4 134217728 ?W1"
    using shrink_j_loop_prefix[of 4 4 2 0 134217728 134217729 ?W] by simp
  have last: "shrink_j_loop 134217729 2 4 4 134217728 ?W1 = shrink_f_loop 2 4 4 134217728 0 ?W1"
    by (subst shrink_j_loop.simps, subst shrink_j_loop.simps) simp
  have c0: "std_copy (- 2147483648) (- 2147483648 + 4) 1073741824 ?W1 1073741824 = ?W1 (- 2147483648)"
    by (simp add: std_copy_apply_gen)
  have f: "shrink_f_loop 2 4 4 134217728 0 ?W1 1073741824 = ?W1 (- 2147483648)"
    by (subst shrink_f_loop.simps, subst shrink_f_loop.simps, subst shrink_f_loop.simps)
      (simp add: Let_def ffm_int_wrap_def std_copy_apply_gen)
  have w: "?W1 (- 2147483648) = - 2147483648"
    by (simp add: shrink_spec_def)
  have "model_W (shrink_model ex_big_model 4) 1073741824 = - 2147483648"
    by (simp add: shrink_model_def ex_big_model_def pre last f w)
  then show ?thesis
    by (simp add: ex_big_model_def ffm_int_wrap_def)
qed

section \<open>Padding coordinates\<close>

lemma ex_init_model: "init_model ex_heap ex_drand48 4 2 ex_param = Inr ex_init_model"
proof -
  have "\<lceil>(2::real) / 4\<rceil> = 1" by (simp add: ceiling_eq_iff)
  then show ?thesis
    by (simp add: init_model_def malloc_aligned_float_def ex_heap_def ex_param_def Let_def
          kALIGN_def kALIGNByte_def ex_init_model_def)
qed

lemma apply_updates_f_fields [simp]:
  "modelf_n (apply_updates_f calls M) = modelf_n M"
  "modelf_m (apply_updates_f calls M) = modelf_m M"
  "modelf_k (apply_updates_f calls M) = modelf_k M"
  unfolding apply_updates_f_def
  by (induction calls arbitrary: M; simp add: apply_update_f_def split: prod.splits)+

lemma ex_float_model_fields [simp]:
  "modelf_n (float_model ex_init_model) = 4" "modelf_m (float_model ex_init_model) = 2"
  "modelf_k (float_model ex_init_model) = 4"
  by (simp_all add: float_model_def ex_init_model_def)

text \<open>
  The call of the concrete scenario with \<open>kappa = NaN\<close>: the slot of the padding
  coordinate 2 of the block of index 1 and field 1, at offset 26, becomes NaN.
\<close>

lemma ex_nan_slot:
  "modelf_W (apply_updates_f ex_calls_nan (float_model ex_init_model)) 26 = NaN"
proof -
  let ?W = "modelf_W (float_model ex_init_model)"
  have l: "wTx_update_loop_f 4 24 32 (mmf_set1_ps (Float (1 / 10))) (mmf_set1_ps (Float 0))
             (mmf_set1_ps NaN) 0 ?W 26 = NaN"
    by (subst wTx_update_loop_f.simps, subst wTx_update_loop_f.simps)
      (simp add: update_body_f_apply step_f_def acc_f_def grad_f_def)
  show ?thesis
    by (simp add: apply_updates_f_def ex_calls_nan_def apply_update_f_def wTx_f_def Let_def
          ex_row_f_def wTx_pair_f_def mulf_set1 l)
qed

text \<open>
  C8, as stated, fails: the zeros are not preserved for any \<open>kappa\<close>. \<^verbatim>\<open>train\<close> calls the
  kernel with \<open>kappa = NaN\<close> when \<^verbatim>\<open>exp(-y*t)\<close> overflows; the gradient of a padding
  coordinate is then \<open>lambda * 0 + NaN * 0 = NaN\<close>, and the update writes NaN into the
  padding coordinates of the two blocks of each pair of the row. In the model that
  \<^verbatim>\<open>init_model\<close> builds for the concrete scenario with the requested size 2, aligned to 4,
  the padding coordinate 2 of the block of index 1 and field 1 holds 0 before the call and
  NaN after it.
\<close>

theorem padding_nan_counterexample:
  "init_model ex_heap ex_drand48 4 2 ex_param = Inr ex_init_model \<and>
   padding_zero_f (param_k ex_param) (float_model ex_init_model) \<and>
   modelf_W (float_model ex_init_model) (block_offset_f (float_model ex_init_model) 1 1 + 2) =
     Float 0 \<and>
   modelf_W (apply_updates_f ex_calls_nan (float_model ex_init_model))
     (block_offset_f (apply_updates_f ex_calls_nan (float_model ex_init_model)) 1 1 + 2) = NaN \<and>
   \<not> padding_zero_f (param_k ex_param) (apply_updates_f ex_calls_nan (float_model ex_init_model))"
proof -
  have k: "0 \<le> param_k ex_param" by (simp add: ex_param_def)
  have p0: "padding_zero_f (param_k ex_param) (float_model ex_init_model)"
    using model_inv_padding_zero[OF float_model_inv[OF ex_init_model k]] .
  then have s0: "modelf_W (float_model ex_init_model)
                   (block_offset_f (float_model ex_init_model) 1 1 + 2) = Float 0"
    by (simp add: padding_zero_f_def ex_param_def)
  let ?M = "apply_updates_f ex_calls_nan (float_model ex_init_model)"
  have o: "block_offset_f ?M 1 1 + 2 = 26" by (simp add: block_offset_f_def)
  have s1: "modelf_W ?M (block_offset_f ?M 1 1 + 2) = NaN"
    by (simp only: o ex_nan_slot)
  have "\<not> padding_zero_f (param_k ex_param) ?M"
  proof
    assume "padding_zero_f (param_k ex_param) ?M"
    then have "modelf_W ?M (block_offset_f ?M 1 1 + 2) = Float 0"
      by (simp add: padding_zero_f_def ex_param_def)
    then show False using s1 by simp
  qed
  then show ?thesis using ex_init_model p0 s0 s1 by simp
qed

text \<open>
  C8, amended. In the model that \<^verbatim>\<open>init_model\<close> builds for a requested size
  \<open>k_requested \<ge> 0\<close>, every padding coordinate \<open>k_requested \<le> d < k\<close> of every block
  holds 0; it still does after any sequence of finite calls of the kernel in update mode,
  that is, calls whose \<open>eta\<close>, \<open>lambda\<close> and products \<open>kappa * (2 * v1 * v2 * r)\<close> are
  neither infinite nor NaN and whose rows have no negative index or field; and on such a
  model the body of the score loop, for any two blocks and a finite \<open>v\<close>, leaves the
  lanes of the padding coordinates of its register as they are: a padding coordinate
  adds exactly 0. (The lane holds a float, as every lane of the register of the kernel
  does: \<open>score_register_in_range\<close>.)
\<close>

theorem padding_stays_zero_finite:
  "init_model heap drand48 n m param = Inr model0 \<Longrightarrow> 0 \<le> param_k param \<Longrightarrow>
   (\<forall>c\<in>set calls. finite_call c) \<Longrightarrow>
   padding_zero_f (param_k param) (float_model model0) \<and>
   padding_zero_f (param_k param) (apply_updates_f calls (float_model model0)) \<and>
   (\<forall>j1 f2 j2 f1 v d i XMMt.
      0 \<le> j1 \<and> j1 < n \<and> 0 \<le> f2 \<and> f2 < m \<and> 0 \<le> j2 \<and> j2 < n \<and> 0 \<le> f1 \<and> f1 < m \<and>
      f_is_finite v \<and> 0 \<le> i \<and> i < 4 \<and> param_k param \<le> d + i \<and> d + i < model_k model0 \<and>
      f_in_range (lanef XMMt i) \<longrightarrow>
      lanef (wTx_score_body_f
               (block_offset_f (apply_updates_f calls (float_model model0)) j1 f2)
               (block_offset_f (apply_updates_f calls (float_model model0)) j2 f1)
               (mmf_set1_ps v) d
               (modelf_W (apply_updates_f calls (float_model model0))) XMMt) i =
        lanef XMMt i)"
proof -
  assume i: "init_model heap drand48 n m param = Inr model0" and k: "0 \<le> param_k param"
    and c: "\<forall>c\<in>set calls. finite_call c"
  let ?F = "float_model model0"
  let ?M = "apply_updates_f calls ?F"
  note fl = init_model_fields[OF i]
  have f0: "modelf_n ?F = n" "modelf_m ?F = m" "modelf_k ?F = model_k model0"
    by (simp_all add: float_model_def fl(1,2))
  have i0: "model_inv (param_k param) ?F" using float_model_inv[OF i k] .
  have dv: "4 dvd modelf_k ?F"
    using fl(3) k_aligned_props(2)[of "param_k param"] by (simp add: f0)
  have iM: "model_inv (param_k param) ?M"
    using apply_updates_f_inv[OF k i0 dv c] by simp
  have sc: "lanef (wTx_score_body_f (block_offset_f ?M j1 f2) (block_offset_f ?M j2 f1)
                     (mmf_set1_ps v) d (modelf_W ?M) XMMt) i' = lanef XMMt i'"
    if "0 \<le> j1 \<and> j1 < n \<and> 0 \<le> f2 \<and> f2 < m \<and> 0 \<le> j2 \<and> j2 < n \<and> 0 \<le> f1 \<and> f1 < m \<and>
        f_is_finite v \<and> 0 \<le> i' \<and> i' < 4 \<and> param_k param \<le> d + i' \<and> d + i' < model_k model0 \<and>
        f_in_range (lanef XMMt i')"
    for j1 f2 j2 f1 v d i' XMMt
    using that by (intro score_body_f_padding[OF iM k]) (simp_all add: f0)
  show ?thesis
    using model_inv_padding_zero[OF i0] model_inv_padding_zero[OF iM] sc by blast
qed

theorem padding_stays_zero_finite_witness:
  "init_model ex_heap ex_drand48 4 2 ex_param = Inr ex_init_model \<and> 0 \<le> param_k ex_param \<and>
   list_all finite_call ex_calls_f \<and>
   padding_zero_f (param_k ex_param) (float_model ex_init_model) \<and>
   padding_zero_f (param_k ex_param) (apply_updates_f ex_calls_f (float_model ex_init_model)) \<and>
   f_is_finite (Float 2) \<and> param_k ex_param \<le> 0 + 2 \<and> 0 + 2 < model_k ex_init_model \<and>
   f_in_range (lanef mmf_setzero_ps 2) \<and>
   lanef (wTx_score_body_f
            (block_offset_f (apply_updates_f ex_calls_f (float_model ex_init_model)) 1 1)
            (block_offset_f (apply_updates_f ex_calls_f (float_model ex_init_model)) 2 0)
            (mmf_set1_ps (Float 2)) 0
            (modelf_W (apply_updates_f ex_calls_f (float_model ex_init_model))) mmf_setzero_ps) 2 =
     lanef mmf_setzero_ps 2"
proof -
  have k: "0 \<le> param_k ex_param" by (simp add: ex_param_def)
  have c: "list_all finite_call ex_calls_f"
    by (simp add: ex_calls_f_def finite_call_def ex_row_f_def pair_value_f_def f_round_def
          FLT_MAX_def)
  then have c': "\<forall>c\<in>set ex_calls_f. finite_call c" by (simp add: list_all_iff)
  have h: "f_is_finite (Float 2)" "param_k ex_param \<le> 0 + 2" "0 + 2 < model_k ex_init_model"
    "f_in_range (lanef mmf_setzero_ps 2)"
    using FLT_MAX_ge_1
    by (simp_all add: ex_param_def ex_init_model_def lanef_def mmf_setzero_ps_def)
  have r: "(0::int) \<le> 1 \<and> (1::int) < 4 \<and> (0::int) \<le> 1 \<and> (1::int) < 2 \<and> (0::int) \<le> 2 \<and> (2::int) < 4 \<and>
           (0::int) \<le> 0 \<and> (0::int) < 2 \<and> (0::int) \<le> 2 \<and> (2::int) < 4"
    by simp
  note th = padding_stays_zero_finite[OF ex_init_model k c']
  from th have p: "padding_zero_f (param_k ex_param) (float_model ex_init_model)"
    "padding_zero_f (param_k ex_param) (apply_updates_f ex_calls_f (float_model ex_init_model))"
    by blast+
  from th h r have l: "lanef (wTx_score_body_f
            (block_offset_f (apply_updates_f ex_calls_f (float_model ex_init_model)) 1 1)
            (block_offset_f (apply_updates_f ex_calls_f (float_model ex_init_model)) 2 0)
            (mmf_set1_ps (Float 2)) 0
            (modelf_W (apply_updates_f ex_calls_f (float_model ex_init_model))) mmf_setzero_ps) 2 =
     lanef mmf_setzero_ps 2"
    by blast
  show ?thesis using ex_init_model k c h p l by simp
qed

section \<open>Training\<close>

lemma train_row_random:
  "train_row (param\<lparr>param_random := b\<rparr>) tci fcis row s = train_row param tci fcis row s"
  by (simp add: train_row_def Let_def split: prod.splits sum.splits flexible_type.splits)

lemma train_rows_random:
  "train_rows (param\<lparr>param_random := b\<rparr>) tci fcis rows s = train_rows param tci fcis rows s"
  by (induction rows arbitrary: s) (simp_all add: train_row_random split: sum.splits)

lemma train_iter_random:
  "train_iter (param\<lparr>param_random := b\<rparr>) tr va tci fcis iter s =
   train_iter param tr va tci fcis iter s"
  by (simp add: train_iter_def train_rows_random Let_def
        split: prod.splits sum.splits option.splits)

lemma train_iters_random:
  "train_iters (param\<lparr>param_random := b\<rparr>) tr va tci fcis iter s =
   train_iters param tr va tci fcis iter s"
proof (induction param tr va tci fcis iter s rule: train_iters.induct)
  case (1 param tr va tci fcis iter s)
  have L: "train_iters (param\<lparr>param_random := b\<rparr>) tr va tci fcis iter s =
     (if iter < param_nr_iters param
      then (case train_iter param tr va tci fcis iter s of
              Inl e \<Rightarrow> Inl e
            | Inr s' \<Rightarrow> train_iters (param\<lparr>param_random := b\<rparr>) tr va tci fcis (iter + 1) s')
      else Inr s)"
    using train_iters.simps[of "param\<lparr>param_random := b\<rparr>" tr va tci fcis iter s]
    by (simp add: train_iter_random)
  have R: "train_iters param tr va tci fcis iter s =
     (if iter < param_nr_iters param
      then (case train_iter param tr va tci fcis iter s of
              Inl e \<Rightarrow> Inl e
            | Inr s' \<Rightarrow> train_iters param tr va tci fcis (iter + 1) s')
      else Inr s)"
    by (rule train_iters.simps)
  show ?case
  proof (cases "iter < param_nr_iters param")
    case True
    show ?thesis
    proof (cases "train_iter param tr va tci fcis iter s")
      case (Inl e)
      then show ?thesis using True by (simp add: L R)
    next
      case (Inr s')
      then show ?thesis using True "1.IH"[OF True Inr] by (simp add: L R)
    qed
  next
    case False
    then show ?thesis by (simp add: L R)
  qed
qed

lemma init_model_random:
  "init_model heap drand48 n m (param\<lparr>param_random := b\<rparr>) = init_model heap drand48 n m param"
  by (simp add: init_model_def Let_def split: sum.splits)

lemma train_random:
  "train heap drand48 tr order' (param\<lparr>param_random := b\<rparr>) va =
   train heap drand48 tr order param va"
  by (simp add: train_def init_model_random train_iters_random Let_def
        split: sum.splits prod.splits)

lemma train_iter_model:
  "map_sum id snd (train_iter param tr va tci fcis iter (lg, model)) =
   map_sum id snd (train_iter param tr va tci fcis iter' (lg', model))"
  by (simp add: train_iter_def Let_def split: sum.splits option.splits prod.splits)

text \<open>
  C10. \<open>train\<close> reads neither \<open>param.random\<close> nor \<open>order\<close>: two runs whose parameters
  differ only in \<open>random\<close>, on the same problem, the same heap and the same draws, return
  the same log and the same model, or the same error; so does \<open>ffm_train\<close>. Every
  iteration makes the same pass over the rows of the frame in their order: the model (or
  the error) after an iteration depends on the model before it, not on the number of the
  iteration.
\<close>

theorem train_ignores_random:
  "train heap drand48 tr order' (param\<lparr>param_random := b\<rparr>) va =
     train heap drand48 tr order param va \<and>
   ffm_train heap drand48 tr (param\<lparr>param_random := b\<rparr>) = ffm_train heap drand48 tr param \<and>
   map_sum id snd (train_iter param tr va tci fcis iter (lg, model)) =
     map_sum id snd (train_iter param tr va tci fcis iter' (lg', model))"
proof (intro conjI)
  show "train heap drand48 tr order' (param\<lparr>param_random := b\<rparr>) va =
        train heap drand48 tr order param va"
    by (rule train_random)
  show "ffm_train heap drand48 tr (param\<lparr>param_random := b\<rparr>) = ffm_train heap drand48 tr param"
    by (simp add: ffm_train_def train_with_validation_def train_random[of _ _ _ _ _ _ _ "map int [0..<nat (prob_l tr)]"])
  show "map_sum id snd (train_iter param tr va tci fcis iter (lg, model)) =
        map_sum id snd (train_iter param tr va tci fcis iter' (lg', model))"
    by (rule train_iter_model)
qed

lemma ex_train_valid_pairs:
  "valid_pairs ex_train_model ex_train_nodes =
     [(\<lparr>node_f = 1, node_j = 1, node_v = 3\<rparr>, \<lparr>node_f = 2, node_j = 2, node_v = 4\<rparr>)]"
  by (simp add: valid_pairs_def valid_pair_def in_bounds_def ex_train_model_def ex_train_nodes_def)

lemma ex_train_score: "fst (wTx ex_train_nodes r ex_train_model 0 0 0 False) = 96 * r"
proof -
  have "4 dvd model_k ex_train_model" by (simp add: ex_train_model_def)
  then have "fst (wTx ex_train_nodes r ex_train_model 0 0 0 False) = score_spec ex_train_model r ex_train_nodes"
    by (rule wTx_score_eq)
  also have "\<dots> = 96 * r"
    by (simp add: score_spec_def ex_train_valid_pairs pair_score_def)
       (simp add: ex_train_model_def dot_product_four)
  finally show ?thesis .
qed

text \<open>
  C1 at a row with the values 3 and 4 and \<open>param.normalization\<close> set. The claim has the
  scale \<open>1 / sqrt (3\<^sup>2 + 4\<^sup>2) = 1 / 5\<close>, with which the kernel scores the row at
  \<open>96 / 5\<close>. The body of the row loop passes the scale 1: it scores the row at 96, adds
  \<open>ln (1 + exp (- 96))\<close> to the loss, and updates with \<open>kappa\<close> computed from 96. The
  validation pass scores the row at 96 as well.
\<close>

theorem train_row_scale_is_one:
  "param_normalization ex_norm_param \<and>
   feature_nodes [1, 2] ex_flex_row [] = Inr ex_train_nodes \<and>
   1 / sqrt (predict_sumsq ex_train_nodes 0) = 1 / 5 \<and>
   fst (wTx ex_train_nodes (1 / sqrt (predict_sumsq ex_train_nodes 0)) ex_train_model 0 0 0 False) = 96 / 5 \<and>
   fst (wTx ex_train_nodes 1 ex_train_model 0 0 0 False) = 96 \<and>
   train_row ex_norm_param 0 [1, 2] ex_flex_row (0, ex_train_model) =
     Inr (ln (1 + exp (- 96)),
          snd (wTx ex_train_nodes 1 ex_train_model (- exp (- 96) / (1 + exp (- 96))) (1 / 10) 0 True)) \<and>
   va_row 0 [1, 2] ex_train_model ex_flex_row 0 = Inr (ln (1 + exp (- 96)))"
proof -
  have n: "feature_nodes [1, 2] ex_flex_row [] = Inr ex_train_nodes"
    by (simp add: ex_flex_row_def ex_train_nodes_def row_at_def dict_nodes_def)
  have s: "1 / sqrt (predict_sumsq ex_train_nodes 0) = 1 / 5"
    by (simp add: ex_train_nodes_def sqrt_25)
  have y: "row_at ex_flex_row 0 = Inr (FLEX_INTEGER 1)"
    by (simp add: ex_flex_row_def row_at_def)
  have sc: "snd (wTx ex_train_nodes 1 ex_train_model 0 0 0 False) = ex_train_model"
    by (rule wTx_score_snd)
  have t: "train_row ex_norm_param 0 [1, 2] ex_flex_row (0, ex_train_model) =
     Inr (ln (1 + exp (- 96)),
          snd (wTx ex_train_nodes 1 ex_train_model (- exp (- 96) / (1 + exp (- 96))) (1 / 10) 0 True))"
    unfolding train_row_def y n
    by (simp add: Let_def ex_train_score sc) (simp add: ex_norm_param_def)
  have v: "va_row 0 [1, 2] ex_train_model ex_flex_row 0 = Inr (ln (1 + exp (- 96)))"
    unfolding va_row_def y n
    by (simp add: Let_def ex_train_score)
  show ?thesis
    using n t v ex_train_score[of 1] ex_train_score[of "1 / sqrt (predict_sumsq ex_train_nodes 0)"]
    by (simp add: s) (simp add: ex_norm_param_def)
qed

section \<open>A saved model, loaded back\<close>





end
